(* ===== verification/Prelude.thy ===== *)
theory Prelude
  imports Main "HOL-Library.Word"
begin

text \<open>
  What the components share: bytes and their big-endian encodings, the fixed-size
  chunks of a slice, Rust's result type read as a sum (\<open>Inl\<close> the error), checked
  64-bit addition, and instants of the monotonic clock as nanoseconds since its origin.
\<close>

named_theorems limits

type_synonym u8 = "8 word"
type_synonym bytes = "u8 list"
type_synonym instant = nat

section \<open>Durations\<close>

definition secs :: "nat \<Rightarrow> nat" where
  "secs n = n * 1000000000"

lemma secs_mono [simp]: "secs m \<le> secs n \<longleftrightarrow> m \<le> n"
  by (simp add: secs_def)

lemma secs_strict_mono [simp]: "secs m < secs n \<longleftrightarrow> m < n"
  by (simp add: secs_def)

section \<open>Big-endian integers\<close>

text \<open>
  \<open>be_bytes k n\<close> is \<open>to_be_bytes\<close> of the k-byte unsigned integer \<open>n\<close>; a larger \<open>n\<close> is cut
  to its low k bytes, as Rust's \<open>as\<close> cast does. \<open>be_nat\<close> is \<open>from_be_bytes\<close>.
\<close>

fun be_bytes :: "nat \<Rightarrow> nat \<Rightarrow> bytes" where
  "be_bytes 0 n = []"
| "be_bytes (Suc k) n = be_bytes k (n div 256) @ [of_nat n]"

definition be_nat :: "bytes \<Rightarrow> nat" where
  "be_nat bs = foldl (\<lambda>a b. a * 256 + unat b) 0 bs"

lemma be_nat_Nil [simp]: "be_nat [] = 0"
  by (simp add: be_nat_def)

lemma be_nat_snoc [simp]: "be_nat (bs @ [b]) = be_nat bs * 256 + unat b"
  by (simp add: be_nat_def)

lemma length_be_bytes [simp]: "length (be_bytes k n) = k"
  by (induction k arbitrary: n) auto

lemma unat_u8_less [simp]: "unat (b :: u8) < 256"
  using unsigned_less [of b] by simp

lemma unat_of_nat_u8: "unat (of_nat n :: u8) = n mod 256"
  by (simp add: unat_of_nat)

lemma be_nat_be_bytes: "be_nat (be_bytes k n) = n mod 256 ^ k"
proof (induction k arbitrary: n)
  case 0
  then show ?case by simp
next
  case (Suc k)
  have "n mod (256 * 256 ^ k) = n div 256 mod 256 ^ k * 256 + n mod 256"
    by (simp add: mod_mult2_eq)
  with Suc show ?case by (simp add: unat_of_nat_u8)
qed

lemma be_nat_be_bytes_id [simp]: "n < 256 ^ k \<Longrightarrow> be_nat (be_bytes k n) = n"
  by (simp add: be_nat_be_bytes)

lemma of_nat_low_byte: "(of_nat (m * 256 + unat b) :: u8) = b"
  by (simp only: word_unat_eq_iff unat_of_nat_u8) simp

lemma be_bytes_be_nat: "be_bytes (length bs) (be_nat bs) = bs"
proof (induction bs rule: rev_induct)
  case Nil
  then show ?case by simp
next
  case (snoc b bs)
  then show ?case
    using of_nat_low_byte [of "be_nat bs" b] by (simp del: of_nat_add of_nat_mult)
qed

lemma be_nat_bound: "be_nat bs < 256 ^ length bs"
proof (induction bs rule: rev_induct)
  case Nil
  then show ?case by simp
next
  case (snoc b bs)
  have "unat b < 256" by simp
  with snoc have "be_nat bs * 256 + unat b < (be_nat bs + 1) * 256" by simp
  also have "\<dots> \<le> 256 ^ length bs * 256" using snoc by simp
  finally show ?case by (simp add: mult.commute)
qed

section \<open>Checked arithmetic on 64-bit counters\<close>

definition u64_checked_add :: "nat \<Rightarrow> nat \<Rightarrow> nat option" where
  "u64_checked_add a b = (if a + b < 2 ^ 64 then Some (a + b) else None)"

lemma u64_checked_add_Some [simp]:
  "u64_checked_add a b = Some c \<longleftrightarrow> c = a + b \<and> a + b < 2 ^ 64"
  by (auto simp: u64_checked_add_def)

lemma u64_checked_add_None [simp]: "u64_checked_add a b = None \<longleftrightarrow> 2 ^ 64 \<le> a + b"
  by (auto simp: u64_checked_add_def)

section \<open>Slices\<close>

text \<open>\<open>chunks n xs\<close> is the slice method of that name: pieces of \<open>n\<close>, the last one shorter.\<close>

function chunks :: "nat \<Rightarrow> 'a list \<Rightarrow> 'a list list" where
  "chunks n xs = (if n = 0 \<or> xs = [] then [] else take n xs # chunks n (drop n xs))"
  by pat_completeness auto
termination
  by (relation "measure (\<lambda>(n, xs). length xs)") auto

declare chunks.simps [simp del]

lemma chunks_Nil [simp]: "chunks n [] = []"
  by (subst chunks.simps) simp

lemma chunks_nonempty: "0 < n \<Longrightarrow> xs \<noteq> [] \<Longrightarrow> chunks n xs = take n xs # chunks n (drop n xs)"
  by (subst chunks.simps) simp

lemma concat_chunks [simp]: "0 < n \<Longrightarrow> concat (chunks n xs) = xs"
proof (induction n xs rule: chunks.induct)
  case (1 n xs)
  then show ?case by (cases "xs = []") (simp_all add: chunks_nonempty)
qed

lemma chunks_length_le: "c \<in> set (chunks n xs) \<Longrightarrow> 0 < length c \<and> length c \<le> n"
proof (induction n xs rule: chunks.induct)
  case (1 n xs)
  then show ?case
    by (cases "n = 0 \<or> xs = []") (auto simp: chunks.simps [of n xs])
qed

section \<open>Results\<close>

text \<open>\<open>result_bind\<close> is the question-mark operator: an error is returned at once.\<close>

fun result_bind :: "'e + 'a \<Rightarrow> ('a \<Rightarrow> 'e + 'b) \<Rightarrow> 'e + 'b" where
  "result_bind (Inl e) f = Inl e"
| "result_bind (Inr x) f = f x"

definition ok_or :: "'a option \<Rightarrow> 'e \<Rightarrow> 'e + 'a" where
  "ok_or r e = (case r of None \<Rightarrow> Inl e | Some x \<Rightarrow> Inr x)"

lemma ok_or_simps [simp]: "ok_or None e = Inl e" "ok_or (Some x) e = Inr x"
  by (simp_all add: ok_or_def)

lemma result_bind_Inr_iff: "result_bind r f = Inr y \<longleftrightarrow> (\<exists>x. r = Inr x \<and> f x = Inr y)"
  by (cases r) auto

lemma ok_or_Inr_iff: "ok_or r e = Inr y \<longleftrightarrow> r = Some y"
  by (cases r) auto

end
