(* ===== verification/Records.thy ===== *)
theory Records
  imports Prelude
begin

text \<open>
  shared/secure-channel/src/records.rs, with the error type of the crate: application
  records of up to 1 MiB travel as chunks of at most 60 KiB, each behind a 16-byte header
  (record number, total length, offset). \<open>push\<close> is the receiving \<open>Assembler\<close>;
  \<open>record_contents\<close> is the plaintext of each frame that \<open>Session::seal_record\<close> (lib.rs)
  builds. The lemmas show the memory bound, that the assembler loses, repeats and
  reorders no byte, and that it rebuilds what was cut.
\<close>

datatype error =
  InvalidState | InvalidInput | AuthenticationFailed | InitializationFailed | LimitReached

definition MAX_FRAME :: nat where [limits]: "MAX_FRAME = 65535"
definition MAX_RECORD :: nat where [limits]: "MAX_RECORD = 1024 * 1024"
definition HEADER :: nat where [limits]: "HEADER = 16"
definition CHUNK :: nat where [limits]: "CHUNK = 60 * 1024"

section \<open>The assembler\<close>

record assembler =
  asm_record :: nat
  asm_total :: nat
  asm_started :: "instant option"
  asm_partial :: bytes

definition assembler_default :: assembler where
  "assembler_default =
     \<lparr>asm_record = 0, asm_total = 0, asm_started = None, asm_partial = []\<rparr>"

definition expired :: "instant \<Rightarrow> assembler \<Rightarrow> bool" where
  "expired now a = (case asm_started a of None \<Rightarrow> False | Some start \<Rightarrow> secs 30 \<le> now - start)"

definition header_record :: "bytes \<Rightarrow> nat" where
  "header_record contents = be_nat (take 8 contents)"

definition header_total :: "bytes \<Rightarrow> nat" where
  "header_total contents = be_nat (take 4 (drop 8 contents))"

definition header_offset :: "bytes \<Rightarrow> nat" where
  "header_offset contents = be_nat (take 4 (drop 12 contents))"

text \<open>
  \<open>push\<close> returns its result and the assembler afterwards: a first chunk whose length is
  wrong has already overwritten \<open>total\<close> and \<open>started\<close> when it is refused.
\<close>

definition push ::
  "instant \<Rightarrow> bytes \<Rightarrow> assembler \<Rightarrow> (error + bytes option) \<times> assembler" where
  "push now contents a =
    (if expired now a then (Inl LimitReached, a)
     else if length contents \<le> HEADER \<or> HEADER + CHUNK < length contents then (Inl InvalidInput, a)
     else
       let record = header_record contents;
           tot = header_total contents;
           offset = header_offset contents
       in if record \<noteq> asm_record a \<or> tot = 0 \<or> MAX_RECORD < tot
             \<or> offset \<noteq> length (asm_partial a)
          then (Inl InvalidInput, a)
          else
            let data = drop HEADER contents;
                a1 = (if offset = 0 then a\<lparr>asm_total := tot, asm_started := Some now\<rparr> else a)
            in if tot \<noteq> asm_total a1 \<or> length data \<noteq> min CHUNK (tot - offset)
               then (Inl InvalidInput, a1)
               else
                 let a2 = a1\<lparr>asm_partial := asm_partial a1 @ data\<rparr>
                 in if length (asm_partial a2) = tot
                    then (case u64_checked_add (asm_record a2) 1 of
                            None \<Rightarrow> (Inl LimitReached, a2)
                          | Some r \<Rightarrow>
                              (Inr (Some (asm_partial a2)),
                               a2\<lparr>asm_record := r, asm_total := 0, asm_started := None,
                                  asm_partial := []\<rparr>))
                    else (Inr None, a2))"

section \<open>The chunks of a record\<close>

definition chunk_contents :: "nat \<Rightarrow> nat \<Rightarrow> nat \<Rightarrow> bytes \<Rightarrow> bytes" where
  "chunk_contents record tot offset data =
     be_bytes 8 record @ be_bytes 4 tot @ be_bytes 4 offset @ data"

definition record_contents :: "nat \<Rightarrow> bytes \<Rightarrow> bytes list" where
  "record_contents record plaintext =
     map (\<lambda>(index, chunk). chunk_contents record (length plaintext) (index * CHUNK) chunk)
       (List.enumerate 0 (chunks CHUNK plaintext))"

section \<open>A sequence of frames\<close>

text \<open>
  The frames of a connection, each with the instant it is pushed; the completed records
  are collected and the first error ends it, as it ends the session.
\<close>

fun feed :: "(instant \<times> bytes) list \<Rightarrow> assembler \<Rightarrow> (error + bytes list) \<times> assembler" where
  "feed [] a = (Inr [], a)"
| "feed ((now, contents) # fs) a =
     (case push now contents a of
        (Inl e, a') \<Rightarrow> (Inl e, a')
      | (Inr out, a') \<Rightarrow>
          (case feed fs a' of
             (Inl e, a'') \<Rightarrow> (Inl e, a'')
           | (Inr outs, a'') \<Rightarrow> (Inr (case out of None \<Rightarrow> outs | Some r \<Rightarrow> r # outs), a'')))"

section \<open>Invariant\<close>

text \<open>
  Between calls the partial record is empty and unmarked, or it is a started record whose
  length is a positive multiple of the chunk size below its announced total.
\<close>

definition asm_inv :: "assembler \<Rightarrow> bool" where
  "asm_inv a \<longleftrightarrow>
     asm_record a < 2 ^ 64 \<and>
     (if asm_partial a = [] then asm_started a = None \<and> asm_total a = 0
      else asm_started a \<noteq> None \<and> length (asm_partial a) < asm_total a
           \<and> asm_total a \<le> MAX_RECORD \<and> CHUNK dvd length (asm_partial a))"

lemma asm_inv_default: "asm_inv assembler_default"
  by (simp add: asm_inv_def assembler_default_def)

lemma push_partial_bound:
  assumes "asm_inv a"
  shows "length (asm_partial (snd (push now contents a))) \<le> MAX_RECORD"
  using assms
  by (auto simp: push_def asm_inv_def Let_def limits split: option.splits if_splits)

lemma push_ok_inv:
  assumes inv: "asm_inv a" and ok: "push now contents a = (Inr out, a')"
  shows "asm_inv a'"
proof -
  have "CHUNK dvd length (asm_partial a)"
    using inv by (auto simp: asm_inv_def split: if_splits)
  moreover have "0 < CHUNK" by (simp add: limits)
  ultimately show ?thesis
    using inv ok
    by (auto simp: push_def asm_inv_def Let_def min_def split: option.splits if_splits)
qed

lemma push_ok_total:
  assumes "asm_inv a" and "push now contents a = (Inr out, a')"
  shows "out = None \<longleftrightarrow> asm_partial a' \<noteq> []"
    and "out = None \<Longrightarrow> asm_record a' = asm_record a"
    and "out \<noteq> None \<Longrightarrow> asm_record a' = Suc (asm_record a)"
  using assms
  by (auto simp: push_def asm_inv_def Let_def limits min_def split: option.splits if_splits)

text \<open>What one accepted frame adds is exactly its data, in place.\<close>

lemma push_conserves:
  assumes "push now contents a = (Inr out, a')"
  shows "(case out of None \<Rightarrow> [] | Some r \<Rightarrow> r) @ asm_partial a'
           = asm_partial a @ drop HEADER contents"
  using assms by (auto simp: push_def Let_def split: option.splits if_splits)

lemma feed_ok_inv:
  "asm_inv a \<Longrightarrow> feed fs a = (Inr outs, a') \<Longrightarrow> asm_inv a'"
proof (induction fs arbitrary: a outs)
  case Nil
  then show ?case by simp
next
  case (Cons f fs)
  then show ?case
    by (cases f) (auto split: prod.splits sum.splits dest: push_ok_inv)
qed

lemma feed_conserves_aux:
  "feed fs a = (Inr outs, a') \<Longrightarrow>
     concat outs @ asm_partial a' = asm_partial a @ concat (map (\<lambda>f. drop HEADER (snd f)) fs)"
proof (induction fs arbitrary: a outs)
  case Nil
  then show ?case by simp
next
  case (Cons f fs)
  obtain now contents where f: "f = (now, contents)" by (cases f)
  with Cons.prems obtain out b outs' where
      p: "push now contents a = (Inr out, b)" and r: "feed fs b = (Inr outs', a')"
      and outs: "outs = (case out of None \<Rightarrow> outs' | Some r \<Rightarrow> r # outs')"
    by (auto split: prod.splits sum.splits)
  let ?o = "case out of None \<Rightarrow> [] | Some r \<Rightarrow> r"
  let ?d = "concat (map (\<lambda>f. drop HEADER (snd f)) fs)"
  have "concat outs @ asm_partial a' = ?o @ concat outs' @ asm_partial a'"
    using outs by (cases out) auto
  also have "\<dots> = (?o @ asm_partial b) @ ?d" by (simp only: Cons.IH [OF r] append_assoc)
  also have "\<dots> = (asm_partial a @ drop HEADER contents) @ ?d"
    using push_conserves [OF p] by simp
  finally show ?case using f by simp
qed

lemma push_completed:
  assumes "asm_inv a" and "push now contents a = (Inr (Some r), a')"
  shows "r \<noteq> [] \<and> length r \<le> MAX_RECORD"
  using assms by (auto simp: push_def Let_def limits split: option.splits if_splits)

lemma feed_counts:
  "asm_inv a \<Longrightarrow> feed fs a = (Inr outs, a') \<Longrightarrow>
     asm_record a' = asm_record a + length outs
     \<and> (\<forall>r\<in>set outs. r \<noteq> [] \<and> length r \<le> MAX_RECORD)"
proof (induction fs arbitrary: a outs)
  case Nil
  then show ?case by simp
next
  case (Cons f fs)
  obtain now contents where f: "f = (now, contents)" by (cases f)
  with Cons.prems obtain out b outs' where
      p: "push now contents a = (Inr out, b)" and r: "feed fs b = (Inr outs', a')"
      and outs: "outs = (case out of None \<Rightarrow> outs' | Some r \<Rightarrow> r # outs')"
    by (auto split: prod.splits sum.splits)
  note IH = Cons.IH [OF push_ok_inv [OF Cons.prems(1) p] r]
  show ?case
  proof (cases out)
    case None
    with IH outs push_ok_total(2) [OF Cons.prems(1) p] show ?thesis by simp
  next
    case (Some r)
    with IH outs push_ok_total(3) [OF Cons.prems(1) p] push_completed [OF Cons.prems(1)] p
    show ?thesis by auto
  qed
qed

section \<open>Cutting and rebuilding\<close>

lemma header_chunk_contents [simp]:
  "record < 2 ^ 64 \<Longrightarrow> header_record (chunk_contents record tot offset data) = record"
  "tot < 2 ^ 32 \<Longrightarrow> header_total (chunk_contents record tot offset data) = tot"
  "offset < 2 ^ 32 \<Longrightarrow> header_offset (chunk_contents record tot offset data) = offset"
  by (simp_all add: header_record_def header_total_def header_offset_def chunk_contents_def)

lemma drop_header_chunk_contents [simp]:
  "drop HEADER (chunk_contents record tot offset data) = data"
  by (simp add: chunk_contents_def limits)

lemma length_chunk_contents [simp]:
  "length (chunk_contents record tot offset data) = HEADER + length data"
  by (simp add: chunk_contents_def limits)

text \<open>One well-formed chunk is accepted, and completes the record when it is the last.\<close>

lemma push_chunk:
  assumes "\<not> expired now a" and "Suc (asm_record a) < 2 ^ 64"
    and "offset = length (asm_partial a)" and "offset < tot" and "tot \<le> MAX_RECORD"
    and "offset = 0 \<or> asm_total a = tot" and "length data = min CHUNK (tot - offset)"
  shows "push now (chunk_contents (asm_record a) tot offset data) a =
    (if offset + length data = tot
     then (Inr (Some (asm_partial a @ data)),
           a\<lparr>asm_record := Suc (asm_record a), asm_total := 0, asm_started := None,
             asm_partial := []\<rparr>)
     else (Inr None,
           (if offset = 0 then a\<lparr>asm_total := tot, asm_started := Some now\<rparr> else a)
             \<lparr>asm_partial := asm_partial a @ data\<rparr>))"
proof -
  have c: "0 < CHUNK" "CHUNK \<le> MAX_RECORD" by (simp_all add: limits)
  have "MAX_RECORD < 2 ^ 32" by (simp add: limits)
  with assms have b: "tot < 2 ^ 32" "offset < 2 ^ 32" "asm_record a < 2 ^ 64" by linarith+
  have add: "u64_checked_add (asm_record a) (Suc 0) = Some (Suc (asm_record a))"
    using assms(2) by (simp only: u64_checked_add_Some) simp
  note head = header_chunk_contents(1) [OF b(3)] header_chunk_contents(2) [OF b(1)]
    header_chunk_contents(3) [OF b(2)]
  have len: "\<not> (length (chunk_contents (asm_record a) tot offset data) \<le> HEADER
      \<or> HEADER + CHUNK < length (chunk_contents (asm_record a) tot offset data))"
    using assms(4,7) c by auto
  have ok: "\<not> (asm_record a \<noteq> asm_record a \<or> tot = 0 \<or> MAX_RECORD < tot
      \<or> offset \<noteq> length (asm_partial a))"
    using assms(3-5) by auto
  show ?thesis
  proof (cases "offset = 0")
    case True
    with assms(3) have "asm_partial a = []" by simp
    with True show ?thesis
      using assms(1,4,5,7) c unfolding push_def Let_def head drop_header_chunk_contents
      by (auto simp: add)
  next
    case False
    then show ?thesis
      using assms(1,3,4,5,6,7) c unfolding push_def Let_def head drop_header_chunk_contents
      by (simp only: len ok if_False) (auto simp: add)
  qed
qed

definition frames_from :: "nat \<Rightarrow> nat \<Rightarrow> nat \<Rightarrow> bytes \<Rightarrow> bytes list" where
  "frames_from record tot i rest =
     map (\<lambda>(index, chunk). chunk_contents record tot (index * CHUNK) chunk)
       (List.enumerate i (chunks CHUNK rest))"

lemma frames_from_nonempty:
  "rest \<noteq> [] \<Longrightarrow> frames_from record tot i rest =
     chunk_contents record tot (i * CHUNK) (take CHUNK rest)
       # frames_from record tot (Suc i) (drop CHUNK rest)"
  by (simp add: frames_from_def chunks_nonempty limits)

lemma frames_from_Nil [simp]: "frames_from record tot i [] = []"
  by (simp add: frames_from_def)

lemma feed_rest:
  assumes "length clk = length (frames_from (asm_record a) tot i rest)"
    and "\<forall>t\<in>set clk. t - start < secs 30"
    and "asm_started a = Some start" and "Suc (asm_record a) < 2 ^ 64"
    and "length (asm_partial a) = i * CHUNK" and "0 < i" and "rest \<noteq> []"
    and "tot = length (asm_partial a) + length rest" and "tot \<le> MAX_RECORD"
    and "asm_total a = tot"
  shows "feed (zip clk (frames_from (asm_record a) tot i rest)) a =
    (Inr [asm_partial a @ rest],
     a\<lparr>asm_record := Suc (asm_record a), asm_total := 0, asm_started := None,
       asm_partial := []\<rparr>)"
  using assms
proof (induction "length rest" arbitrary: rest clk i a rule: less_induct)
  case less
  note prems = less.prems
  define head where "head = take CHUNK rest"
  define tail where "tail = drop CHUNK rest"
  have rest: "rest = head @ tail" by (simp add: head_def tail_def)
  have c: "0 < CHUNK" by (simp add: limits)
  have fr: "frames_from (asm_record a) tot i rest =
      chunk_contents (asm_record a) tot (i * CHUNK) head
        # frames_from (asm_record a) tot (Suc i) tail"
    using prems(7) by (simp add: frames_from_nonempty head_def tail_def)
  with prems(1) obtain t ts where clk: "clk = t # ts"
      and ts: "length ts = length (frames_from (asm_record a) tot (Suc i) tail)"
    by (cases clk) auto
  have ne: "\<not> expired t a"
    using prems(2,3) clk by (simp add: expired_def)
  have room: "tot - i * CHUNK = length rest" using prems(5,8) by simp
  have len: "length head = min CHUNK (tot - i * CHUNK)"
    unfolding room by (simp add: head_def min.commute)
  have lt: "i * CHUNK < tot" using prems(5,7,8) by (simp flip: prems(5))
  note push = push_chunk [OF ne prems(4) prems(5) [symmetric] lt prems(9) disjI2 [OF prems(10)] len]
  have whole: "i * CHUNK + length head = tot \<longleftrightarrow> tail = []"
    using prems(5,8) rest by auto
  have off: "i * CHUNK \<noteq> 0" using prems(6) c by simp
  show ?case
  proof (cases "tail = []")
    case True
    with push whole fr clk rest show ?thesis by simp
  next
    case False
    define b where "b = a\<lparr>asm_partial := asm_partial a @ head\<rparr>"
    have b: "asm_record b = asm_record a" "asm_started b = asm_started a"
      "asm_total b = asm_total a" "asm_partial b = asm_partial a @ head"
      by (simp_all add: b_def)
    have hd_len: "length head = CHUNK"
      using False by (simp add: head_def tail_def)
    have "feed (zip ts (frames_from (asm_record b) tot (Suc i) tail)) b =
        (Inr [asm_partial b @ tail],
         b\<lparr>asm_record := Suc (asm_record b), asm_total := 0, asm_started := None,
           asm_partial := []\<rparr>)"
    proof (rule less.hyps)
      show "length tail < length rest" using rest hd_len c by simp
      show "\<forall>t\<in>set ts. t - start < secs 30" using prems(2) clk by simp
      show "tot = length (asm_partial b) + length tail" using prems(8) rest b by simp
    qed (use prems ts hd_len False b in simp_all)
    moreover have "push t (chunk_contents (asm_record a) tot (i * CHUNK) head) a = (Inr None, b)"
      using push whole False off by (simp add: b_def)
    ultimately show ?thesis
      using fr clk rest b by (simp add: b_def)
  qed
qed

lemma record_contents_frames:
  "record_contents record plaintext = frames_from record (length plaintext) 0 plaintext"
  by (simp add: record_contents_def frames_from_def)

lemma feed_record:
  assumes "asm_inv a" and "asm_partial a = []" and "Suc (asm_record a) < 2 ^ 64"
    and "plaintext \<noteq> []" and "length plaintext \<le> MAX_RECORD"
    and "length clk = length (record_contents (asm_record a) plaintext)"
    and "\<forall>t\<in>set clk. t - hd clk < secs 30"
  shows "feed (zip clk (record_contents (asm_record a) plaintext)) a =
    (Inr [plaintext], a\<lparr>asm_record := Suc (asm_record a)\<rparr>)"
proof -
  define head where "head = take CHUNK plaintext"
  define tail where "tail = drop CHUNK plaintext"
  let ?tot = "length plaintext"
  have pt: "plaintext = head @ tail" by (simp add: head_def tail_def)
  have clean: "asm_started a = None" "asm_total a = 0"
    using assms(1,2) by (simp_all add: asm_inv_def)
  have fr: "record_contents (asm_record a) plaintext =
      chunk_contents (asm_record a) ?tot 0 head # frames_from (asm_record a) ?tot 1 tail"
    using assms(4) by (simp add: record_contents_frames frames_from_nonempty head_def tail_def)
  with assms(6) obtain t ts where clk: "clk = t # ts"
      and ts: "length ts = length (frames_from (asm_record a) ?tot 1 tail)"
    by (cases clk) auto
  define b where "b = a\<lparr>asm_total := ?tot, asm_started := Some t, asm_partial := head\<rparr>"
  have b: "asm_record b = asm_record a" "asm_started b = Some t" "asm_total b = ?tot"
    "asm_partial b = head" by (simp_all add: b_def)
  have reset: "a\<lparr>asm_record := r, asm_total := 0, asm_started := None, asm_partial := []\<rparr> =
      a\<lparr>asm_record := r\<rparr>" for r
    using clean assms(2) by (cases a) simp
  have "\<not> expired t a" using clean by (simp add: expired_def)
  moreover have "length head = min CHUNK (?tot - 0)" by (simp add: head_def min.commute)
  ultimately have push: "push t (chunk_contents (asm_record a) ?tot 0 head) a =
      (if length head = ?tot then (Inr (Some head), a\<lparr>asm_record := Suc (asm_record a)\<rparr>)
       else (Inr None, b))"
    using assms(2-5) reset by (subst push_chunk) (simp_all add: b_def)
  show ?thesis
  proof (cases "tail = []")
    case True
    with push fr clk pt show ?thesis by simp
  next
    case False
    then have "length head = 1 * CHUNK" by (simp add: head_def tail_def)
    with assms(3,5,7) ts clk pt False
    have "feed (zip ts (frames_from (asm_record b) ?tot 1 tail)) b =
        (Inr [asm_partial b @ tail],
         b\<lparr>asm_record := Suc (asm_record b), asm_total := 0, asm_started := None,
           asm_partial := []\<rparr>)"
      by (intro feed_rest [where start = t]) (simp_all add: b)
    also have "b\<lparr>asm_record := Suc (asm_record b), asm_total := 0, asm_started := None,
           asm_partial := []\<rparr> = a\<lparr>asm_record := Suc (asm_record a)\<rparr>"
      unfolding b using reset by (simp add: b_def)
    finally show ?thesis using push fr clk False pt b by simp
  qed
qed

section \<open>Properties\<close>

text \<open>C8: a record of 1 to 1 MiB, cut into chunk frames and pushed in order within thirty
  seconds into an assembler between records, comes out once, unchanged, with its last
  frame; the assembler then waits for the next record number.\<close>

theorem fragmentation_roundtrip:
  assumes "asm_inv a" and "asm_partial a = []" and "Suc (asm_record a) < 2 ^ 64"
    and "plaintext \<noteq> []" and "length plaintext \<le> MAX_RECORD"
    and "length clk = length (record_contents (asm_record a) plaintext)"
    and "\<forall>t\<in>set clk. t - hd clk < secs 30"
  shows "feed (zip clk (record_contents (asm_record a) plaintext)) a =
    (Inr [plaintext], a\<lparr>asm_record := Suc (asm_record a)\<rparr>)"
  using assms by (rule feed_record)

lemma two_chunks:
  "record_contents r (replicate (CHUNK + 1) x) =
     [chunk_contents r (CHUNK + 1) 0 (replicate CHUNK x), chunk_contents r (CHUNK + 1) CHUNK [x]]"
proof -
  have "take CHUNK (replicate (CHUNK + 1) x) = replicate CHUNK x"
    by (simp only: take_replicate) simp
  moreover have "drop CHUNK (replicate (CHUNK + 1) x) = [x]"
    by (simp only: drop_replicate) simp
  moreover have "take CHUNK [x] = [x]" "drop CHUNK [x] = []" by (simp_all add: limits)
  ultimately show ?thesis
    by (simp add: record_contents_frames frames_from_nonempty del: replicate_add)
qed

theorem fragmentation_roundtrip_witness:
  "feed (zip [5, 5 + secs 29] (record_contents 0 (replicate (CHUNK + 1) 7))) assembler_default =
     (Inr [replicate (CHUNK + 1) 7], assembler_default\<lparr>asm_record := 1\<rparr>)"
  using fragmentation_roundtrip
      [of assembler_default "replicate (CHUNK + 1) 7" "[5, 5 + secs 29]"]
    asm_inv_default two_chunks [of 0 7]
  by (simp add: assembler_default_def secs_def limits)

text \<open>C9: whatever frames arrive, an assembler that accepts them has put every data byte,
  once and in arrival order, into a completed record or into the one being assembled, has
  counted the completed records, and holds at most 1 MiB.\<close>

theorem assembler_conserves_bytes:
  assumes "feed fs assembler_default = (Inr outs, a)"
  shows "concat outs @ asm_partial a = concat (map (\<lambda>f. drop HEADER (snd f)) fs)
    \<and> asm_record a = length outs
    \<and> (\<forall>r\<in>set outs. r \<noteq> [] \<and> length r \<le> MAX_RECORD)
    \<and> length (asm_partial a) \<le> MAX_RECORD"
proof -
  have "asm_inv a" using assms asm_inv_default by (rule feed_ok_inv [rotated])
  then have "length (asm_partial a) \<le> MAX_RECORD" by (auto simp: asm_inv_def split: if_splits)
  with feed_conserves_aux [OF assms] feed_counts [OF asm_inv_default assms] show ?thesis
    by (simp add: assembler_default_def)
qed

theorem assembler_conserves_bytes_witness:
  "concat [[1, 2], [3]] @ [] =
     concat (map (\<lambda>f. drop HEADER (snd f))
       [(0::nat, chunk_contents 0 2 0 [1, 2]), (1, chunk_contents 1 1 0 [3])])"
  using assembler_conserves_bytes
      [of "[(0, chunk_contents 0 2 0 [1, 2]), (1, chunk_contents 1 1 0 [3])]" "[[1, 2], [3]]"
        "assembler_default\<lparr>asm_record := 2\<rparr>"]
    push_chunk [of 0 assembler_default 0 2 "[1, 2]"]
    push_chunk [of 1 "assembler_default\<lparr>asm_record := 1\<rparr>" 0 1 "[3]"]
  by (simp add: assembler_default_def expired_def limits)

end
