(* ===== verification/Secure_Session.thy ===== *)
theory Secure_Session
  imports Records
begin

text \<open>
  shared/secure-channel/src/lib.rs: device identities and the \<open>Session\<close> state machine
  (Noise handshake, enrollment approval, mutual confirmation, sealed records). The Noise
  library snow is not part of the repository: its two state types are the type variables
  \<open>'h\<close> and \<open>'t\<close>, and its operations are the fields of the record \<open>snow\<close>, an argument of the
  definitions that call it. A call reads the clock once, as the argument \<open>now\<close>.
  Each operation returns its result and the session afterwards; \<open>checked_at\<close> is the
  wrapper that closes a session on every error. The 64-bit counters are natural numbers:
  the budgets proved below keep them far below 2^64.
\<close>

section \<open>The Noise library as a parameter\<close>

text \<open>
  \<open>None\<close> is an error of the library. \<open>sn_initiator\<close> and \<open>sn_responder\<close> are the whole builder
  chain for (private key, psk, prologue). Handshake messages are written with an empty
  payload; \<open>sn_encrypt\<close> and \<open>sn_decrypt\<close> are \<open>write_message\<close> and \<open>read_message\<close> of a
  transport.
\<close>

record ('h, 't) snow =
  sn_pubkey :: "bytes \<Rightarrow> bytes option"
  sn_initiator :: "bytes \<Rightarrow> bytes \<Rightarrow> bytes \<Rightarrow> 'h option"
  sn_responder :: "bytes \<Rightarrow> bytes \<Rightarrow> bytes \<Rightarrow> 'h option"
  sn_my_turn :: "'h \<Rightarrow> bool"
  sn_write :: "'h \<Rightarrow> (bytes \<times> 'h) option"
  sn_read :: "'h \<Rightarrow> bytes \<Rightarrow> (bytes \<times> 'h) option"
  sn_remote_static :: "'h \<Rightarrow> bytes option"
  sn_finished :: "'h \<Rightarrow> bool"
  sn_hash :: "'h \<Rightarrow> bytes"
  sn_transport :: "'h \<Rightarrow> 't option"
  sn_encrypt :: "'t \<Rightarrow> bytes \<Rightarrow> (bytes \<times> 't) option"
  sn_decrypt :: "'t \<Rightarrow> bytes \<Rightarrow> (bytes \<times> 't) option"

section \<open>Constants and identities\<close>

definition HANDSHAKE_MAX :: nat where [limits]: "HANDSHAKE_MAX = 256"
definition MAX_MESSAGES :: nat where [limits]: "MAX_MESSAGES = 1000000"
definition MAX_BYTES :: nat where [limits]: "MAX_BYTES = 2 ^ 30"
definition MAX_AGE :: nat where "MAX_AGE = secs (24 * 60 * 60)"
definition HANDSHAKE_AGE :: nat where "HANDSHAKE_AGE = secs 120"

definition ascii :: "string \<Rightarrow> bytes" where
  "ascii s = map of_char s"

lemma length_ascii [simp]: "length (ascii s) = length s"
  by (simp add: ascii_def)

definition DESKTOP_CONFIRM :: bytes where
  "DESKTOP_CONFIRM = ascii ''FocusBridge/v2/desktop-ready''"

definition PHONE_CONFIRM :: bytes where
  "PHONE_CONFIRM = ascii ''FocusBridge/v2/phone-ready''"

record identity =
  id_private :: bytes
  id_public :: bytes

definition identity_from_private :: "('h, 't) snow \<Rightarrow> bytes \<Rightarrow> error + identity" where
  "identity_from_private sn private =
    (if \<forall>b\<in>set private. b = 0 then Inl InvalidInput
     else case sn_pubkey sn private of
            None \<Rightarrow> Inl InitializationFailed
          | Some public \<Rightarrow>
              if length public = 32 then Inr \<lparr>id_private = private, id_public = public\<rparr>
              else Inl InitializationFailed)"

section \<open>The session\<close>

datatype phase =
  Handshake | AwaitingApproval | SendDesktopConfirmation | AwaitingDesktopConfirmation
| SendPhoneConfirmation | AwaitingPhoneConfirmation | Ready | Closed

record ('h, 't) session =
  s_handshake :: "'h option"
  s_transport :: "'t option"
  s_phase :: phase
  s_phone :: bool
  s_expected_peer :: "bytes option"
  s_peer :: "bytes option"
  s_binding :: "bytes option"
  s_created :: instant
  s_sent_messages :: nat
  s_sent_bytes :: nat
  s_received_messages :: nat
  s_received_bytes :: nat
  s_outgoing_record :: nat
  s_incoming :: assembler

type_synonym ('h, 't, 'a) op = "('h, 't) session \<Rightarrow> (error + 'a) \<times> ('h, 't) session"

definition prologue :: "bytes \<Rightarrow> bytes" where
  "prologue pair =
     ascii ''FocusBridge/session/v2/notification-sync/phone-to-desktop/'' @ pair"

definition session_new ::
  "('h, 't) snow \<Rightarrow> instant \<Rightarrow> identity \<Rightarrow> bytes \<Rightarrow> bytes \<Rightarrow> bool \<Rightarrow> bytes option
     \<Rightarrow> error + ('h, 't) session" where
  "session_new sn now ident psk pair phone pin =
    (if (\<forall>b\<in>set psk. b = 0) \<or> pair = replicate 16 0 \<or> pin = Some (replicate 32 0)
     then Inl InvalidInput
     else case (if phone then sn_initiator sn else sn_responder sn)
                 (id_private ident) psk (prologue pair) of
            None \<Rightarrow> Inl InitializationFailed
          | Some hs \<Rightarrow> Inr
              \<lparr>s_handshake = Some hs, s_transport = None, s_phase = Handshake, s_phone = phone,
               s_expected_peer = pin, s_peer = None, s_binding = None, s_created = now,
               s_sent_messages = 0, s_sent_bytes = 0, s_received_messages = 0,
               s_received_bytes = 0, s_outgoing_record = 0, s_incoming = assembler_default\<rparr>)"

definition session_phone where
  "session_phone sn now ident psk pair desktop = session_new sn now ident psk pair True (Some desktop)"

definition session_desktop where
  "session_desktop sn now ident psk pair phone = session_new sn now ident psk pair False (Some phone)"

definition session_desktop_enrollment where
  "session_desktop_enrollment sn now ident psk pair = session_new sn now ident psk pair False None"

definition is_ready :: "('h, 't) session \<Rightarrow> bool" where
  "is_ready s \<longleftrightarrow> s_phase s = Ready"

definition is_closed :: "('h, 't) session \<Rightarrow> bool" where
  "is_closed s \<longleftrightarrow> s_phase s = Closed"

definition session_close :: "('h, 't) session \<Rightarrow> ('h, 't) session" where
  "session_close s = s\<lparr>s_phase := Closed, s_handshake := None, s_transport := None,
     s_incoming := assembler_default, s_peer := None, s_binding := None\<rparr>"

definition checked_at :: "instant \<Rightarrow> ('h, 't, 'a) op \<Rightarrow> ('h, 't, 'a) op" where
  "checked_at now op s =
    (case (if is_closed s then (Inl InvalidState, s)
           else if expired now (s_incoming s)
                   \<or> (if is_ready s then MAX_AGE else HANDSHAKE_AGE) \<le> now - s_created s
                then (Inl LimitReached, s)
                else op s) of
       (Inl e, s') \<Rightarrow> (Inl e, session_close s')
     | (Inr x, s') \<Rightarrow> (Inr x, s'))"

definition check_alive :: "instant \<Rightarrow> ('h, 't, unit) op" where
  "check_alive now = checked_at now (\<lambda>s. (Inr (), s))"

subsection \<open>Handshake\<close>

definition finish_handshake :: "('h, 't) snow \<Rightarrow> ('h, 't, unit) op" where
  "finish_handshake sn s =
    (case s_handshake s of
       None \<Rightarrow> (Inl InvalidState, s)
     | Some hs \<Rightarrow>
         if \<not> sn_finished sn hs then (Inr (), s)
         else if s_peer s = None then (Inl AuthenticationFailed, s)
         else
           let s1 = s\<lparr>s_handshake := None\<rparr>
           in if length (sn_hash sn hs) \<noteq> 32 then (Inl AuthenticationFailed, s1)
              else
                let s2 = s1\<lparr>s_binding := Some (sn_hash sn hs)\<rparr>
                in case sn_transport sn hs of
                     None \<Rightarrow> (Inl AuthenticationFailed, s2)
                   | Some t \<Rightarrow>
                       (Inr (), s2\<lparr>s_transport := Some t,
                          s_phase := (if s_phone s then AwaitingDesktopConfirmation
                                      else if s_expected_peer s = None then AwaitingApproval
                                      else SendDesktopConfirmation)\<rparr>))"

definition write_handshake_body :: "('h, 't) snow \<Rightarrow> ('h, 't, bytes) op" where
  "write_handshake_body sn s =
    (if s_phase s \<noteq> Handshake then (Inl InvalidState, s)
     else case s_handshake s of
       None \<Rightarrow> (Inl InvalidState, s)
     | Some hs \<Rightarrow>
         if \<not> sn_my_turn sn hs then (Inl InvalidState, s)
         else case sn_write sn hs of
           None \<Rightarrow> (Inl AuthenticationFailed, s)
         | Some (frame, hs') \<Rightarrow>
             (case finish_handshake sn (s\<lparr>s_handshake := Some hs'\<rparr>) of
                (Inl e, s') \<Rightarrow> (Inl e, s')
              | (Inr _, s') \<Rightarrow> (Inr frame, s')))"

definition write_handshake :: "('h, 't) snow \<Rightarrow> instant \<Rightarrow> ('h, 't, bytes) op" where
  "write_handshake sn now = checked_at now (write_handshake_body sn)"

definition read_handshake_body :: "('h, 't) snow \<Rightarrow> bytes \<Rightarrow> ('h, 't, unit) op" where
  "read_handshake_body sn frame s =
    (if s_phase s \<noteq> Handshake then (Inl InvalidState, s)
     else if frame = [] \<or> HANDSHAKE_MAX < length frame then (Inl InvalidInput, s)
     else case s_handshake s of
       None \<Rightarrow> (Inl InvalidState, s)
     | Some hs \<Rightarrow>
         if sn_my_turn sn hs then (Inl InvalidState, s)
         else case sn_read sn hs frame of
           None \<Rightarrow> (Inl AuthenticationFailed, s)
         | Some (payload, hs') \<Rightarrow>
             let s1 = s\<lparr>s_handshake := Some hs'\<rparr>
             in if payload \<noteq> [] then (Inl InvalidInput, s1)
                else case sn_remote_static sn hs' of
                  None \<Rightarrow> finish_handshake sn s1
                | Some remote \<Rightarrow>
                    if length remote \<noteq> 32 then (Inl AuthenticationFailed, s1)
                    else if s_expected_peer s \<noteq> None \<and> s_expected_peer s \<noteq> Some remote
                         then (Inl AuthenticationFailed, s1)
                    else finish_handshake sn (s1\<lparr>s_peer := Some remote\<rparr>))"

definition read_handshake :: "('h, 't) snow \<Rightarrow> instant \<Rightarrow> bytes \<Rightarrow> ('h, 't, unit) op" where
  "read_handshake sn now frame = checked_at now (read_handshake_body sn frame)"

definition approve_enrollment_body :: "bytes \<Rightarrow> bytes \<Rightarrow> ('h, 't, unit) op" where
  "approve_enrollment_body peer binding s =
    (if s_phase s \<noteq> AwaitingApproval \<or> s_peer s \<noteq> Some peer \<or> s_binding s \<noteq> Some binding
     then (Inl InvalidState, s)
     else (Inr (), s\<lparr>s_expected_peer := Some peer, s_phase := SendDesktopConfirmation\<rparr>))"

definition approve_enrollment :: "instant \<Rightarrow> bytes \<Rightarrow> bytes \<Rightarrow> ('h, 't, unit) op" where
  "approve_enrollment now peer binding = checked_at now (approve_enrollment_body peer binding)"

subsection \<open>Transport\<close>

definition encrypt :: "('h, 't) snow \<Rightarrow> bytes \<Rightarrow> ('h, 't, bytes) op" where
  "encrypt sn plaintext s =
    (if MAX_FRAME < length plaintext + 16 then (Inl InvalidInput, s)
     else if MAX_MESSAGES \<le> s_sent_messages s \<or> MAX_BYTES < s_sent_bytes s + length plaintext
          then (Inl LimitReached, s)
     else case s_transport s of
       None \<Rightarrow> (Inl InvalidState, s)
     | Some t \<Rightarrow>
         (case sn_encrypt sn t plaintext of
            None \<Rightarrow> (Inl AuthenticationFailed, s)
          | Some (frame, t') \<Rightarrow>
              (Inr frame, s\<lparr>s_transport := Some t',
                 s_sent_messages := s_sent_messages s + 1,
                 s_sent_bytes := s_sent_bytes s + length plaintext\<rparr>)))"

definition decrypt :: "('h, 't) snow \<Rightarrow> bytes \<Rightarrow> ('h, 't, bytes) op" where
  "decrypt sn frame s =
    (if length frame < 16 \<or> MAX_FRAME < length frame then (Inl InvalidInput, s)
     else if MAX_MESSAGES \<le> s_received_messages s
             \<or> MAX_BYTES < s_received_bytes s + (length frame - 16)
          then (Inl LimitReached, s)
     else case s_transport s of
       None \<Rightarrow> (Inl InvalidState, s)
     | Some t \<Rightarrow>
         (case sn_decrypt sn t frame of
            None \<Rightarrow> (Inl AuthenticationFailed, s)
          | Some (plaintext, t') \<Rightarrow>
              (Inr plaintext, s\<lparr>s_transport := Some t',
                 s_received_messages := s_received_messages s + 1,
                 s_received_bytes := s_received_bytes s + length plaintext\<rparr>)))"

subsection \<open>Confirmation\<close>

definition write_confirmation_body :: "('h, 't) snow \<Rightarrow> ('h, 't, bytes) op" where
  "write_confirmation_body sn s =
    (let send = (\<lambda>plaintext phase.
           (case s_binding s of
              None \<Rightarrow> (Inl InvalidState, s)
            | Some b \<Rightarrow>
                (case encrypt sn (plaintext @ b) s of
                   (Inl e, s') \<Rightarrow> (Inl e, s')
                 | (Inr frame, s') \<Rightarrow> (Inr frame, s'\<lparr>s_phase := phase\<rparr>))))
     in case s_phase s of
          SendDesktopConfirmation \<Rightarrow> send DESKTOP_CONFIRM AwaitingPhoneConfirmation
        | SendPhoneConfirmation \<Rightarrow> send PHONE_CONFIRM Ready
        | _ \<Rightarrow> (Inl InvalidState, s))"

definition write_confirmation :: "('h, 't) snow \<Rightarrow> instant \<Rightarrow> ('h, 't, bytes) op" where
  "write_confirmation sn now = checked_at now (write_confirmation_body sn)"

definition read_confirmation_body :: "('h, 't) snow \<Rightarrow> bytes \<Rightarrow> ('h, 't, unit) op" where
  "read_confirmation_body sn frame s =
    (let receive = (\<lambda>expected phase.
           (case s_binding s of
              None \<Rightarrow> (Inl InvalidState, s)
            | Some b \<Rightarrow>
                (case decrypt sn frame s of
                   (Inl e, s') \<Rightarrow> (Inl e, s')
                 | (Inr plaintext, s') \<Rightarrow>
                     if plaintext \<noteq> expected @ b then (Inl AuthenticationFailed, s')
                     else (Inr (), s'\<lparr>s_phase := phase\<rparr>))))
     in case s_phase s of
          AwaitingDesktopConfirmation \<Rightarrow> receive DESKTOP_CONFIRM SendPhoneConfirmation
        | AwaitingPhoneConfirmation \<Rightarrow> receive PHONE_CONFIRM Ready
        | _ \<Rightarrow> (Inl InvalidState, s))"

definition read_confirmation :: "('h, 't) snow \<Rightarrow> instant \<Rightarrow> bytes \<Rightarrow> ('h, 't, unit) op" where
  "read_confirmation sn now frame = checked_at now (read_confirmation_body sn frame)"

subsection \<open>Records\<close>

text \<open>The loop over the chunks of a record: the first failing \<open>encrypt\<close> ends it.\<close>

fun encrypt_all :: "('h, 't) snow \<Rightarrow> bytes list \<Rightarrow> ('h, 't, bytes list) op" where
  "encrypt_all sn [] s = (Inr [], s)"
| "encrypt_all sn (contents # rest) s =
    (case encrypt sn contents s of
       (Inl e, s') \<Rightarrow> (Inl e, s')
     | (Inr frame, s') \<Rightarrow>
         (case encrypt_all sn rest s' of
            (Inl e, s'') \<Rightarrow> (Inl e, s'')
          | (Inr frames, s'') \<Rightarrow> (Inr (frame # frames), s'')))"

definition seal_record_body :: "('h, 't) snow \<Rightarrow> bytes \<Rightarrow> ('h, 't, bytes list) op" where
  "seal_record_body sn plaintext s =
    (if \<not> is_ready s then (Inl InvalidState, s)
     else if plaintext = [] \<or> MAX_RECORD < length plaintext then (Inl InvalidInput, s)
     else case encrypt_all sn (record_contents (s_outgoing_record s) plaintext) s of
            (Inl e, s') \<Rightarrow> (Inl e, s')
          | (Inr frames, s') \<Rightarrow>
              (case u64_checked_add (s_outgoing_record s') 1 of
                 None \<Rightarrow> (Inl LimitReached, s')
               | Some r \<Rightarrow> (Inr frames, s'\<lparr>s_outgoing_record := r\<rparr>)))"

definition seal_record :: "('h, 't) snow \<Rightarrow> instant \<Rightarrow> bytes \<Rightarrow> ('h, 't, bytes list) op" where
  "seal_record sn now plaintext = checked_at now (seal_record_body sn plaintext)"

definition open_frame_body ::
  "('h, 't) snow \<Rightarrow> instant \<Rightarrow> bytes \<Rightarrow> ('h, 't, bytes option) op" where
  "open_frame_body sn now frame s =
    (if \<not> is_ready s then (Inl InvalidState, s)
     else case decrypt sn frame s of
            (Inl e, s') \<Rightarrow> (Inl e, s')
          | (Inr plaintext, s') \<Rightarrow>
              (case push now plaintext (s_incoming s') of
                 (r, a) \<Rightarrow> (r, s'\<lparr>s_incoming := a\<rparr>)))"

definition open_frame :: "('h, 't) snow \<Rightarrow> instant \<Rightarrow> bytes \<Rightarrow> ('h, 't, bytes option) op" where
  "open_frame sn now frame = checked_at now (open_frame_body sn now frame)"

section \<open>The calls of a client\<close>

text \<open>
  The public methods of \<open>Session\<close> that change it, as one step function: what a client does
  to a session is a list of such calls, each at an instant.
\<close>

datatype api_call =
  CheckAlive | WriteHandshake | ReadHandshake bytes | ApproveEnrollment bytes bytes
| WriteConfirmation | ReadConfirmation bytes | SealRecord bytes | OpenFrame bytes | CloseSession

datatype api_output = Done | FrameOut bytes | FramesOut "bytes list" | Opened "bytes option"

definition out_map :: "('a \<Rightarrow> api_output) \<Rightarrow> (error + 'a) \<times> 's \<Rightarrow> (error + api_output) \<times> 's" where
  "out_map f r = (map_sum (\<lambda>e. e) f (fst r), snd r)"

fun session_call ::
  "('h, 't) snow \<Rightarrow> instant \<Rightarrow> api_call \<Rightarrow> ('h, 't, api_output) op" where
  "session_call sn now CheckAlive s = out_map (\<lambda>_. Done) (check_alive now s)"
| "session_call sn now WriteHandshake s = out_map FrameOut (write_handshake sn now s)"
| "session_call sn now (ReadHandshake f) s = out_map (\<lambda>_. Done) (read_handshake sn now f s)"
| "session_call sn now (ApproveEnrollment p b) s =
     out_map (\<lambda>_. Done) (approve_enrollment now p b s)"
| "session_call sn now WriteConfirmation s = out_map FrameOut (write_confirmation sn now s)"
| "session_call sn now (ReadConfirmation f) s =
     out_map (\<lambda>_. Done) (read_confirmation sn now f s)"
| "session_call sn now (SealRecord p) s = out_map FramesOut (seal_record sn now p s)"
| "session_call sn now (OpenFrame f) s = out_map Opened (open_frame sn now f s)"
| "session_call sn now CloseSession s = (Inr Done, session_close s)"

fun session_run ::
  "('h, 't) snow \<Rightarrow> (instant \<times> api_call) list \<Rightarrow> ('h, 't) session \<Rightarrow> ('h, 't) session" where
  "session_run sn [] s = s"
| "session_run sn ((now, c) # cs) s = session_run sn cs (snd (session_call sn now c s))"

lemma session_run_append [simp]:
  "session_run sn (cs @ ds) s = session_run sn ds (session_run sn cs s)"
  by (induction cs arbitrary: s) auto

section \<open>The invariant\<close>

text \<open>What each phase says of the two states, the identities and the role.\<close>

fun phase_inv :: "phase \<Rightarrow> ('h, 't) session \<Rightarrow> bool" where
  "phase_inv Handshake s \<longleftrightarrow> s_handshake s \<noteq> None \<and> s_transport s = None \<and> s_binding s = None"
| "phase_inv AwaitingApproval s \<longleftrightarrow> \<not> s_phone s \<and> s_expected_peer s = None"
| "phase_inv SendDesktopConfirmation s \<longleftrightarrow> \<not> s_phone s \<and> s_expected_peer s \<noteq> None"
| "phase_inv AwaitingPhoneConfirmation s \<longleftrightarrow> \<not> s_phone s \<and> s_expected_peer s \<noteq> None"
| "phase_inv AwaitingDesktopConfirmation s \<longleftrightarrow> s_phone s"
| "phase_inv SendPhoneConfirmation s \<longleftrightarrow> s_phone s"
| "phase_inv Ready s \<longleftrightarrow> s_expected_peer s \<noteq> None"
| "phase_inv Closed s \<longleftrightarrow> s_handshake s = None \<and> s_transport s = None \<and> s_peer s = None
     \<and> s_binding s = None \<and> s_incoming s = assembler_default"

text \<open>
  \<open>established\<close> holds from the end of the handshake to the closing: one transport, an
  authenticated peer that is the pinned one when there is a pin, a 32-byte binding hash.
\<close>

definition established :: "('h, 't) session \<Rightarrow> bool" where
  "established s \<longleftrightarrow> s_handshake s = None \<and> s_transport s \<noteq> None
     \<and> s_peer s \<noteq> None \<and> (s_expected_peer s \<noteq> None \<longrightarrow> s_peer s = s_expected_peer s)
     \<and> (\<exists>b. s_binding s = Some b \<and> length b = 32)"

definition budget_inv :: "('h, 't) session \<Rightarrow> bool" where
  "budget_inv s \<longleftrightarrow>
     s_sent_messages s \<le> MAX_MESSAGES \<and> s_sent_bytes s \<le> MAX_BYTES
     \<and> s_received_messages s \<le> MAX_MESSAGES \<and> s_received_bytes s \<le> MAX_BYTES
     \<and> s_outgoing_record s \<le> s_sent_messages s"

definition session_inv :: "('h, 't) session \<Rightarrow> bool" where
  "session_inv s \<longleftrightarrow> phase_inv (s_phase s) s
     \<and> (s_phase s \<notin> {Handshake, Closed} \<longrightarrow> established s)
     \<and> (s_phone s \<longrightarrow> s_expected_peer s \<noteq> None)
     \<and> (s_peer s \<noteq> None \<longrightarrow> s_expected_peer s \<noteq> None \<longrightarrow> s_peer s = s_expected_peer s)
     \<and> asm_inv (s_incoming s) \<and> budget_inv s"

text \<open>
  What the code relies on of the library: an accepted transport frame is 16 bytes longer
  than its plaintext (the authentication tag).
\<close>

definition snow_bounded :: "('h, 't) snow \<Rightarrow> bool" where
  "snow_bounded sn \<longleftrightarrow>
     (\<forall>t f p t'. sn_decrypt sn t f = Some (p, t') \<longrightarrow> length p + 16 = length f)"

subsection \<open>Closing\<close>

lemma session_close_sel [simp]:
  "s_phase (session_close s) = Closed" "s_handshake (session_close s) = None"
  "s_transport (session_close s) = None" "s_peer (session_close s) = None"
  "s_binding (session_close s) = None" "s_incoming (session_close s) = assembler_default"
  "s_expected_peer (session_close s) = s_expected_peer s" "s_phone (session_close s) = s_phone s"
  "s_created (session_close s) = s_created s"
  "s_sent_messages (session_close s) = s_sent_messages s"
  "s_sent_bytes (session_close s) = s_sent_bytes s"
  "s_received_messages (session_close s) = s_received_messages s"
  "s_received_bytes (session_close s) = s_received_bytes s"
  "s_outgoing_record (session_close s) = s_outgoing_record s"
  by (simp_all add: session_close_def)

lemma session_close_inv:
  assumes "budget_inv s" and "s_phone s \<longrightarrow> s_expected_peer s \<noteq> None"
  shows "session_inv (session_close s)"
  using assms by (simp add: session_inv_def budget_inv_def asm_inv_default)

lemma session_close_closed: "is_closed (session_close s)"
  by (simp add: is_closed_def)

lemma session_new_inv:
  assumes "session_new sn now ident psk pair phone pin = Inr s" and "phone \<longrightarrow> pin \<noteq> None"
  shows "session_inv s"
  using assms
  by (auto simp: session_new_def session_inv_def budget_inv_def asm_inv_default
      split: if_splits option.splits)

section \<open>The contract of an operation\<close>

text \<open>
  Every operation is a body run by \<open>checked_at\<close>. The contract: a body that succeeds keeps
  the invariant, a body that fails at least keeps the budgets and the pin, and none changes
  the role or the creation time. What \<open>checked_at\<close> makes of such a body is proved once.
\<close>

definition error_inv :: "('h, 't) session \<Rightarrow> bool" where
  "error_inv s \<longleftrightarrow> budget_inv s \<and> (s_phone s \<longrightarrow> s_expected_peer s \<noteq> None)"

definition same_owner :: "('h, 't) session \<Rightarrow> ('h, 't) session \<Rightarrow> bool" where
  "same_owner s s' \<longleftrightarrow> s_phone s' = s_phone s \<and> s_created s' = s_created s
     \<and> (s_expected_peer s \<noteq> None \<longrightarrow> s_expected_peer s' = s_expected_peer s)"

lemma session_inv_error_inv: "session_inv s \<Longrightarrow> error_inv s"
  by (simp add: session_inv_def error_inv_def)

lemma error_inv_close: "error_inv s \<Longrightarrow> session_inv (session_close s)"
  by (simp add: error_inv_def session_close_inv)

lemma same_owner_refl [simp]: "same_owner s s"
  by (simp add: same_owner_def)

lemma same_owner_trans: "same_owner s s' \<Longrightarrow> same_owner s' s'' \<Longrightarrow> same_owner s s''"
  by (auto simp: same_owner_def)

lemma same_owner_close [simp]: "same_owner s (session_close s') = same_owner s s'"
  by (simp add: same_owner_def)

definition body_step :: "('h, 't) session \<Rightarrow> (error + 'a) \<times> ('h, 't) session \<Rightarrow> bool" where
  "body_step s r \<longleftrightarrow> same_owner s (snd r)
     \<and> (case fst r of Inl e \<Rightarrow> error_inv (snd r) | Inr x \<Rightarrow> session_inv (snd r))"

lemma body_step_simps [simp]:
  "body_step s (Inl e, s') \<longleftrightarrow> same_owner s s' \<and> error_inv s'"
  "body_step s (Inr x, s') \<longleftrightarrow> same_owner s s' \<and> session_inv s'"
  by (simp_all add: body_step_def)

lemma checked_at_closed: "is_closed s \<Longrightarrow> checked_at now op s = (Inl InvalidState, session_close s)"
  by (simp add: checked_at_def)

lemma checked_at_error:
  assumes "checked_at now op s = (Inl e, s')"
  shows "is_closed s'"
  using assms by (auto simp: checked_at_def session_close_closed split: prod.splits sum.splits)

lemma checked_at_ok:
  assumes "checked_at now op s = (Inr x, s')"
  shows "\<not> is_closed s" "\<not> expired now (s_incoming s)"
    "now - s_created s < (if is_ready s then MAX_AGE else HANDSHAKE_AGE)" "op s = (Inr x, s')"
  using assms by (auto simp: checked_at_def split: prod.splits sum.splits if_splits)

lemma checked_at_run:
  assumes "\<not> is_closed s" and "\<not> expired now (s_incoming s)"
    and "now - s_created s < (if is_ready s then MAX_AGE else HANDSHAKE_AGE)"
    and "op s = (Inr x, s')"
  shows "checked_at now op s = (Inr x, s')"
  using assms by (simp add: checked_at_def)

locale session_operation =
  fixes body :: "('h, 't) snow \<Rightarrow> ('h, 't, 'a) op"
  assumes body_law: "snow_bounded sn \<Longrightarrow> session_inv s \<Longrightarrow> s_phase s \<noteq> Closed
    \<Longrightarrow> body_step s (body sn s)"
begin

lemma checked_step:
  assumes "snow_bounded sn" and "session_inv s"
  shows "session_inv (snd (checked_at now (body sn) s))
    \<and> same_owner s (snd (checked_at now (body sn) s))"
proof -
  have close: "session_inv (session_close s)"
    by (rule error_inv_close [OF session_inv_error_inv [OF assms(2)]])
  show ?thesis
  proof (cases "is_closed s")
    case True
    with close show ?thesis by (simp add: checked_at_closed)
  next
    case False
    then have "body_step s (body sn s)"
      using body_law [OF assms] by (simp add: is_closed_def)
    with close show ?thesis
      by (cases "body sn s"; cases "fst (body sn s)")
        (auto simp: checked_at_def error_inv_close)
  qed
qed

lemma checked_inv:
  "snow_bounded sn \<Longrightarrow> session_inv s \<Longrightarrow> session_inv (snd (checked_at now (body sn) s))"
  using checked_step by blast

lemma checked_owner:
  "snow_bounded sn \<Longrightarrow> session_inv s \<Longrightarrow> same_owner s (snd (checked_at now (body sn) s))"
  using checked_step by blast

end

subsection \<open>The handshake bodies\<close>

lemma finish_handshake_step:
  assumes "session_inv s" and "s_phase s = Handshake"
  shows "body_step s (finish_handshake sn s)"
  using assms
  by (auto simp: finish_handshake_def session_inv_def error_inv_def same_owner_def established_def
      budget_inv_def Let_def split: option.splits)

lemma handshake_update_inv:
  assumes "session_inv s" and "s_phase s = Handshake"
  shows "session_inv (s\<lparr>s_handshake := Some hs\<rparr>)" "error_inv (s\<lparr>s_handshake := Some hs\<rparr>)"
    "same_owner s (s\<lparr>s_handshake := Some hs\<rparr>)"
  using assms by (auto simp: session_inv_def error_inv_def same_owner_def budget_inv_def)

lemma finish_after_update:
  assumes "session_inv s" and "s_phase s = Handshake"
  shows "body_step s (finish_handshake sn (s\<lparr>s_handshake := Some hs\<rparr>))"
proof -
  have "body_step (s\<lparr>s_handshake := Some hs\<rparr>) (finish_handshake sn (s\<lparr>s_handshake := Some hs\<rparr>))"
    using assms by (intro finish_handshake_step) (simp_all add: handshake_update_inv)
  with handshake_update_inv(3) [OF assms, of hs] show ?thesis
    by (auto simp: body_step_def intro: same_owner_trans)
qed

lemma write_handshake_step:
  assumes "session_inv s"
  shows "body_step s (write_handshake_body sn s)"
proof (cases "s_phase s = Handshake")
  case True
  note fin = finish_after_update [OF assms True, of sn]
  have step: "body_step s
      (case finish_handshake sn (s\<lparr>s_handshake := Some hs\<rparr>) of
         (Inl e, s') \<Rightarrow> (Inl e, s') | (Inr _, s') \<Rightarrow> (Inr f, s'))" for f :: bytes and hs
    using fin [of hs] by (auto split: prod.splits sum.splits)
  with True assms show ?thesis
    by (simp add: write_handshake_body_def session_inv_error_inv split: option.splits)
next
  case False
  with assms show ?thesis by (simp add: write_handshake_body_def session_inv_error_inv)
qed

lemma read_handshake_step:
  assumes "session_inv s"
  shows "body_step s (read_handshake_body sn frame s)"
proof (cases "s_phase s = Handshake")
  case True
  have peer: "body_step s (finish_handshake sn (s\<lparr>s_handshake := Some hs, s_peer := Some p\<rparr>))"
    if "s_expected_peer s \<noteq> None \<longrightarrow> s_expected_peer s = Some p" for hs p
  proof -
    have p: "session_inv (s\<lparr>s_peer := Some p\<rparr>)" "same_owner s (s\<lparr>s_peer := Some p\<rparr>)"
      using assms True that by (auto simp: session_inv_def budget_inv_def same_owner_def)
    then have "body_step (s\<lparr>s_peer := Some p\<rparr>)
        (finish_handshake sn (s\<lparr>s_peer := Some p, s_handshake := Some hs\<rparr>))"
      using True by (intro finish_after_update) simp_all
    moreover have "s\<lparr>s_peer := Some p, s_handshake := Some hs\<rparr> =
        s\<lparr>s_handshake := Some hs, s_peer := Some p\<rparr>" by simp
    ultimately show ?thesis
      using p same_owner_trans [OF p(2)] by (simp add: body_step_def)
  qed
  have pinned: "\<not> (s_expected_peer s \<noteq> None \<and> s_expected_peer s \<noteq> Some p) \<Longrightarrow>
      body_step s (finish_handshake sn (s\<lparr>s_handshake := Some hs, s_peer := Some p\<rparr>))" for hs p
    by (rule peer) auto
  show ?thesis
    using True assms peer pinned finish_after_update [OF assms True]
      handshake_update_inv [OF assms True]
    by (simp add: read_handshake_body_def session_inv_error_inv Let_def split: option.splits)
next
  case False
  with assms show ?thesis by (simp add: read_handshake_body_def session_inv_error_inv)
qed

lemma approve_enrollment_step:
  assumes "session_inv s"
  shows "body_step s (approve_enrollment_body peer binding s)"
  using assms
  by (auto simp: approve_enrollment_body_def session_inv_error_inv)
    (auto simp: session_inv_def same_owner_def budget_inv_def established_def)

subsection \<open>The transport bodies\<close>

lemma encrypt_step:
  assumes "session_inv s" and "s_phase s \<noteq> Closed"
  shows "body_step s (encrypt sn p s)"
  using assms
  by (auto simp: encrypt_def session_inv_error_inv split: option.splits)
    (cases "s_phase s"; auto simp: session_inv_def same_owner_def budget_inv_def established_def)+

lemma encrypt_phase:
  assumes "encrypt sn p s = (r, s')"
  shows "s_phase s' = s_phase s" "s_binding s' = s_binding s" "s_incoming s' = s_incoming s"
    "s_outgoing_record s' = s_outgoing_record s" "s_peer s' = s_peer s"
    "s_expected_peer s' = s_expected_peer s" "s_phone s' = s_phone s"
    "s_handshake s' = s_handshake s" "s_received_messages s' = s_received_messages s"
    "s_received_bytes s' = s_received_bytes s" "s_created s' = s_created s"
  using assms by (auto simp: encrypt_def split: if_splits option.splits)

lemma encrypt_counts:
  assumes "encrypt sn p s = (Inr f, s')"
  shows "s_sent_messages s' = Suc (s_sent_messages s)"
    "s_sent_bytes s' = s_sent_bytes s + length p"
  using assms by (auto simp: encrypt_def split: if_splits option.splits)

lemma decrypt_step:
  assumes "snow_bounded sn" and "session_inv s" and "s_phase s \<noteq> Closed"
  shows "body_step s (decrypt sn f s)"
proof -
  have len: "sn_decrypt sn t f = Some (p, t') \<Longrightarrow> length p = length f - 16" for t p t'
    using assms(1) unfolding snow_bounded_def by (metis add_diff_cancel_right')
  show ?thesis
    using assms(2,3) len
    by (auto simp: decrypt_def session_inv_error_inv split: option.splits)
      (cases "s_phase s"; auto simp: session_inv_def same_owner_def budget_inv_def established_def)+
qed

lemma decrypt_phase:
  assumes "decrypt sn f s = (r, s')"
  shows "s_phase s' = s_phase s" "s_binding s' = s_binding s" "s_incoming s' = s_incoming s"
    "s_outgoing_record s' = s_outgoing_record s" "s_peer s' = s_peer s"
    "s_expected_peer s' = s_expected_peer s" "s_phone s' = s_phone s"
    "s_handshake s' = s_handshake s" "s_sent_messages s' = s_sent_messages s"
    "s_sent_bytes s' = s_sent_bytes s" "s_created s' = s_created s"
  using assms by (auto simp: decrypt_def split: if_splits option.splits)

lemma phase_update_inv:
  assumes "session_inv s" and "established s" and "phase_inv ph s" and "ph \<noteq> Closed"
  shows "session_inv (s\<lparr>s_phase := ph\<rparr>)"
proof -
  have "phase_inv ph (s\<lparr>s_phase := ph\<rparr>)" using assms(3) by (cases ph) simp_all
  with assms show ?thesis by (simp add: session_inv_def established_def budget_inv_def)
qed

lemma same_owner_phase [simp]: "same_owner s (s'\<lparr>s_phase := ph\<rparr>) = same_owner s s'"
  by (simp add: same_owner_def)

lemma write_confirmation_step:
  assumes "session_inv s" and "s_phase s \<noteq> Closed"
  shows "body_step s (write_confirmation_body sn s)"
proof -
  note enc = encrypt_step [OF assms, of sn]
  have send: "body_step s (case encrypt sn p s of (Inl e, s') \<Rightarrow> (Inl e, s')
      | (Inr frame, s') \<Rightarrow> (Inr frame, s'\<lparr>s_phase := ph\<rparr>))"
    if "(s_phase s, ph) \<in> {(SendDesktopConfirmation, AwaitingPhoneConfirmation),
          (SendPhoneConfirmation, Ready)}" for p ph
  proof (cases "encrypt sn p s")
    case (Pair r s')
    note same = encrypt_phase [OF Pair]
    show ?thesis
    proof (cases r)
      case (Inl e)
      with enc [of p] Pair show ?thesis by simp
    next
      case (Inr frame)
      then have s': "session_inv s'" "same_owner s s'" using enc [of p] Pair by simp_all
      moreover have "established s'" "phase_inv ph s'"
        using s'(1) that same by (auto simp: session_inv_def)
      ultimately show ?thesis
        using Pair Inr that by (auto intro!: phase_update_inv)
    qed
  qed
  show ?thesis
    using send assms
    by (cases "s_phase s")
      (simp_all add: write_confirmation_body_def session_inv_error_inv split: option.split)
qed

lemma read_confirmation_step:
  assumes "snow_bounded sn" and "session_inv s" and "s_phase s \<noteq> Closed"
  shows "body_step s (read_confirmation_body sn frame s)"
proof -
  note dec = decrypt_step [OF assms, of frame]
  have receive: "body_step s (case decrypt sn frame s of (Inl e, s') \<Rightarrow> (Inl e, s')
      | (Inr plaintext, s') \<Rightarrow> if plaintext \<noteq> p then (Inl AuthenticationFailed, s')
          else (Inr (), s'\<lparr>s_phase := ph\<rparr>))"
    if "(s_phase s, ph) \<in> {(AwaitingDesktopConfirmation, SendPhoneConfirmation),
          (AwaitingPhoneConfirmation, Ready)}" for p ph
  proof (cases "decrypt sn frame s")
    case (Pair r s')
    note same = decrypt_phase [OF Pair]
    show ?thesis
    proof (cases r)
      case (Inl e)
      with dec Pair show ?thesis by simp
    next
      case (Inr plain)
      then have s': "session_inv s'" "same_owner s s'" using dec Pair by simp_all
      moreover have "established s'" "phase_inv ph s'"
        using s'(1) that same by (auto simp: session_inv_def)
      ultimately show ?thesis
        using Pair Inr that by (auto intro!: phase_update_inv session_inv_error_inv)
    qed
  qed
  show ?thesis
    using receive assms
    by (cases "s_phase s")
      (simp_all add: read_confirmation_body_def session_inv_error_inv split: option.split)
qed

subsection \<open>The record bodies\<close>

lemma body_step_trans:
  "same_owner s s1 \<Longrightarrow> body_step s1 r \<Longrightarrow> body_step s r"
  by (auto simp: body_step_def intro: same_owner_trans)

lemma encrypt_all_step:
  assumes "session_inv s" and "s_phase s = Ready"
  shows "body_step s (encrypt_all sn ps s)"
  using assms
proof (induction ps arbitrary: s)
  case Nil
  then show ?case by simp
next
  case (Cons p ps)
  then have enc: "body_step s (encrypt sn p s)" by (intro encrypt_step) simp_all
  obtain r s1 where e: "encrypt sn p s = (r, s1)" by (cases "encrypt sn p s")
  show ?case
  proof (cases r)
    case (Inl x)
    with enc e show ?thesis by simp
  next
    case (Inr f)
    with enc e have s1: "session_inv s1" "same_owner s s1" by simp_all
    have "s_phase s1 = Ready" using encrypt_phase [OF e] Cons.prems by simp
    from body_step_trans [OF s1(2) Cons.IH [OF s1(1) this]]
    show ?thesis using e Inr
      by (cases "encrypt_all sn ps s1"; cases "fst (encrypt_all sn ps s1)") auto
  qed
qed

lemma encrypt_all_phase:
  assumes "encrypt_all sn ps s = (r, s')"
  shows "s_phase s' = s_phase s \<and> s_binding s' = s_binding s \<and> s_incoming s' = s_incoming s
    \<and> s_outgoing_record s' = s_outgoing_record s \<and> s_created s' = s_created s"
  using assms
proof (induction ps arbitrary: s r)
  case Nil
  then show ?case by simp
next
  case (Cons p ps)
  obtain q s1 where e: "encrypt sn p s = (q, s1)" by (cases "encrypt sn p s")
  show ?case
    using Cons.prems Cons.IH [of s1] e encrypt_phase [OF e]
    by (auto split: prod.splits sum.splits)
qed

lemma encrypt_all_counts:
  assumes "encrypt_all sn ps s = (Inr fs, s')"
  shows "s_sent_messages s' = s_sent_messages s + length ps
    \<and> s_sent_bytes s' = s_sent_bytes s + length (concat ps) \<and> length fs = length ps"
  using assms
proof (induction ps arbitrary: s fs)
  case Nil
  then show ?case by simp
next
  case (Cons p ps)
  from Cons.prems obtain f s1 gs where e: "encrypt sn p s = (Inr f, s1)"
      and a: "encrypt_all sn ps s1 = (Inr gs, s')" "fs = f # gs"
    by (auto split: prod.splits sum.splits)
  from Cons.IH [OF a(1)] encrypt_counts [OF e] a(2) show ?case by simp
qed

lemma record_contents_nonempty: "p \<noteq> [] \<Longrightarrow> record_contents r p \<noteq> []"
  by (simp add: record_contents_frames frames_from_nonempty)

lemma seal_record_step:
  assumes "session_inv s"
  shows "body_step s (seal_record_body sn p s)"
proof (cases "is_ready s \<and> p \<noteq> [] \<and> length p \<le> MAX_RECORD")
  case True
  then have ready: "s_phase s = Ready" by (simp add: is_ready_def)
  define cs where "cs = record_contents (s_outgoing_record s) p"
  have cs: "cs \<noteq> []" using True by (simp add: cs_def record_contents_nonempty)
  obtain r s' where e: "encrypt_all sn cs s = (r, s')" by (cases "encrypt_all sn cs s")
  have step: "body_step s (r, s')"
    using encrypt_all_step [OF assms ready, of sn cs] e by simp
  show ?thesis
  proof (cases r)
    case (Inl x)
    with step e True show ?thesis by (simp add: seal_record_body_def cs_def)
  next
    case (Inr fs)
    have "s_outgoing_record s' + 1 \<le> s_sent_messages s'"
    proof -
      have "s_sent_messages s' = s_sent_messages s + length cs"
        using encrypt_all_counts [of sn cs s fs s'] e Inr by simp
      moreover have "0 < length cs" using cs by simp
      moreover have "s_outgoing_record s' = s_outgoing_record s"
        using encrypt_all_phase [OF e] by simp
      moreover have "s_outgoing_record s \<le> s_sent_messages s"
        using assms by (simp add: session_inv_def budget_inv_def)
      ultimately show ?thesis by linarith
    qed
    with step Inr have "session_inv (s'\<lparr>s_outgoing_record := Suc (s_outgoing_record s')\<rparr>)"
        "same_owner s (s'\<lparr>s_outgoing_record := Suc (s_outgoing_record s')\<rparr>)"
      using ready encrypt_all_phase [OF e]
      by (auto simp: session_inv_def budget_inv_def established_def same_owner_def)
    with step Inr e True show ?thesis
      by (simp add: seal_record_body_def cs_def session_inv_error_inv split: option.split)
  qed
next
  case False
  with assms show ?thesis by (auto simp: seal_record_body_def session_inv_error_inv)
qed

lemma open_frame_step:
  assumes "snow_bounded sn" and "session_inv s"
  shows "body_step s (open_frame_body sn now frame s)"
proof (cases "is_ready s")
  case True
  then have ready: "s_phase s = Ready" by (simp add: is_ready_def)
  obtain r s' where d: "decrypt sn frame s = (r, s')" by (cases "decrypt sn frame s")
  have step: "body_step s (r, s')"
    using decrypt_step [OF assms, of frame] d ready by simp
  show ?thesis
  proof (cases r)
    case (Inl x)
    with step d True show ?thesis by (simp add: open_frame_body_def)
  next
    case (Inr plain)
    with step have s': "session_inv s'" "same_owner s s'" by simp_all
    obtain q a where p: "push now plain (s_incoming s') = (q, a)"
      by (cases "push now plain (s_incoming s')")
    have err: "error_inv (s'\<lparr>s_incoming := a\<rparr>)" "same_owner s (s'\<lparr>s_incoming := a\<rparr>)"
      using s' by (auto simp: error_inv_def session_inv_def budget_inv_def same_owner_def)
    have ok: "session_inv (s'\<lparr>s_incoming := a\<rparr>)" if "q = Inr x" for x
    proof -
      have "asm_inv a" using p that s'(1) push_ok_inv by (auto simp: session_inv_def)
      then show ?thesis
        using s'(1) decrypt_phase [OF d] ready
        by (simp add: session_inv_def budget_inv_def established_def)
    qed
    show ?thesis
      using True d Inr p err ok by (cases q) (simp_all add: open_frame_body_def)
  qed
next
  case False
  with assms show ?thesis by (simp add: open_frame_body_def session_inv_error_inv)
qed

subsection \<open>Every operation meets the contract\<close>

interpretation alive_op: session_operation "\<lambda>sn s. (Inr (), s)"
  by unfold_locales simp

interpretation write_handshake_op: session_operation write_handshake_body
  by unfold_locales (rule write_handshake_step)

interpretation read_handshake_op: session_operation "\<lambda>sn. read_handshake_body sn frame"
  for frame
  by unfold_locales (rule read_handshake_step)

interpretation approve_op: session_operation "\<lambda>sn. approve_enrollment_body peer binding"
  for peer binding
  by unfold_locales (rule approve_enrollment_step)

interpretation write_confirmation_op: session_operation write_confirmation_body
  by unfold_locales (rule write_confirmation_step)

interpretation read_confirmation_op: session_operation "\<lambda>sn. read_confirmation_body sn frame"
  for frame
  by unfold_locales (rule read_confirmation_step)

interpretation seal_op: session_operation "\<lambda>sn. seal_record_body sn p" for p
  by unfold_locales (rule seal_record_step)

interpretation open_op: session_operation "\<lambda>sn. open_frame_body sn now frame" for now frame
  by unfold_locales (rule open_frame_step)

lemmas operation_defs = check_alive_def write_handshake_def read_handshake_def
  approve_enrollment_def write_confirmation_def read_confirmation_def seal_record_def
  open_frame_def

lemma snd_out_map [simp]: "snd (out_map f r) = snd r"
  by (simp add: out_map_def)

lemma session_call_inv:
  assumes "snow_bounded sn" and "session_inv s"
  shows "session_inv (snd (session_call sn now c s))"
  using assms
  by (cases c)
    (simp_all add: operation_defs alive_op.checked_inv write_handshake_op.checked_inv
      read_handshake_op.checked_inv approve_op.checked_inv write_confirmation_op.checked_inv
      read_confirmation_op.checked_inv seal_op.checked_inv open_op.checked_inv
      error_inv_close session_inv_error_inv)

lemma session_call_owner:
  assumes "snow_bounded sn" and "session_inv s"
  shows "same_owner s (snd (session_call sn now c s))"
  using assms
  by (cases c)
    (simp_all add: operation_defs alive_op.checked_owner write_handshake_op.checked_owner
      read_handshake_op.checked_owner approve_op.checked_owner
      write_confirmation_op.checked_owner read_confirmation_op.checked_owner
      seal_op.checked_owner open_op.checked_owner)

end
