(* ===== verification/Session_Safety.thy ===== *)
theory Session_Safety
  imports Secure_Session
begin

text \<open>
  What any sequence of calls does to a session of shared/secure-channel/src/lib.rs: the
  budgets hold, an error is final, a ready session talks to the pinned or approved peer,
  the phases advance only as an abstract state machine allows, and old sessions close.
\<close>

lemma session_run_inv:
  "snow_bounded sn \<Longrightarrow> session_inv s \<Longrightarrow> session_inv (session_run sn cs s)"
proof (induction cs arbitrary: s)
  case Nil
  then show ?case by simp
next
  case (Cons c cs)
  then show ?case by (cases c) (simp add: session_call_inv)
qed

lemma session_run_owner:
  "snow_bounded sn \<Longrightarrow> session_inv s \<Longrightarrow> same_owner s (session_run sn cs s)"
proof (induction cs arbitrary: s)
  case Nil
  then show ?case by simp
next
  case (Cons c cs)
  obtain now x where c: "c = (now, x)" by (cases c)
  show ?case
    using same_owner_trans [OF session_call_owner [OF Cons.prems, of now x]
        Cons.IH [OF Cons.prems(1) session_call_inv [OF Cons.prems]]] c
    by simp
qed

section \<open>Errors are final\<close>

definition wiped :: "('h, 't) session \<Rightarrow> bool" where
  "wiped s \<longleftrightarrow> is_closed s \<and> s_handshake s = None \<and> s_transport s = None \<and> s_peer s = None
     \<and> s_binding s = None \<and> s_incoming s = assembler_default"

lemma wiped_close [simp]: "wiped (session_close s)"
  by (simp add: wiped_def is_closed_def)

lemma checked_at_wipes: "checked_at now op s = (Inl e, s') \<Longrightarrow> wiped s'"
  by (auto simp: checked_at_def split: prod.splits sum.splits)

lemma out_map_Inl [simp]: "out_map f r = (Inl e, s') \<longleftrightarrow> r = (Inl e, s')"
  by (cases r; cases "fst r") (auto simp: out_map_def)

lemma out_map_Inr: "out_map f r = (Inr y, s') \<longleftrightarrow> (\<exists>x. r = (Inr x, s') \<and> y = f x)"
  by (cases r; cases "fst r") (auto simp: out_map_def)

lemma session_call_wipes:
  assumes "session_call sn now c s = (Inl e, s')"
  shows "wiped s'"
  using assms by (cases c) (auto simp: operation_defs dest: checked_at_wipes)

lemma closed_call:
  assumes "wiped s"
  shows "wiped (snd (session_call sn now c s))"
    and "c \<noteq> CloseSession \<Longrightarrow> fst (session_call sn now c s) = Inl InvalidState"
proof -
  have closed: "is_closed s" using assms by (simp add: wiped_def)
  note run = checked_at_closed [OF closed]
  show "wiped (snd (session_call sn now c s))"
    by (cases c) (simp_all add: operation_defs run)
  show "c \<noteq> CloseSession \<Longrightarrow> fst (session_call sn now c s) = Inl InvalidState"
    by (cases c) (simp_all add: operation_defs run out_map_def)
qed

lemma closed_run: "wiped s \<Longrightarrow> wiped (session_run sn cs s)"
proof (induction cs arbitrary: s)
  case Nil
  then show ?case by simp
next
  case (Cons c cs)
  then show ?case by (cases c) (simp add: closed_call)
qed

section \<open>The phase machine\<close>

text \<open>
  The abstract state machine of the protocol, for a role (\<open>True\<close> for the phone) and
  whether the session has a pinned peer: what the documentation of the phases promises.
\<close>

inductive phase_step :: "bool \<Rightarrow> bool \<Rightarrow> phase \<Rightarrow> phase \<Rightarrow> bool" for phone pinned where
  phone_finishes: "phone \<Longrightarrow> phase_step phone pinned Handshake AwaitingDesktopConfirmation"
| desktop_finishes: "\<not> phone \<Longrightarrow> pinned \<Longrightarrow>
    phase_step phone pinned Handshake SendDesktopConfirmation"
| enrollment_finishes: "\<not> phone \<Longrightarrow> \<not> pinned \<Longrightarrow>
    phase_step phone pinned Handshake AwaitingApproval"
| approved: "\<not> phone \<Longrightarrow> \<not> pinned \<Longrightarrow>
    phase_step phone pinned AwaitingApproval SendDesktopConfirmation"
| desktop_confirms: "\<not> phone \<Longrightarrow>
    phase_step phone pinned SendDesktopConfirmation AwaitingPhoneConfirmation"
| phone_confirmed: "\<not> phone \<Longrightarrow> phase_step phone pinned AwaitingPhoneConfirmation Ready"
| desktop_confirmed: "phone \<Longrightarrow>
    phase_step phone pinned AwaitingDesktopConfirmation SendPhoneConfirmation"
| phone_confirms: "phone \<Longrightarrow> phase_step phone pinned SendPhoneConfirmation Ready"
| closes: "phase_step phone pinned ph Closed"

inductive_simps phase_step_from: "phase_step phone pinned ph ph'"

lemma finish_handshake_phase:
  assumes "finish_handshake sn s = (Inr u, s')"
  shows "s_phase s' = s_phase s \<and> s_peer s' = s_peer s \<or>
    s_phase s' = (if s_phone s then AwaitingDesktopConfirmation
      else if s_expected_peer s = None then AwaitingApproval else SendDesktopConfirmation)"
    and "s_expected_peer s' = s_expected_peer s" and "s_phone s' = s_phone s"
  using assms by (auto simp: finish_handshake_def Let_def split: option.splits if_splits)

lemma write_handshake_body_ok:
  assumes "write_handshake_body sn s = (Inr f, s')"
  obtains hs where "s_phase s = Handshake"
    "finish_handshake sn (s\<lparr>s_handshake := Some hs\<rparr>) = (Inr (), s')"
  using assms
  by (auto simp: write_handshake_body_def split: option.splits if_splits prod.splits sum.splits)

lemma read_handshake_body_ok:
  assumes "read_handshake_body sn g s = (Inr u, s')"
  obtains hs p where "s_phase s = Handshake"
    "finish_handshake sn (s\<lparr>s_handshake := Some hs, s_peer := p\<rparr>) = (Inr (), s')"
proof -
  have id: "s\<lparr>s_handshake := Some hs\<rparr> = s\<lparr>s_handshake := Some hs, s_peer := s_peer s\<rparr>" for hs
    by simp
  show ?thesis
    using assms that
    by (auto simp: read_handshake_body_def Let_def split: option.splits if_splits) (metis id)
qed

lemma handshake_body_phase:
  assumes "finish_handshake sn (s\<lparr>s_handshake := Some hs, s_peer := p\<rparr>) = (Inr (), s')"
    and "s_phase s = Handshake"
  shows "(phase_step (s_phone s) (s_expected_peer s \<noteq> None))\<^sup>=\<^sup>= (s_phase s) (s_phase s')"
  using finish_handshake_phase [OF assms(1)] assms(2)
  by (auto simp: phase_step_from split: if_splits)

lemma checked_at_cases:
  obtains (failed) e s' where "checked_at now op s = (Inl e, s')" "wiped s'"
  | (ok) x s' where "checked_at now op s = (Inr x, s')" "op s = (Inr x, s')"
proof (cases "checked_at now op s")
  case (Pair r s')
  then show ?thesis
    using failed ok checked_at_wipes [of now op s _ s'] checked_at_ok(4) [of now op s _ s']
    by (cases r) auto
qed

lemma write_confirmation_body_ok:
  assumes "write_confirmation_body sn s = (Inr f, s')"
  shows "s_phase s = SendDesktopConfirmation \<and> s_phase s' = AwaitingPhoneConfirmation
    \<or> s_phase s = SendPhoneConfirmation \<and> s_phase s' = Ready"
    and "s_peer s' = s_peer s" "s_binding s' = s_binding s" "s_expected_peer s' = s_expected_peer s"
proof -
  have "encrypt sn p s = (Inr g, s1) \<Longrightarrow> s_peer s1 = s_peer s \<and> s_binding s1 = s_binding s
      \<and> s_expected_peer s1 = s_expected_peer s" for p g s1
    by (simp add: encrypt_phase)
  with assms show "s_phase s = SendDesktopConfirmation \<and> s_phase s' = AwaitingPhoneConfirmation
      \<or> s_phase s = SendPhoneConfirmation \<and> s_phase s' = Ready"
    "s_peer s' = s_peer s" "s_binding s' = s_binding s" "s_expected_peer s' = s_expected_peer s"
    by (auto simp: write_confirmation_body_def
        split: phase.splits option.splits prod.splits sum.splits)
qed

lemma read_confirmation_body_ok:
  assumes "read_confirmation_body sn f s = (Inr u, s')"
  shows "s_phase s = AwaitingDesktopConfirmation \<and> s_phase s' = SendPhoneConfirmation
      \<and> (\<exists>b s1. s_binding s = Some b \<and> decrypt sn f s = (Inr (DESKTOP_CONFIRM @ b), s1))
    \<or> s_phase s = AwaitingPhoneConfirmation \<and> s_phase s' = Ready
      \<and> (\<exists>b s1. s_binding s = Some b \<and> decrypt sn f s = (Inr (PHONE_CONFIRM @ b), s1))"
    and "s_peer s' = s_peer s" "s_binding s' = s_binding s" "s_expected_peer s' = s_expected_peer s"
proof -
  have "decrypt sn f s = (Inr g, s1) \<Longrightarrow> s_peer s1 = s_peer s \<and> s_binding s1 = s_binding s
      \<and> s_expected_peer s1 = s_expected_peer s" for g s1
    by (simp add: decrypt_phase)
  with assms show "s_phase s = AwaitingDesktopConfirmation \<and> s_phase s' = SendPhoneConfirmation
      \<and> (\<exists>b s1. s_binding s = Some b \<and> decrypt sn f s = (Inr (DESKTOP_CONFIRM @ b), s1))
    \<or> s_phase s = AwaitingPhoneConfirmation \<and> s_phase s' = Ready
      \<and> (\<exists>b s1. s_binding s = Some b \<and> decrypt sn f s = (Inr (PHONE_CONFIRM @ b), s1))"
    "s_peer s' = s_peer s" "s_binding s' = s_binding s" "s_expected_peer s' = s_expected_peer s"
    by (auto simp: read_confirmation_body_def
        split: phase.splits option.splits prod.splits sum.splits if_splits)
qed

lemma encrypt_all_same:
  "encrypt_all sn ps s = (r, s') \<Longrightarrow>
    s_peer s' = s_peer s \<and> s_expected_peer s' = s_expected_peer s"
proof (induction ps arbitrary: s r)
  case Nil
  then show ?case by simp
next
  case (Cons p ps)
  obtain q s1 where e: "encrypt sn p s = (q, s1)" by (cases "encrypt sn p s")
  show ?case
    using Cons.prems Cons.IH [of s1] e encrypt_phase [OF e]
    by (auto split: prod.splits sum.splits)
qed

lemma seal_record_body_ok:
  assumes "seal_record_body sn p s = (Inr fs, s')"
  shows "s_phase s = Ready" "s_phase s' = Ready" "s_peer s' = s_peer s"
    "s_binding s' = s_binding s" "s_expected_peer s' = s_expected_peer s"
proof -
  have "encrypt_all sn cs s = (Inr gs, s1) \<Longrightarrow> s_peer s1 = s_peer s \<and> s_binding s1 = s_binding s
      \<and> s_expected_peer s1 = s_expected_peer s \<and> s_phase s1 = s_phase s" for cs gs s1
    using encrypt_all_same encrypt_all_phase by blast
  with assms show "s_phase s = Ready" "s_phase s' = Ready" "s_peer s' = s_peer s"
    "s_binding s' = s_binding s" "s_expected_peer s' = s_expected_peer s"
    by (auto simp: seal_record_body_def is_ready_def
        split: option.splits prod.splits sum.splits if_splits)
qed

lemma open_frame_body_ok:
  assumes "open_frame_body sn now f s = (Inr r, s')"
  shows "s_phase s = Ready" "s_phase s' = Ready" "s_peer s' = s_peer s"
    "s_binding s' = s_binding s" "s_expected_peer s' = s_expected_peer s"
proof -
  have "decrypt sn f s = (Inr g, s1) \<Longrightarrow> s_peer s1 = s_peer s \<and> s_binding s1 = s_binding s
      \<and> s_expected_peer s1 = s_expected_peer s \<and> s_phase s1 = s_phase s" for g s1
    by (simp add: decrypt_phase)
  with assms show "s_phase s = Ready" "s_phase s' = Ready" "s_peer s' = s_peer s"
    "s_binding s' = s_binding s" "s_expected_peer s' = s_expected_peer s"
    by (auto simp: open_frame_body_def is_ready_def
        split: prod.splits sum.splits if_splits)
qed

lemma check_alive_snd: "wiped (snd (check_alive now s)) \<or> snd (check_alive now s) = s"
  by (simp add: check_alive_def checked_at_def)

text \<open>
  A call either wipes the session, or is a step of the handshake, or keeps the peer and the
  binding; the pin then changes only by an approval that names both.
\<close>

definition kept_by :: "api_call \<Rightarrow> ('h, 't) session \<Rightarrow> ('h, 't) session \<Rightarrow> bool" where
  "kept_by c s s' \<longleftrightarrow> s_peer s' = s_peer s \<and> s_binding s' = s_binding s
     \<and> (s_expected_peer s' = s_expected_peer s
        \<or> (\<exists>p b. c = ApproveEnrollment p b \<and> s_peer s = Some p \<and> s_binding s = Some b))"

lemma session_call_kept:
  "wiped (snd (session_call sn now c s)) \<or> s_phase s = Handshake
    \<or> kept_by c s (snd (session_call sn now c s))"
proof (cases c)
  case CheckAlive
  then show ?thesis
    using check_alive_snd [of now s] by (auto simp: kept_by_def)
next
  case WriteHandshake
  then show ?thesis
    by (cases rule: checked_at_cases [of now "write_handshake_body sn" s])
      (auto simp: operation_defs elim: write_handshake_body_ok)
next
  case (ReadHandshake f)
  then show ?thesis
    by (cases rule: checked_at_cases [of now "read_handshake_body sn f" s])
      (auto simp: operation_defs elim: read_handshake_body_ok)
next
  case (ApproveEnrollment p b)
  then show ?thesis
    by (cases rule: checked_at_cases [of now "approve_enrollment_body p b" s])
      (auto simp: operation_defs kept_by_def approve_enrollment_body_def split: if_splits)
next
  case WriteConfirmation
  then show ?thesis
    by (cases rule: checked_at_cases [of now "write_confirmation_body sn" s])
      (auto simp: operation_defs kept_by_def dest: write_confirmation_body_ok)
next
  case (ReadConfirmation f)
  then show ?thesis
    by (cases rule: checked_at_cases [of now "read_confirmation_body sn f" s])
      (auto simp: operation_defs kept_by_def dest: read_confirmation_body_ok)
next
  case (SealRecord p)
  then show ?thesis
    by (cases rule: checked_at_cases [of now "seal_record_body sn p" s])
      (auto simp: operation_defs kept_by_def dest: seal_record_body_ok)
next
  case (OpenFrame f)
  then show ?thesis
    by (cases rule: checked_at_cases [of now "open_frame_body sn now f" s])
      (auto simp: operation_defs kept_by_def dest: open_frame_body_ok)
next
  case CloseSession
  then show ?thesis by simp
qed

lemma session_call_phase:
  assumes "session_inv s"
  shows "(phase_step (s_phone s) (s_expected_peer s \<noteq> None))\<^sup>=\<^sup>= (s_phase s)
    (s_phase (snd (session_call sn now c s)))"
proof -
  let ?ok = "(phase_step (s_phone s) (s_expected_peer s \<noteq> None))\<^sup>=\<^sup>= (s_phase s)"
  have w: "wiped s' \<Longrightarrow> ?ok (s_phase s')" for s' :: "('a, 'b) session"
    by (simp add: wiped_def is_closed_def phase_step_from)
  have kept: "s_phase s' = s_phase s \<Longrightarrow> ?ok (s_phase s')" for s' :: "('a, 'b) session"
    by simp
  show ?thesis
  proof (cases c)
    case CheckAlive
    then show ?thesis
      using check_alive_snd [of now s] w kept by (auto simp only: session_call.simps snd_out_map)
  next
    case WriteHandshake
    have "?ok (s_phase s')" if "write_handshake_body sn s = (Inr f, s')" for f s'
      using that
    proof (rule write_handshake_body_ok)
      fix hs
      assume "s_phase s = Handshake" "finish_handshake sn (s\<lparr>s_handshake := Some hs\<rparr>) = (Inr (), s')"
      moreover have "s\<lparr>s_handshake := Some hs, s_peer := s_peer s\<rparr> = s\<lparr>s_handshake := Some hs\<rparr>"
        by simp
      ultimately show ?thesis by (metis handshake_body_phase)
    qed
    with WriteHandshake w show ?thesis
      by (cases rule: checked_at_cases [of now "write_handshake_body sn" s])
        (simp_all only: session_call.simps snd_out_map write_handshake_def snd_conv)
  next
    case (ReadHandshake g)
    have "?ok (s_phase s')" if "read_handshake_body sn g s = (Inr u, s')" for u s'
      using that by (rule read_handshake_body_ok) (rule handshake_body_phase)
    with ReadHandshake w show ?thesis
      by (cases rule: checked_at_cases [of now "read_handshake_body sn g" s])
        (simp_all only: session_call.simps snd_out_map snd_conv read_handshake_def)
  next
    case (ApproveEnrollment p b)
    have "?ok (s_phase s')" if "approve_enrollment_body p b s = (Inr u, s')" for u s'
      using that assms
      by (auto simp: approve_enrollment_body_def session_inv_def phase_step_from split: if_splits)
    with ApproveEnrollment w show ?thesis
      by (cases rule: checked_at_cases [of now "approve_enrollment_body p b" s])
        (simp_all only: session_call.simps snd_out_map snd_conv approve_enrollment_def)
  next
    case WriteConfirmation
    have "?ok (s_phase s')" if "write_confirmation_body sn s = (Inr f, s')" for f s'
      using write_confirmation_body_ok(1) [OF that]
    proof
      assume ph: "s_phase s = SendDesktopConfirmation \<and> s_phase s' = AwaitingPhoneConfirmation"
      then have "\<not> s_phone s" using assms by (simp add: session_inv_def)
      with ph show ?thesis by (simp add: desktop_confirms)
    next
      assume ph: "s_phase s = SendPhoneConfirmation \<and> s_phase s' = Ready"
      then have "s_phone s" using assms by (simp add: session_inv_def)
      with ph show ?thesis by (simp add: phone_confirms)
    qed
    with WriteConfirmation w show ?thesis
      by (cases rule: checked_at_cases [of now "write_confirmation_body sn" s])
        (simp_all only: session_call.simps snd_out_map snd_conv write_confirmation_def)
  next
    case (ReadConfirmation f)
    have "?ok (s_phase s')" if ok: "read_confirmation_body sn f s = (Inr u, s')" for u s'
    proof -
      consider "s_phase s = AwaitingDesktopConfirmation" "s_phase s' = SendPhoneConfirmation"
        | "s_phase s = AwaitingPhoneConfirmation" "s_phase s' = Ready"
        using read_confirmation_body_ok(1) [OF ok] by blast
      then show ?thesis
      proof cases
        case 1
        then have "s_phone s" using assms by (simp add: session_inv_def)
        with 1 show ?thesis by (simp add: desktop_confirmed)
      next
        case 2
        then have "\<not> s_phone s" using assms by (simp add: session_inv_def)
        with 2 show ?thesis by (simp add: phone_confirmed)
      qed
    qed
    with ReadConfirmation w show ?thesis
      by (cases rule: checked_at_cases [of now "read_confirmation_body sn f" s])
        (simp_all only: session_call.simps snd_out_map snd_conv read_confirmation_def)
  next
    case (SealRecord p)
    have "?ok (s_phase s')" if "seal_record_body sn p s = (Inr u, s')" for u s'
      using seal_record_body_ok(1,2) [OF that] by (intro kept) simp
    with SealRecord w show ?thesis
      by (cases rule: checked_at_cases [of now "seal_record_body sn p" s])
        (simp_all only: session_call.simps snd_out_map snd_conv seal_record_def)
  next
    case (OpenFrame f)
    have "?ok (s_phase s')" if "open_frame_body sn now f s = (Inr u, s')" for u s'
      using open_frame_body_ok(1,2) [OF that] by (intro kept) simp
    with OpenFrame w show ?thesis
      by (cases rule: checked_at_cases [of now "open_frame_body sn now f" s])
        (simp_all only: session_call.simps snd_out_map snd_conv open_frame_def)
  next
    case CloseSession
    then show ?thesis by (simp add: closes)
  qed
qed

section \<open>Sessions of the three constructors\<close>

inductive fresh_session :: "('h, 't) snow \<Rightarrow> ('h, 't) session \<Rightarrow> bool" for sn where
  fresh_phone: "session_phone sn now ident psk pair desktop = Inr s \<Longrightarrow> fresh_session sn s"
| fresh_desktop: "session_desktop sn now ident psk pair phone = Inr s \<Longrightarrow> fresh_session sn s"
| fresh_enrollment: "session_desktop_enrollment sn now ident psk pair = Inr s \<Longrightarrow> fresh_session sn s"

lemmas constructor_defs = session_phone_def session_desktop_def session_desktop_enrollment_def

lemma fresh_session_inv: "fresh_session sn s \<Longrightarrow> session_inv s"
  by (cases rule: fresh_session.cases) (auto simp: constructor_defs intro: session_new_inv)

lemma session_new_sel:
  assumes "session_new sn now ident psk pair phone pin = Inr s"
  shows "s_expected_peer s = pin" "s_phone s = phone" "s_created s = now" "s_phase s = Handshake"
  using assms by (auto simp: session_new_def split: if_splits option.splits)

text \<open>
  Enrollment: a pin of an enrolling session was put there by an approval that named the
  authenticated peer and the binding hash of this handshake.
\<close>

definition approved_in :: "(instant \<times> api_call) list \<Rightarrow> ('h, 't) session \<Rightarrow> bool" where
  "approved_in cs s \<longleftrightarrow> (\<exists>now p b. (now, ApproveEnrollment p b) \<in> set cs
     \<and> s_peer s = Some p \<and> s_binding s = Some b)"

lemma approved_in_mono: "approved_in cs s \<Longrightarrow> set cs \<subseteq> set ds \<Longrightarrow> approved_in ds s"
  by (auto simp: approved_in_def)

lemma handshake_call_pin:
  assumes "s_phase s = Handshake"
  shows "wiped (snd (session_call sn now c s))
    \<or> s_expected_peer (snd (session_call sn now c s)) = s_expected_peer s"
proof (cases c)
  case WriteHandshake
  have "s_expected_peer s' = s_expected_peer s"
    if "write_handshake_body sn s = (Inr f, s')" for f s'
    using that by (rule write_handshake_body_ok) (auto dest: finish_handshake_phase(2))
  with WriteHandshake show ?thesis
    by (cases rule: checked_at_cases [of now "write_handshake_body sn" s])
      (simp_all add: write_handshake_def)
next
  case (ReadHandshake g)
  have "s_expected_peer s' = s_expected_peer s"
    if "read_handshake_body sn g s = (Inr u, s')" for u s'
    using that by (rule read_handshake_body_ok) (auto dest: finish_handshake_phase(2))
  with ReadHandshake show ?thesis
    by (cases rule: checked_at_cases [of now "read_handshake_body sn g" s])
      (simp_all add: read_handshake_def)
next
  case (ApproveEnrollment p b)
  with assms show ?thesis
    by (cases rule: checked_at_cases [of now "approve_enrollment_body p b" s])
      (auto simp: approve_enrollment_def approve_enrollment_body_def)
next
  case WriteConfirmation
  then show ?thesis
    by (cases rule: checked_at_cases [of now "write_confirmation_body sn" s])
      (auto simp: write_confirmation_def dest: write_confirmation_body_ok)
next
  case (ReadConfirmation f)
  then show ?thesis
    by (cases rule: checked_at_cases [of now "read_confirmation_body sn f" s])
      (auto simp: read_confirmation_def dest: read_confirmation_body_ok)
next
  case (SealRecord p)
  then show ?thesis
    by (cases rule: checked_at_cases [of now "seal_record_body sn p" s])
      (auto simp: seal_record_def dest: seal_record_body_ok)
next
  case (OpenFrame f)
  then show ?thesis
    by (cases rule: checked_at_cases [of now "open_frame_body sn now f" s])
      (auto simp: open_frame_def dest: open_frame_body_ok)
next
  case CheckAlive
  then show ?thesis using check_alive_snd [of now s] by auto
qed simp

lemma approval_step:
  assumes "is_closed s \<or> s_expected_peer s = None \<or> approved_in cs s"
    and "s_phase s = Handshake \<Longrightarrow> s_expected_peer s = None"
    and "wiped s \<or> \<not> is_closed s"
    and s': "s' = snd (session_call sn now c s)"
  shows "is_closed s' \<or> s_expected_peer s' = None \<or> approved_in (cs @ [(now, c)]) s'"
proof -
  consider "wiped s'" | "s_phase s = Handshake" "s_expected_peer s' = s_expected_peer s"
    | "kept_by c s s'" "\<not> is_closed s"
    using session_call_kept [of sn now c s] handshake_call_pin [of s sn now c] assms(3)
      closed_call(1) [of s sn now c] unfolding s' by blast
  then show ?thesis
  proof cases
    case 1
    then show ?thesis by (simp add: wiped_def)
  next
    case 2
    then show ?thesis using assms(2) by simp
  next
    case 3
    then show ?thesis using assms(1) by (auto simp: kept_by_def approved_in_def)
  qed
qed

lemma closed_wiped: "session_inv s \<Longrightarrow> wiped s \<or> \<not> is_closed s"
  by (auto simp: session_inv_def wiped_def is_closed_def)

lemma handshake_pin_step:
  assumes "session_inv s" and "s_phase s = Handshake \<Longrightarrow> s_expected_peer s = None"
    and "s_phase (snd (session_call sn now c s)) = Handshake"
  shows "s_expected_peer (snd (session_call sn now c s)) = None"
proof -
  have "s_phase s = Handshake"
    using session_call_phase [OF assms(1), of sn now c] assms(3)
    by (auto elim: phase_step.cases)
  then show ?thesis
    using handshake_call_pin [of s sn now c] assms(2,3) by (auto simp: wiped_def is_closed_def)
qed

lemma approval_run:
  assumes "snow_bounded sn" and "session_inv s"
    and "is_closed s \<or> s_expected_peer s = None \<or> approved_in ds s"
    and "s_phase s = Handshake \<Longrightarrow> s_expected_peer s = None"
  shows "is_closed (session_run sn cs s) \<or> s_expected_peer (session_run sn cs s) = None
    \<or> approved_in (ds @ cs) (session_run sn cs s)"
  using assms(2-)
proof (induction cs arbitrary: s ds)
  case Nil
  then show ?case by simp
next
  case (Cons nc cs)
  obtain now c where nc: "nc = (now, c)" by (cases nc)
  have "is_closed (session_run sn cs (snd (session_call sn now c s)))
      \<or> s_expected_peer (session_run sn cs (snd (session_call sn now c s))) = None
      \<or> approved_in ((ds @ [(now, c)]) @ cs) (session_run sn cs (snd (session_call sn now c s)))"
    using Cons.prems assms(1)
    by (intro Cons.IH approval_step handshake_pin_step session_call_inv closed_wiped) auto
  then show ?case using nc by simp
qed

section \<open>A concrete library for the witnesses\<close>

text \<open>
  A library that meets the laws stated of snow, with no secrecy at all: handshake messages
  carry their number and the static key, transport frames carry their number as the tag.
\<close>

type_synonym toy_h = "bool \<times> bytes \<times> nat \<times> bytes option"
type_synonym toy_t = "nat \<times> nat"

definition toy :: "(toy_h, toy_t) snow" where
  "toy = \<lparr>sn_pubkey = Some,
     sn_initiator = \<lambda>priv psk pro. Some (True, priv, 0, None),
     sn_responder = \<lambda>priv psk pro. Some (False, priv, 0, None),
     sn_my_turn = \<lambda>(i, p, k, r). even k = i,
     sn_write = \<lambda>(i, p, k, r). Some (of_nat k # p, (i, p, Suc k, r)),
     sn_read = \<lambda>(i, p, k, r) f.
       if f \<noteq> [] \<and> hd f = of_nat k
       then Some ([], (i, p, Suc k, if k = 0 then None else Some (tl f))) else None,
     sn_remote_static = \<lambda>(i, p, k, r). r,
     sn_finished = \<lambda>(i, p, k, r). k = 3,
     sn_hash = \<lambda>_. replicate 32 7,
     sn_transport = \<lambda>_. Some (0, 0),
     sn_encrypt = \<lambda>(m, n) p. Some (be_bytes 16 m @ p, (Suc m, n)),
     sn_decrypt = \<lambda>(m, n) f.
       if 16 \<le> length f \<and> take 16 f = be_bytes 16 n then Some (drop 16 f, (m, Suc n)) else None\<rparr>"

lemma toy_bounded: "snow_bounded toy"
  by (auto simp: snow_bounded_def toy_def split: if_splits)

definition toy_id :: "u8 \<Rightarrow> identity" where
  "toy_id b = \<lparr>id_private = replicate 32 b, id_public = replicate 32 b\<rparr>"

definition toy_session :: "bool \<Rightarrow> u8 \<Rightarrow> bytes option \<Rightarrow> (toy_h, toy_t) session" where
  "toy_session phone b pin =
     \<lparr>s_handshake = Some (phone, replicate 32 b, 0, None), s_transport = None,
      s_phase = Handshake, s_phone = phone,
      s_expected_peer = pin, s_peer = None, s_binding = None, s_created = 0,
      s_sent_messages = 0, s_sent_bytes = 0, s_received_messages = 0,
      s_received_bytes = 0, s_outgoing_record = 0, s_incoming = assembler_default\<rparr>"

lemma toy_session_new:
  "session_new toy 0 (toy_id b) (replicate 32 5) (replicate 16 3) phone pin =
     Inr (toy_session phone b pin)" if "pin \<noteq> Some (replicate 32 0)"
  using that by (simp add: session_new_def toy_def toy_id_def toy_session_def)

lemma replicate_byte: "replicate 32 (a :: u8) = replicate 32 b \<longleftrightarrow> a = b"
  by simp

lemma length_confirms [simp]:
  "length DESKTOP_CONFIRM = 28" "length PHONE_CONFIRM = 26"
  by (simp_all add: DESKTOP_CONFIRM_def PHONE_CONFIRM_def)

lemmas toy_simps = toy_def toy_session_def is_ready_def is_closed_def expired_def
  assembler_default_def secs_def HANDSHAKE_AGE_def MAX_AGE_def out_map_def checked_at_def
  finish_handshake_def operation_defs write_handshake_body_def read_handshake_body_def
  write_confirmation_body_def read_confirmation_body_def approve_enrollment_body_def
  encrypt_def decrypt_def Let_def limits

definition toy_desktop_frames :: "(instant \<times> api_call) list" where
  "toy_desktop_frames =
     [(1, WriteHandshake), (2, ReadHandshake (1 # replicate 32 8)), (3, WriteHandshake)]"

lemma toy_phone_run:
  "session_run toy toy_desktop_frames (toy_session True 9 (Some (replicate 32 8))) =
     (toy_session True 9 (Some (replicate 32 8)))
       \<lparr>s_handshake := None, s_transport := Some (0, 0), s_phase := AwaitingDesktopConfirmation,
        s_peer := Some (replicate 32 8), s_binding := Some (replicate 32 7)\<rparr>"
  by (simp add: toy_desktop_frames_def toy_simps)

definition toy_enrollment_calls :: "(instant \<times> api_call) list" where
  "toy_enrollment_calls =
     [(1, ReadHandshake (0 # replicate 32 9)), (2, WriteHandshake),
      (3, ReadHandshake (2 # replicate 32 9)),
      (4, ApproveEnrollment (replicate 32 9) (replicate 32 7))]"

lemma toy_enrollment_run:
  "session_run toy toy_enrollment_calls (toy_session False 8 None) =
     (toy_session False 8 None)
       \<lparr>s_handshake := None, s_transport := Some (0, 0), s_phase := SendDesktopConfirmation,
        s_expected_peer := Some (replicate 32 9),
        s_peer := Some (replicate 32 9), s_binding := Some (replicate 32 7)\<rparr>"
  by (simp add: toy_enrollment_calls_def toy_simps)

lemma toy_phone_fresh: "fresh_session toy (toy_session True 9 (Some (replicate 32 8)))"
  by (rule fresh_phone [of _ 0 "toy_id 9" "replicate 32 5" "replicate 16 3" "replicate 32 8"])
    (simp add: session_phone_def toy_session_new)

section \<open>Properties\<close>

text \<open>C7: whatever is called on a session of any constructor, at most a million messages
  and 2^30 bytes pass each way, the partial record stays below 1 MiB, and the record number
  never reaches the overflow that \<open>seal_record\<close> guards against.\<close>

theorem session_budgets:
  assumes "snow_bounded sn" and "fresh_session sn s0" and "s = session_run sn cs s0"
  shows "s_sent_messages s \<le> MAX_MESSAGES \<and> s_sent_bytes s \<le> MAX_BYTES
    \<and> s_received_messages s \<le> MAX_MESSAGES \<and> s_received_bytes s \<le> MAX_BYTES
    \<and> length (asm_partial (s_incoming s)) \<le> MAX_RECORD
    \<and> u64_checked_add (s_outgoing_record s) 1 \<noteq> None"
proof -
  have inv: "session_inv s"
    using assms by (simp add: session_run_inv fresh_session_inv)
  then have "s_outgoing_record s + 1 < 2 ^ 64" by (simp add: session_inv_def budget_inv_def limits)
  moreover have "length (asm_partial (s_incoming s)) \<le> MAX_RECORD"
    using inv by (auto simp: session_inv_def asm_inv_def limits split: if_splits)
  ultimately show ?thesis using inv by (simp add: session_inv_def budget_inv_def)
qed

theorem session_budgets_witness:
  "s_sent_bytes (session_run toy toy_desktop_frames (toy_session True 9 (Some (replicate 32 8))))
     \<le> MAX_BYTES"
  using session_budgets [OF toy_bounded toy_phone_fresh refl, of toy_desktop_frames] by blast

text \<open>C6: an error of any call destroys the session: handshake and transport state, peer,
  binding and partial record are gone, no later sequence of calls brings anything back, and
  every later operation fails with \<open>InvalidState\<close>.\<close>

theorem session_error_is_final:
  assumes "session_call sn now c s = (Inl e, s')" and "c' \<noteq> CloseSession"
  shows "wiped (session_run sn cs s')
    \<and> fst (session_call sn now' c' (session_run sn cs s')) = Inl InvalidState"
  using closed_run [OF session_call_wipes [OF assms(1)], of sn cs] assms(2)
  by (simp add: closed_call)

theorem session_error_is_final_witness:
  "fst (session_call toy 9 CheckAlive
     (session_run toy [(7, WriteHandshake)]
       (session_close (toy_session True 9 None)))) = Inl InvalidState"
  using session_error_is_final
      [of toy 5 "ReadHandshake []" "toy_session True 9 None" InvalidInput
        "session_close (toy_session True 9 None)" CheckAlive "[(7, WriteHandshake)]" 9]
  by (simp add: toy_simps)

text \<open>C2: a session opened with a pinned peer has, from the end of its handshake until it
  closes, an authenticated peer equal to the pin and a 32-byte binding hash; the pin itself
  never changes.\<close>

theorem pinned_peer_enforced:
  assumes "snow_bounded sn" and "session_new sn now ident psk pair phone (Some pin) = Inr s0"
    and "s = session_run sn cs s0" and "s_phase s \<noteq> Handshake" and "\<not> is_closed s"
  shows "s_peer s = Some pin \<and> s_expected_peer s = Some pin
    \<and> (\<exists>b. s_binding s = Some b \<and> length b = 32)"
proof -
  have inv0: "session_inv s0" by (rule session_new_inv [OF assms(2)]) simp
  have "established s"
    using session_run_inv [OF assms(1) inv0, of cs] assms(3-5)
    by (simp add: session_inv_def is_closed_def)
  moreover have "s_expected_peer s = Some pin"
    using session_run_owner [OF assms(1) inv0, of cs] session_new_sel(1) [OF assms(2)] assms(3)
    by (simp add: same_owner_def)
  ultimately show ?thesis by (simp add: established_def)
qed

theorem pinned_peer_enforced_witness:
  "s_peer (session_run toy toy_desktop_frames (toy_session True 9 (Some (replicate 32 8))))
     = Some (replicate 32 8)"
  using pinned_peer_enforced [where pin = "replicate 32 8" and phone = True
      and ident = "toy_id 9" and cs = toy_desktop_frames, OF toy_bounded toy_session_new refl]
  by (simp add: toy_phone_run is_closed_def)

text \<open>C1: an enrolling desktop gets past \<open>AwaitingApproval\<close> only by an explicit
  \<open>approve_enrollment\<close> call that names the peer key and binding hash of this very handshake.\<close>

theorem enrollment_needs_approval:
  assumes "snow_bounded sn" and "session_desktop_enrollment sn now ident psk pair = Inr s0"
    and "s = session_run sn cs s0"
    and "s_phase s \<notin> {Handshake, AwaitingApproval, Closed}"
  shows "\<exists>now p b. (now, ApproveEnrollment p b) \<in> set cs
    \<and> s_peer s = Some p \<and> s_binding s = Some b"
proof -
  have inv0: "session_inv s0"
    using assms(2) by (auto simp: session_desktop_enrollment_def intro: session_new_inv)
  note sel = session_new_sel [OF assms(2) [unfolded session_desktop_enrollment_def]]
  have inv: "session_inv s" using session_run_inv [OF assms(1) inv0] assms(3) by simp
  have "\<not> s_phone s"
    using session_run_owner [OF assms(1) inv0, of cs] sel(2) assms(3) by (simp add: same_owner_def)
  with inv assms(4) have "s_expected_peer s \<noteq> None"
    by (cases "s_phase s") (auto simp: session_inv_def)
  moreover have "\<not> is_closed s" using assms(4) by (simp add: is_closed_def)
  ultimately have "approved_in ([] @ cs) s"
    using approval_run [OF assms(1) inv0, of "[]" cs] sel(1) assms(3) by auto
  then show ?thesis by (simp add: approved_in_def)
qed

theorem enrollment_needs_approval_witness:
  "\<exists>now p b. (now, ApproveEnrollment p b) \<in> set toy_enrollment_calls
    \<and> Some (replicate 32 9) = Some p \<and> Some (replicate 32 7) = Some b"
  using enrollment_needs_approval [OF toy_bounded _ refl, of 0 "toy_id 8" "replicate 32 5"
      "replicate 16 3" "toy_session False 8 None" toy_enrollment_calls]
  by (simp add: toy_enrollment_run session_desktop_enrollment_def toy_session_new)

text \<open>C5: the phase after any call is the phase before it or the next one of the protocol's
  state machine for the session's role; nothing skips the approval or a confirmation.\<close>

theorem phases_follow_protocol:
  assumes "snow_bounded sn" and "fresh_session sn s0" and "s = session_run sn cs s0"
  shows "(phase_step (s_phone s) (s_expected_peer s \<noteq> None))\<^sup>=\<^sup>= (s_phase s)
    (s_phase (snd (session_call sn now c s)))"
  using assms by (intro session_call_phase) (simp add: session_run_inv fresh_session_inv)

theorem phases_follow_protocol_witness:
  "(phase_step True True)\<^sup>=\<^sup>= AwaitingDesktopConfirmation
     (s_phase (snd (session_call toy 4
       (ReadConfirmation (be_bytes 16 0 @ DESKTOP_CONFIRM @ replicate 32 7))
       (session_run toy toy_desktop_frames (toy_session True 9 (Some (replicate 32 8)))))))"
  using phases_follow_protocol [OF toy_bounded toy_phone_fresh refl, of toy_desktop_frames 4
      "ReadConfirmation (be_bytes 16 0 @ DESKTOP_CONFIRM @ replicate 32 7)"]
  by (simp add: toy_phone_run) (simp add: toy_session_def)

text \<open>The age limits: after two minutes a session that is not ready, and after a day any
  session, fails every call with \<open>LimitReached\<close> and is destroyed; before them a liveness
  check of an open session without a stalled record succeeds and changes nothing.\<close>

theorem session_age_limit:
  assumes "\<not> is_closed s" and "c \<noteq> CloseSession"
  shows "((if is_ready s then MAX_AGE else HANDSHAKE_AGE) \<le> now - s_created s \<longrightarrow>
      fst (session_call sn now c s) = Inl LimitReached \<and> wiped (snd (session_call sn now c s)))
    \<and> (now - s_created s < (if is_ready s then MAX_AGE else HANDSHAKE_AGE) \<longrightarrow>
        \<not> expired now (s_incoming s) \<longrightarrow> session_call sn now CheckAlive s = (Inr Done, s))"
proof (intro conjI impI)
  assume old: "(if is_ready s then MAX_AGE else HANDSHAKE_AGE) \<le> now - s_created s"
  show "fst (session_call sn now c s) = Inl LimitReached"
    using assms old by (cases c) (simp_all add: operation_defs checked_at_def out_map_def)
  show "wiped (snd (session_call sn now c s))"
    using assms old by (cases c) (simp_all add: operation_defs checked_at_def)
next
  assume "now - s_created s < (if is_ready s then MAX_AGE else HANDSHAKE_AGE)"
    and "\<not> expired now (s_incoming s)"
  with assms(1) show "session_call sn now CheckAlive s = (Inr Done, s)"
    by (simp add: check_alive_def checked_at_def out_map_def)
qed

theorem session_age_limit_witness:
  "fst (session_call toy (secs 120) WriteHandshake (toy_session True 9 None)) = Inl LimitReached"
  using session_age_limit [of "toy_session True 9 None" WriteHandshake "secs 120" toy]
  by (simp add: is_closed_def is_ready_def toy_session_def HANDSHAKE_AGE_def)

end
