(* ===== verification/Session_Pairing.thy ===== *)
theory Session_Pairing
  imports Session_Safety
begin

text \<open>
  A phone and a desktop session of shared/secure-channel/src/lib.rs joined by the Noise
  library: under the documented behaviour of the XX handshake and of its transports, stated
  here as \<open>handshake_law\<close> and \<open>transport_law\<close>, both sides become ready with one binding hash,
  and a sealed record opens at the other side as the record that was sealed.
\<close>

section \<open>What is relied on of the library\<close>

text \<open>
  \<open>link t fs u\<close>: the frames \<open>fs\<close>, each with its plaintext, were written by the transport \<open>t\<close>
  and are still to be read, in order, by the transport \<open>u\<close>. Writing appends one, reading
  takes the first, and with nothing under way the link works in both directions.
\<close>

definition transport_law ::
  "('h, 't) snow \<Rightarrow> ('t \<Rightarrow> (bytes \<times> bytes) list \<Rightarrow> 't \<Rightarrow> bool) \<Rightarrow> bool" where
  "transport_law sn link \<longleftrightarrow>
     (\<forall>t fs u p. link t fs u \<longrightarrow> length p + 16 \<le> MAX_FRAME \<longrightarrow>
        (\<exists>f t'. sn_encrypt sn t p = Some (f, t') \<and> length f = length p + 16
           \<and> link t' (fs @ [(f, p)]) u))
   \<and> (\<forall>t f p fs u. link t ((f, p) # fs) u \<longrightarrow>
        length f = length p + 16 \<and> (\<exists>u'. sn_decrypt sn u f = Some (p, u') \<and> link t fs u'))
   \<and> (\<forall>t u. link t [] u \<longrightarrow> link u [] t)"

text \<open>
  The XX handshake between an initiator with private key \<open>kp\<close> and a responder with private
  key \<open>kd\<close>: three messages, the static keys in the second and the third.
\<close>

definition xx_exchange ::
  "('h, 't) snow \<Rightarrow> ('t \<Rightarrow> (bytes \<times> bytes) list \<Rightarrow> 't \<Rightarrow> bool)
     \<Rightarrow> identity \<Rightarrow> identity \<Rightarrow> bytes \<Rightarrow> bytes
     \<Rightarrow> 'h \<times> 'h \<times> 'h \<times> 'h \<Rightarrow> 'h \<times> 'h \<times> 'h \<times> 'h \<Rightarrow> bytes \<times> bytes \<times> bytes \<Rightarrow> 't \<times> 't \<Rightarrow> bool"
  where
  "xx_exchange sn link ip idd psk pro = (\<lambda>(i0, i1, i2, i3) (r0, r1, r2, r3) (m1, m2, m3) (t, u).
        sn_initiator sn (id_private ip) psk pro = Some i0
      \<and> sn_responder sn (id_private idd) psk pro = Some r0
      \<and> sn_my_turn sn i0 \<and> \<not> sn_my_turn sn r0
      \<and> sn_write sn i0 = Some (m1, i1) \<and> sn_read sn r0 m1 = Some ([], r1)
      \<and> \<not> sn_finished sn i1 \<and> \<not> sn_finished sn r1 \<and> sn_remote_static sn r1 = None
      \<and> \<not> sn_my_turn sn i1 \<and> sn_my_turn sn r1
      \<and> sn_write sn r1 = Some (m2, r2) \<and> sn_read sn i1 m2 = Some ([], i2)
      \<and> \<not> sn_finished sn i2 \<and> \<not> sn_finished sn r2 \<and> sn_remote_static sn i2 = Some (id_public idd)
      \<and> sn_my_turn sn i2 \<and> \<not> sn_my_turn sn r2
      \<and> sn_write sn i2 = Some (m3, i3) \<and> sn_read sn r2 m3 = Some ([], r3)
      \<and> sn_finished sn i3 \<and> sn_finished sn r3 \<and> sn_remote_static sn r3 = Some (id_public ip)
      \<and> sn_hash sn i3 = sn_hash sn r3 \<and> length (sn_hash sn r3) = 32
      \<and> sn_transport sn i3 = Some t \<and> sn_transport sn r3 = Some u \<and> link t [] u
      \<and> (\<forall>m\<in>{m1, m2, m3}. m \<noteq> [] \<and> length m \<le> HANDSHAKE_MAX))"

definition handshake_law ::
  "('h, 't) snow \<Rightarrow> ('t \<Rightarrow> (bytes \<times> bytes) list \<Rightarrow> 't \<Rightarrow> bool)
     \<Rightarrow> identity \<Rightarrow> identity \<Rightarrow> bytes \<Rightarrow> bytes \<Rightarrow> bool" where
  "handshake_law sn link ip idd psk pro \<longleftrightarrow>
     (\<exists>initiator responder messages transports.
        xx_exchange sn link ip idd psk pro initiator responder messages transports)"

section \<open>Driving two sessions\<close>

text \<open>One frame from one session to the other; any error ends the run.\<close>

definition pass_frame ::
  "('h, 't, bytes) op \<Rightarrow> (bytes \<Rightarrow> ('h, 't, 'a) op) \<Rightarrow> ('h, 't) session \<Rightarrow> ('h, 't) session
     \<Rightarrow> (('h, 't) session \<times> ('h, 't) session) option" where
  "pass_frame send receive a b =
     (case send a of
        (Inl e, _) \<Rightarrow> None
      | (Inr frame, a') \<Rightarrow>
          (case receive frame b of (Inl e, _) \<Rightarrow> None | (Inr _, b') \<Rightarrow> Some (a', b')))"

text \<open>
  The whole connection, phone first; \<open>clk k\<close> is the instant of the k-th step. A desktop that
  awaits approval is approved for what it shows.
\<close>

definition connect ::
  "('h, 't) snow \<Rightarrow> (nat \<Rightarrow> instant) \<Rightarrow> ('h, 't) session \<Rightarrow> ('h, 't) session
     \<Rightarrow> (('h, 't) session \<times> ('h, 't) session) option" where
  "connect sn clk p d =
     Option.bind (pass_frame (write_handshake sn (clk 0)) (read_handshake sn (clk 1)) p d) (\<lambda>(p, d).
     Option.bind (pass_frame (write_handshake sn (clk 2)) (read_handshake sn (clk 3)) d p) (\<lambda>(d, p).
     Option.bind (pass_frame (write_handshake sn (clk 4)) (read_handshake sn (clk 5)) p d) (\<lambda>(p, d).
     Option.bind (if s_phase d = AwaitingApproval
                  then (case approve_enrollment (clk 6) (the (s_peer d)) (the (s_binding d)) d of
                          (Inl e, _) \<Rightarrow> None | (Inr _, d') \<Rightarrow> Some d')
                  else Some d) (\<lambda>d.
     Option.bind (pass_frame (write_confirmation sn (clk 7)) (read_confirmation sn (clk 8)) d p) (\<lambda>(d, p).
     pass_frame (write_confirmation sn (clk 9)) (read_confirmation sn (clk 10)) p d)))))"

text \<open>The frames of a record opened one after the other, the completed records collected.\<close>

fun open_all :: "('h, 't) snow \<Rightarrow> (instant \<times> bytes) list \<Rightarrow> ('h, 't, bytes list) op" where
  "open_all sn [] s = (Inr [], s)"
| "open_all sn ((now, frame) # fs) s =
     (case open_frame sn now frame s of
        (Inl e, s') \<Rightarrow> (Inl e, s')
      | (Inr out, s') \<Rightarrow>
          (case open_all sn fs s' of
             (Inl e, s'') \<Rightarrow> (Inl e, s'')
           | (Inr outs, s'') \<Rightarrow> (Inr (case out of None \<Rightarrow> outs | Some r \<Rightarrow> r # outs), s'')))"

section \<open>Lemmas on the transports\<close>

lemma transport_encrypt:
  assumes "transport_law sn link" and "link t fs u" and "length p + 16 \<le> MAX_FRAME"
  obtains f t' where "sn_encrypt sn t p = Some (f, t')" "length f = length p + 16"
    "link t' (fs @ [(f, p)]) u"
  using assms unfolding transport_law_def by blast

lemma transport_decrypt:
  assumes "transport_law sn link" and "link t ((f, p) # fs) u"
  obtains u' where "length f = length p + 16" "sn_decrypt sn u f = Some (p, u')" "link t fs u'"
  using assms unfolding transport_law_def by blast

lemma transport_sym: "transport_law sn link \<Longrightarrow> link t [] u \<Longrightarrow> link u [] t"
  unfolding transport_law_def by blast

lemma encrypt_link:
  assumes "transport_law sn link" and "link t fs u" and "s_transport s = Some t"
    and "length p + 16 \<le> MAX_FRAME" and "s_sent_messages s < MAX_MESSAGES"
    and "s_sent_bytes s + length p \<le> MAX_BYTES"
  obtains f t' where "encrypt sn p s = (Inr f, s\<lparr>s_transport := Some t',
      s_sent_messages := s_sent_messages s + 1, s_sent_bytes := s_sent_bytes s + length p\<rparr>)"
    "link t' (fs @ [(f, p)]) u"
proof -
  obtain f t' where f: "sn_encrypt sn t p = Some (f, t')" "link t' (fs @ [(f, p)]) u"
    using assms(1,2,4) by (rule transport_encrypt)
  then show ?thesis using assms that by (simp add: encrypt_def)
qed

lemma decrypt_link:
  assumes "transport_law sn link" and "link t ((f, p) # fs) u" and "s_transport s = Some u"
    and "length p + 16 \<le> MAX_FRAME" and "s_received_messages s < MAX_MESSAGES"
    and "s_received_bytes s + length p \<le> MAX_BYTES"
  obtains u' where "decrypt sn f s = (Inr p, s\<lparr>s_transport := Some u',
      s_received_messages := s_received_messages s + 1,
      s_received_bytes := s_received_bytes s + length p\<rparr>)"
    "link t fs u'"
proof -
  obtain u' where u': "length f = length p + 16" "sn_decrypt sn u f = Some (p, u')" "link t fs u'"
    using assms(1,2) by (rule transport_decrypt)
  then show ?thesis using assms that by (simp add: decrypt_def)
qed

lemma encrypt_all_link:
  assumes "transport_law sn link" and "link t fs u" and "s_transport s = Some t"
    and "\<forall>p\<in>set ps. length p + 16 \<le> MAX_FRAME"
    and "s_sent_messages s + length ps \<le> MAX_MESSAGES"
    and "s_sent_bytes s + length (concat ps) \<le> MAX_BYTES"
  shows "\<exists>gs t'. encrypt_all sn ps s = (Inr gs, s\<lparr>s_transport := Some t',
      s_sent_messages := s_sent_messages s + length ps,
      s_sent_bytes := s_sent_bytes s + length (concat ps)\<rparr>)
    \<and> length gs = length ps \<and> link t' (fs @ zip gs ps) u"
  using assms
proof (induction ps arbitrary: s t fs)
  case Nil
  then show ?case by (intro exI [of _ "[]"] exI [of _ t]) simp
next
  case (Cons p ps)
  obtain f t1 where e: "encrypt sn p s = (Inr f, s\<lparr>s_transport := Some t1,
      s_sent_messages := s_sent_messages s + 1, s_sent_bytes := s_sent_bytes s + length p\<rparr>)"
      and l: "link t1 (fs @ [(f, p)]) u"
    using Cons.prems by (auto elim: encrypt_link)
  define s1 where "s1 = s\<lparr>s_transport := Some t1,
      s_sent_messages := s_sent_messages s + 1, s_sent_bytes := s_sent_bytes s + length p\<rparr>"
  have "\<exists>gs t'. encrypt_all sn ps s1 = (Inr gs, s1\<lparr>s_transport := Some t',
      s_sent_messages := s_sent_messages s1 + length ps,
      s_sent_bytes := s_sent_bytes s1 + length (concat ps)\<rparr>)
    \<and> length gs = length ps \<and> link t' ((fs @ [(f, p)]) @ zip gs ps) u"
    using Cons.prems l by (intro Cons.IH [of t1]) (simp_all add: s1_def)
  then obtain gs t' where "encrypt_all sn ps s1 = (Inr gs, s1\<lparr>s_transport := Some t',
      s_sent_messages := s_sent_messages s1 + length ps,
      s_sent_bytes := s_sent_bytes s1 + length (concat ps)\<rparr>)"
      and "length gs = length ps" and "link t' ((fs @ [(f, p)]) @ zip gs ps) u"
    by blast
  then show ?case
    using e by (intro exI [of _ "f # gs"] exI [of _ t']) (simp add: s1_def)
qed

lemma push_ok_not_expired: "push now c a = (Inr out, a') \<Longrightarrow> \<not> expired now a"
  by (auto simp: push_def)

lemma open_frame_link:
  assumes "transport_law sn link" and "link t ((f, p) # fs) u" and "s_transport s = Some u"
    and "length p + 16 \<le> MAX_FRAME" and "s_received_messages s < MAX_MESSAGES"
    and "s_received_bytes s + length p \<le> MAX_BYTES"
    and "is_ready s" and "now - s_created s < MAX_AGE"
    and "push now p (s_incoming s) = (Inr out, a')"
  obtains u' where "open_frame sn now f s = (Inr out, s\<lparr>s_transport := Some u',
      s_received_messages := s_received_messages s + 1,
      s_received_bytes := s_received_bytes s + length p, s_incoming := a'\<rparr>)"
    "link t fs u'"
proof -
  obtain u' where d: "decrypt sn f s = (Inr p, s\<lparr>s_transport := Some u',
      s_received_messages := s_received_messages s + 1,
      s_received_bytes := s_received_bytes s + length p\<rparr>)" and l: "link t fs u'"
    using assms(1-6) by (rule decrypt_link)
  have "\<not> is_closed s" using assms(7) by (simp add: is_closed_def is_ready_def)
  with assms(7-9) have "open_frame sn now f s = open_frame_body sn now f s"
    by (simp add: open_frame_def checked_at_def open_frame_body_def d push_ok_not_expired)
  also have "\<dots> = (Inr out, s\<lparr>s_transport := Some u',
      s_received_messages := s_received_messages s + 1,
      s_received_bytes := s_received_bytes s + length p, s_incoming := a'\<rparr>)"
    using assms(7,9) by (simp add: open_frame_body_def d)
  finally show ?thesis using l that by blast
qed

lemma open_all_link:
  assumes "transport_law sn link" and "link t (zip gs ps) u" and "s_transport s = Some u"
    and "length gs = length ps" and "length clk = length ps"
    and "\<forall>p\<in>set ps. length p + 16 \<le> MAX_FRAME"
    and "s_received_messages s + length ps \<le> MAX_MESSAGES"
    and "s_received_bytes s + length (concat ps) \<le> MAX_BYTES"
    and "is_ready s" and "\<forall>now\<in>set clk. now - s_created s < MAX_AGE"
    and "feed (zip clk ps) (s_incoming s) = (Inr outs, a')"
  shows "\<exists>u'. open_all sn (zip clk gs) s = (Inr outs, s\<lparr>s_transport := Some u',
      s_received_messages := s_received_messages s + length ps,
      s_received_bytes := s_received_bytes s + length (concat ps), s_incoming := a'\<rparr>)
    \<and> link t [] u'"
  using assms
proof (induction ps arbitrary: s gs u clk outs)
  case Nil
  then show ?case by (intro exI [of _ u]) simp
next
  case (Cons p ps)
  obtain g gs' where gs: "gs = g # gs'" using Cons.prems(4) by (cases gs) auto
  obtain now clk' where clk: "clk = now # clk'" using Cons.prems(5) by (cases clk) auto
  obtain out a1 outs' where f: "push now p (s_incoming s) = (Inr out, a1)"
      "feed (zip clk' ps) a1 = (Inr outs', a')"
      "outs = (case out of None \<Rightarrow> outs' | Some r \<Rightarrow> r # outs')"
    using Cons.prems(11) clk by (auto split: prod.splits sum.splits)
  obtain u1 where o: "open_frame sn now g s = (Inr out, s\<lparr>s_transport := Some u1,
      s_received_messages := s_received_messages s + 1,
      s_received_bytes := s_received_bytes s + length p, s_incoming := a1\<rparr>)"
      and l: "link t (zip gs' ps) u1"
    using Cons.prems gs clk f(1)
    by (auto intro: open_frame_link [of sn link t g p "zip gs' ps" u s now out a1])
  define s1 where "s1 = s\<lparr>s_transport := Some u1,
      s_received_messages := s_received_messages s + 1,
      s_received_bytes := s_received_bytes s + length p, s_incoming := a1\<rparr>"
  have "\<exists>u'. open_all sn (zip clk' gs') s1 = (Inr outs', s1\<lparr>s_transport := Some u',
      s_received_messages := s_received_messages s1 + length ps,
      s_received_bytes := s_received_bytes s1 + length (concat ps), s_incoming := a'\<rparr>)
    \<and> link t [] u'"
    using Cons.prems(1) l
    by (rule Cons.IH) (use Cons.prems gs clk f(2) in \<open>simp_all add: s1_def is_ready_def\<close>)
  then obtain u' where "open_all sn (zip clk' gs') s1 = (Inr outs', s1\<lparr>s_transport := Some u',
      s_received_messages := s_received_messages s1 + length ps,
      s_received_bytes := s_received_bytes s1 + length (concat ps), s_incoming := a'\<rparr>)"
      and "link t [] u'" by blast
  then show ?case
    using o gs clk f(3) by (intro exI [of _ u']) (simp add: s1_def)
qed

lemma record_contents_frame_size:
  assumes "c \<in> set (record_contents r p)"
  shows "length c + 16 \<le> MAX_FRAME"
proof -
  obtain i d where e: "(i, d) \<in> set (List.enumerate 0 (chunks CHUNK p))"
      and d: "c = chunk_contents r (length p) (i * CHUNK) d"
    using assms by (auto simp: record_contents_def)
  have "d \<in> set (chunks CHUNK p)"
    using imageI [OF e, of snd] by (simp flip: set_map)
  then have "length d \<le> CHUNK" using chunks_length_le by blast
  then show ?thesis using d by (simp add: limits)
qed

section \<open>Lemmas on the handshake\<close>

definition young :: "instant \<Rightarrow> ('h, 't) session \<Rightarrow> bool" where
  "young now s \<longleftrightarrow> now - s_created s < HANDSHAKE_AGE \<and> s_incoming s = assembler_default
     \<and> \<not> is_closed s \<and> \<not> is_ready s"

lemma checked_young: "young now s \<Longrightarrow> op s = (Inr x, s') \<Longrightarrow> checked_at now op s = (Inr x, s')"
  by (simp add: young_def checked_at_def expired_def assembler_default_def)

lemma pass_frame_ok:
  assumes "send a = (Inr f, a')" and "receive f b = (Inr x, b')"
  shows "pass_frame send receive a b = Some (a', b')"
  using assms by (simp add: pass_frame_def)

text \<open>The two confirmations: a desktop about to confirm and a phone that waits for it.\<close>

lemma confirmations:
  fixes d p :: "('h, 't) session"
  assumes "transport_law sn link" and "link u [] t"
    and d: "s_phase d = SendDesktopConfirmation" "s_transport d = Some u" "s_binding d = Some h"
      "s_sent_messages d = 0" "s_sent_bytes d = 0" "s_received_messages d = 0" "s_received_bytes d = 0"
      "s_incoming d = assembler_default"
    and p: "s_phase p = AwaitingDesktopConfirmation" "s_transport p = Some t" "s_binding p = Some h"
      "s_sent_messages p = 0" "s_sent_bytes p = 0" "s_received_messages p = 0" "s_received_bytes p = 0"
      "s_incoming p = assembler_default"
    and h: "length h = 32"
    and clk: "\<forall>k::nat. clk k - s_created d < HANDSHAKE_AGE \<and> clk k - s_created p < HANDSHAKE_AGE"
  shows "\<exists>p' d' t' u'. Option.bind
      (pass_frame (write_confirmation sn (clk 7)) (read_confirmation sn (clk 8)) d p)
      (\<lambda>(d, p). pass_frame (write_confirmation sn (clk 9)) (read_confirmation sn (clk 10)) p d)
        = Some (p', d')
    \<and> s_phase p' = Ready \<and> s_phase d' = Ready
    \<and> s_transport p' = Some t' \<and> s_transport d' = Some u' \<and> link t' [] u'
    \<and> s_binding p' = Some h \<and> s_binding d' = Some h
    \<and> s_peer p' = s_peer p \<and> s_peer d' = s_peer d"
proof -
  obtain f u1 where e1: "encrypt sn (DESKTOP_CONFIRM @ h) d = (Inr f, d\<lparr>s_transport := Some u1,
      s_sent_messages := s_sent_messages d + 1,
      s_sent_bytes := s_sent_bytes d + length (DESKTOP_CONFIRM @ h)\<rparr>)"
      and l1: "link u1 ([] @ [(f, DESKTOP_CONFIRM @ h)]) t"
    by (rule encrypt_link [OF assms(1,2) d(2), of "DESKTOP_CONFIRM @ h"])
      (use d h in \<open>simp_all add: limits\<close>)
  obtain t1 where r1: "decrypt sn f p = (Inr (DESKTOP_CONFIRM @ h), p\<lparr>s_transport := Some t1,
      s_received_messages := s_received_messages p + 1,
      s_received_bytes := s_received_bytes p + length (DESKTOP_CONFIRM @ h)\<rparr>)"
      and l2: "link u1 [] t1"
    by (rule decrypt_link [OF assms(1) l1 [unfolded append.simps] p(2)])
      (use p h in \<open>simp_all add: limits\<close>)
  define d1 where "d1 = d\<lparr>s_transport := Some u1, s_sent_messages := 1,
      s_sent_bytes := 60, s_phase := AwaitingPhoneConfirmation\<rparr>"
  define p1 where "p1 = p\<lparr>s_transport := Some t1, s_received_messages := 1,
      s_received_bytes := 60, s_phase := SendPhoneConfirmation\<rparr>"
  have w1: "write_confirmation sn now d = (Inr f, d1)" if "now - s_created d < HANDSHAKE_AGE" for now
    unfolding write_confirmation_def
    by (rule checked_young)
      (use that d e1 h in \<open>simp_all add: young_def is_closed_def is_ready_def
        write_confirmation_body_def d1_def\<close>)
  have c1: "read_confirmation sn now f p = (Inr (), p1)" if "now - s_created p < HANDSHAKE_AGE" for now
    unfolding read_confirmation_def
    by (rule checked_young)
      (use that p r1 h in \<open>simp_all add: young_def is_closed_def is_ready_def
        read_confirmation_body_def p1_def\<close>)
  have p1: "s_transport p1 = Some t1" by (simp add: p1_def)
  have d1: "s_transport d1 = Some u1" by (simp add: d1_def)
  obtain g t2 where e2: "encrypt sn (PHONE_CONFIRM @ h) p1 = (Inr g, p1\<lparr>s_transport := Some t2,
      s_sent_messages := s_sent_messages p1 + 1,
      s_sent_bytes := s_sent_bytes p1 + length (PHONE_CONFIRM @ h)\<rparr>)"
      and l3: "link t2 ([] @ [(g, PHONE_CONFIRM @ h)]) u1"
    by (rule encrypt_link [OF assms(1) transport_sym [OF assms(1) l2] p1, of "PHONE_CONFIRM @ h"])
      (use p h in \<open>simp_all add: limits p1_def\<close>)
  obtain u2 where r2: "decrypt sn g d1 = (Inr (PHONE_CONFIRM @ h), d1\<lparr>s_transport := Some u2,
      s_received_messages := s_received_messages d1 + 1,
      s_received_bytes := s_received_bytes d1 + length (PHONE_CONFIRM @ h)\<rparr>)"
      and l4: "link t2 [] u2"
    by (rule decrypt_link [OF assms(1) l3 [unfolded append.simps] d1])
      (use d h in \<open>simp_all add: limits d1_def\<close>)
  define p2 where "p2 = p1\<lparr>s_transport := Some t2, s_sent_messages := s_sent_messages p1 + 1,
      s_sent_bytes := s_sent_bytes p1 + length (PHONE_CONFIRM @ h), s_phase := Ready\<rparr>"
  define d2 where "d2 = d1\<lparr>s_transport := Some u2,
      s_received_messages := s_received_messages d1 + 1,
      s_received_bytes := s_received_bytes d1 + length (PHONE_CONFIRM @ h), s_phase := Ready\<rparr>"
  have w2: "write_confirmation sn now p1 = (Inr g, p2)" if "now - s_created p < HANDSHAKE_AGE" for now
    unfolding write_confirmation_def
    by (rule checked_young)
      (use that p e2 in \<open>simp_all add: young_def is_closed_def is_ready_def
        write_confirmation_body_def p1_def p2_def\<close>)
  have c2: "read_confirmation sn now g d1 = (Inr (), d2)" if "now - s_created d < HANDSHAKE_AGE" for now
    unfolding read_confirmation_def
    by (rule checked_young)
      (use that d r2 in \<open>simp_all add: young_def is_closed_def is_ready_def
        read_confirmation_body_def d1_def d2_def\<close>)
  have "pass_frame (write_confirmation sn (clk 7)) (read_confirmation sn (clk 8)) d p = Some (d1, p1)"
    using w1 [of "clk 7"] c1 [of "clk 8"] clk by (simp add: pass_frame_def)
  moreover have "pass_frame (write_confirmation sn (clk 9)) (read_confirmation sn (clk 10)) p1 d1
      = Some (p2, d2)"
    using w2 [of "clk 9"] c2 [of "clk 10"] clk by (simp add: pass_frame_def)
  ultimately show ?thesis
    using l4 p d by (intro exI [of _ p2] exI [of _ d2] exI [of _ t2] exI [of _ u2])
      (simp add: p2_def d2_def p1_def d1_def)
qed

text \<open>The three handshake messages between two new sessions.\<close>

lemma handshake_messages:
  assumes law: "handshake_law sn link ip idd psk (prologue pair)"
    and np: "session_new sn tp ip psk pair True (Some (id_public idd)) = Inr p"
    and nd: "session_new sn td idd psk pair False pin = Inr d"
    and pin: "pin = None \<or> pin = Some (id_public ip)"
    and keys: "length (id_public ip) = 32" "length (id_public idd) = 32"
    and clk: "\<forall>k::nat. clk k - tp < HANDSHAKE_AGE \<and> clk k - td < HANDSHAKE_AGE"
  shows "\<exists>p1 d1 p2 d2 t u h.
      pass_frame (write_handshake sn (clk 0)) (read_handshake sn (clk 1)) p d = Some (p1, d1)
    \<and> pass_frame (write_handshake sn (clk 2)) (read_handshake sn (clk 3)) d1 p1 = Some (d2, p2)
    \<and> pass_frame (write_handshake sn (clk 4)) (read_handshake sn (clk 5)) p2 d2 =
        Some (p\<lparr>s_handshake := None, s_transport := Some t, s_peer := Some (id_public idd),
                s_binding := Some h, s_phase := AwaitingDesktopConfirmation\<rparr>,
              d\<lparr>s_handshake := None, s_transport := Some u, s_peer := Some (id_public ip),
                s_binding := Some h,
                s_phase := (if pin = None then AwaitingApproval else SendDesktopConfirmation)\<rparr>)
    \<and> link t [] u \<and> length h = 32"
proof -
  obtain i0 i1 i2 i3 r0 r1 r2 r3 m1 m2 m3 t u where
    xx: "xx_exchange sn link ip idd psk (prologue pair) (i0, i1, i2, i3) (r0, r1, r2, r3)
      (m1, m2, m3) (t, u)"
    using law unfolding handshake_law_def by (metis prod.exhaust)
  have i0: "sn_initiator sn (id_private ip) psk (prologue pair) = Some i0"
    and r0: "sn_responder sn (id_private idd) psk (prologue pair) = Some r0"
    using xx by (simp_all add: xx_exchange_def)
  have turn: "sn_my_turn sn i0" "\<not> sn_my_turn sn r0" "\<not> sn_my_turn sn i1" "sn_my_turn sn r1"
      "sn_my_turn sn i2" "\<not> sn_my_turn sn r2"
    using xx by (simp_all add: xx_exchange_def)
  have io: "sn_write sn i0 = Some (m1, i1)" "sn_read sn r0 m1 = Some ([], r1)"
      "sn_write sn r1 = Some (m2, r2)" "sn_read sn i1 m2 = Some ([], i2)"
      "sn_write sn i2 = Some (m3, i3)" "sn_read sn r2 m3 = Some ([], r3)"
    using xx by (simp_all add: xx_exchange_def)
  have fin: "\<not> sn_finished sn i1" "\<not> sn_finished sn r1" "\<not> sn_finished sn i2"
      "\<not> sn_finished sn r2" "sn_finished sn i3" "sn_finished sn r3"
    using xx by (simp_all add: xx_exchange_def)
  have rem: "sn_remote_static sn r1 = None" "sn_remote_static sn i2 = Some (id_public idd)"
      "sn_remote_static sn r3 = Some (id_public ip)"
    using xx by (simp_all add: xx_exchange_def)
  have h: "sn_hash sn i3 = sn_hash sn r3" "length (sn_hash sn r3) = 32"
    and tr: "sn_transport sn i3 = Some t" "sn_transport sn r3 = Some u" "link t [] u"
    and m: "\<forall>m\<in>{m1, m2, m3}. m \<noteq> [] \<and> length m \<le> HANDSHAKE_MAX"
    using xx by (simp_all add: xx_exchange_def)
  have p: "s_handshake p = Some i0" "s_phase p = Handshake" "s_phone p"
      "s_expected_peer p = Some (id_public idd)" "s_created p = tp" "s_incoming p = assembler_default"
    using np i0 by (auto simp: session_new_def split: if_splits)
  have d: "s_handshake d = Some r0" "s_phase d = Handshake" "\<not> s_phone d"
      "s_expected_peer d = pin" "s_created d = td" "s_incoming d = assembler_default"
      "s_peer d = None"
    using nd r0 by (auto simp: session_new_def split: if_splits)
  note run = young_def is_closed_def is_ready_def write_handshake_body_def read_handshake_body_def
    finish_handshake_def Let_def
  have sizes: "m1 \<noteq> []" "length m1 \<le> HANDSHAKE_MAX" "m2 \<noteq> []" "length m2 \<le> HANDSHAKE_MAX"
      "m3 \<noteq> []" "length m3 \<le> HANDSHAKE_MAX" using m by auto
  define p1 where "p1 = p\<lparr>s_handshake := Some i1\<rparr>"
  define d1 where "d1 = d\<lparr>s_handshake := Some r1\<rparr>"
  define p2 where "p2 = p\<lparr>s_handshake := Some i2, s_peer := Some (id_public idd)\<rparr>"
  define d2 where "d2 = d\<lparr>s_handshake := Some r2\<rparr>"
  note defs = p1_def d1_def p2_def d2_def
  have 1: "write_handshake sn (clk 0) p = (Inr m1, p1)"
    unfolding write_handshake_def
    by (rule checked_young) (use p clk turn io fin in \<open>simp_all add: run defs\<close>)
  have 2: "read_handshake sn (clk 1) m1 d = (Inr (), d1)"
    unfolding read_handshake_def
    by (rule checked_young) (use d clk turn io fin rem sizes in \<open>simp_all add: run defs not_less\<close>)
  have 3: "write_handshake sn (clk 2) d1 = (Inr m2, d2)"
    unfolding write_handshake_def
    by (rule checked_young) (use d clk turn io fin in \<open>simp_all add: run defs\<close>)
  have 4: "read_handshake sn (clk 3) m2 p1 = (Inr (), p2)"
    unfolding read_handshake_def
    by (rule checked_young)
      (use p clk turn io fin rem sizes keys in \<open>simp_all add: run defs not_less\<close>)
  have 5: "write_handshake sn (clk 4) p2 = (Inr m3,
      p\<lparr>s_handshake := None, s_transport := Some t, s_peer := Some (id_public idd),
        s_binding := Some (sn_hash sn r3), s_phase := AwaitingDesktopConfirmation\<rparr>)"
    unfolding write_handshake_def
    by (rule checked_young) (use p clk turn io fin h tr in \<open>simp_all add: run defs\<close>)
  have 6: "read_handshake sn (clk 5) m3 d2 = (Inr (),
      d\<lparr>s_handshake := None, s_transport := Some u, s_peer := Some (id_public ip),
        s_binding := Some (sn_hash sn r3),
        s_phase := (if pin = None then AwaitingApproval else SendDesktopConfirmation)\<rparr>)"
    unfolding read_handshake_def
    by (rule checked_young)
      (use d pin clk turn io fin rem sizes keys h tr in \<open>auto simp: run defs not_less\<close>)
  have "pass_frame (write_handshake sn (clk 0)) (read_handshake sn (clk 1)) p d = Some (p1, d1)"
    "pass_frame (write_handshake sn (clk 2)) (read_handshake sn (clk 3)) d1 p1 = Some (d2, p2)"
    using 2 by (simp_all add: pass_frame_def 1 3 4)
  moreover note pass_frame_ok [of "write_handshake sn (clk 4)" p2, OF 5,
      of "read_handshake sn (clk 5)" d2, OF 6]
  ultimately show ?thesis using tr(3) h(2) by blast
qed

lemma approve_ok:
  assumes "young now d" and "s_phase d = AwaitingApproval" and "s_peer d = Some k"
    and "s_binding d = Some h"
  shows "approve_enrollment now k h d =
    (Inr (), d\<lparr>s_expected_peer := Some k, s_phase := SendDesktopConfirmation\<rparr>)"
  unfolding approve_enrollment_def
  by (rule checked_young) (use assms in \<open>simp_all add: approve_enrollment_body_def\<close>)

section \<open>The concrete library meets the laws\<close>

text \<open>In flight: consecutive numbers from the reader's next to the writer's next.\<close>

fun toy_frames :: "nat \<Rightarrow> (bytes \<times> bytes) list \<Rightarrow> nat \<Rightarrow> bool" where
  "toy_frames n [] m = (n = m)"
| "toy_frames n ((f, p) # fs) m = (f = be_bytes 16 n @ p \<and> toy_frames (Suc n) fs m)"

definition toy_link :: "toy_t \<Rightarrow> (bytes \<times> bytes) list \<Rightarrow> toy_t \<Rightarrow> bool" where
  "toy_link t fs u \<longleftrightarrow> toy_frames (snd u) fs (fst t) \<and> fst u = snd t"

lemma toy_frames_snoc:
  "toy_frames n fs m \<Longrightarrow> toy_frames n (fs @ [(be_bytes 16 m @ p, p)]) (Suc m)"
  by (induction n fs m rule: toy_frames.induct) auto

lemma toy_transport_law: "transport_law toy toy_link"
  unfolding transport_law_def
  by (auto simp: toy_def toy_link_def toy_frames_snoc)

lemma toy_handshake_law: "handshake_law toy toy_link (toy_id a) (toy_id b) psk pro"
proof -
  let ?m = "\<lambda>k x. (of_nat k :: u8) # replicate 32 x"
  have "xx_exchange toy toy_link (toy_id a) (toy_id b) psk pro
      ((True, replicate 32 a, 0, None), (True, replicate 32 a, 1, None),
       (True, replicate 32 a, 2, Some (replicate 32 b)),
       (True, replicate 32 a, 3, Some (replicate 32 b)))
      ((False, replicate 32 b, 0, None), (False, replicate 32 b, 1, None),
       (False, replicate 32 b, 2, None), (False, replicate 32 b, 3, Some (replicate 32 a)))
      (?m 0 a, ?m 1 b, ?m 2 a) ((0, 0), (0, 0))"
    by (simp add: xx_exchange_def toy_def toy_id_def toy_link_def limits)
  then show ?thesis unfolding handshake_law_def by blast
qed

section \<open>Properties\<close>

text \<open>C3: a phone and a desktop opened for each other (the desktop pinned, or enrolling and
  then approved) that exchange the three handshake messages and the two confirmations within
  two minutes both become ready, with one binding hash and each with the other's identity
  key as its peer, and their transports are joined.\<close>

theorem connection_becomes_ready:
  assumes "transport_law sn link" and "handshake_law sn link ip idd psk (prologue pair)"
    and "session_new sn tp ip psk pair True (Some (id_public idd)) = Inr p"
    and "session_new sn td idd psk pair False pin = Inr d"
    and "pin = None \<or> pin = Some (id_public ip)"
    and "length (id_public ip) = 32" and "length (id_public idd) = 32"
    and "\<forall>k. clk k - tp < HANDSHAKE_AGE \<and> clk k - td < HANDSHAKE_AGE"
  shows "\<exists>p' d' h t u. connect sn clk p d = Some (p', d') \<and> is_ready p' \<and> is_ready d'
    \<and> s_binding p' = Some h \<and> s_binding d' = Some h \<and> length h = 32
    \<and> s_peer p' = Some (id_public idd) \<and> s_peer d' = Some (id_public ip)
    \<and> s_transport p' = Some t \<and> s_transport d' = Some u \<and> link t [] u"
proof -
  obtain p1 d1 p2 d2 t u h where
      m: "pass_frame (write_handshake sn (clk 0)) (read_handshake sn (clk 1)) p d = Some (p1, d1)"
        "pass_frame (write_handshake sn (clk 2)) (read_handshake sn (clk 3)) d1 p1 = Some (d2, p2)"
    and m3: "pass_frame (write_handshake sn (clk 4)) (read_handshake sn (clk 5)) p2 d2 =
        Some (p\<lparr>s_handshake := None, s_transport := Some t, s_peer := Some (id_public idd),
                s_binding := Some h, s_phase := AwaitingDesktopConfirmation\<rparr>,
              d\<lparr>s_handshake := None, s_transport := Some u, s_peer := Some (id_public ip),
                s_binding := Some h,
                s_phase := (if pin = None then AwaitingApproval else SendDesktopConfirmation)\<rparr>)"
      (is "_ = Some (?p3, ?d3)")
    and l: "link t [] u" "length h = 32"
    using handshake_messages [OF assms(2-8)] by blast
  have p: "s_created p = tp" "s_incoming p = assembler_default" "s_sent_messages p = 0"
      "s_sent_bytes p = 0" "s_received_messages p = 0" "s_received_bytes p = 0"
    using assms(3) by (auto simp: session_new_def split: if_splits option.splits)
  have d: "s_created d = td" "s_incoming d = assembler_default" "s_sent_messages d = 0"
      "s_sent_bytes d = 0" "s_received_messages d = 0" "s_received_bytes d = 0"
    using assms(4) by (auto simp: session_new_def split: if_splits option.splits)
  define d4 where "d4 = (if pin = None
      then ?d3\<lparr>s_expected_peer := Some (id_public ip), s_phase := SendDesktopConfirmation\<rparr>
      else ?d3)"
  have young: "pin = None \<Longrightarrow> young (clk 6) ?d3"
    using d assms(8) by (simp add: young_def is_closed_def is_ready_def)
  have approve: "(if s_phase ?d3 = AwaitingApproval
      then (case approve_enrollment (clk 6) (the (s_peer ?d3)) (the (s_binding ?d3)) ?d3 of
              (Inl e, _) \<Rightarrow> None | (Inr _, d') \<Rightarrow> Some d')
      else Some ?d3) = Some d4"
    using young by (simp add: d4_def approve_ok)
  have "\<exists>p' d' t' u'. Option.bind
      (pass_frame (write_confirmation sn (clk 7)) (read_confirmation sn (clk 8)) d4 ?p3)
      (\<lambda>(d, p). pass_frame (write_confirmation sn (clk 9)) (read_confirmation sn (clk 10)) p d)
        = Some (p', d')
    \<and> s_phase p' = Ready \<and> s_phase d' = Ready
    \<and> s_transport p' = Some t' \<and> s_transport d' = Some u' \<and> link t' [] u'
    \<and> s_binding p' = Some h \<and> s_binding d' = Some h
    \<and> s_peer p' = s_peer ?p3 \<and> s_peer d' = s_peer d4"
    using assms(1) transport_sym [OF assms(1) l(1)]
    by (rule confirmations) (use p d l(2) assms(8) in \<open>simp_all add: d4_def\<close>)
  then show ?thesis
    using m m3 approve l(2) unfolding connect_def
    by (auto simp: is_ready_def d4_def split: if_splits)
qed

theorem connection_becomes_ready_witness:
  "\<exists>p' d'. connect toy (\<lambda>_. 5) (toy_session True 9 (Some (replicate 32 8))) (toy_session False 8 None)
      = Some (p', d') \<and> is_ready p' \<and> is_ready d'"
proof -
  have id: "length (id_public (toy_id b)) = 32" "id_public (toy_id b) = replicate 32 b" for b
    by (simp_all add: toy_id_def)
  have p: "session_new toy 0 (toy_id 9) (replicate 32 5) (replicate 16 3) True
      (Some (id_public (toy_id 8))) = Inr (toy_session True 9 (Some (replicate 32 8)))"
    by (simp add: id toy_session_new)
  have d: "session_new toy 0 (toy_id 8) (replicate 32 5) (replicate 16 3) False None =
      Inr (toy_session False 8 None)"
    by (simp add: toy_session_new)
  have "\<forall>k::nat. (5::nat) - 0 < HANDSHAKE_AGE \<and> (5::nat) - 0 < HANDSHAKE_AGE"
    by (simp add: HANDSHAKE_AGE_def secs_def)
  from connection_becomes_ready [where clk = "\<lambda>_. 5", OF toy_transport_law toy_handshake_law
      p d disjI1 [OF refl] id(1) id(1) this]
  show ?thesis by blast
qed

text \<open>C4: a record of 1 byte to 1 MiB sealed by one ready session and opened frame by frame by
  the other, within thirty seconds, comes out unchanged and exactly once; both sides agree on
  the next record number, the receiver stays ready and the transports stay joined.\<close>

theorem sealed_record_opens:
  assumes "transport_law sn link" and "link t [] u"
    and a: "session_inv a" "is_ready a" "s_transport a = Some t" "\<not> expired now (s_incoming a)"
      "now - s_created a < MAX_AGE"
    and b: "session_inv b" "is_ready b" "s_transport b = Some u"
      "asm_partial (s_incoming b) = []" "asm_record (s_incoming b) = s_outgoing_record a"
    and pt: "plaintext \<noteq> []" "length plaintext \<le> MAX_RECORD"
    and cs: "cs = record_contents (s_outgoing_record a) plaintext"
      "s_sent_messages a + length cs \<le> MAX_MESSAGES"
      "s_sent_bytes a + length (concat cs) \<le> MAX_BYTES"
      "s_received_messages b + length cs \<le> MAX_MESSAGES"
      "s_received_bytes b + length (concat cs) \<le> MAX_BYTES"
    and clk: "length clk = length cs" "\<forall>i\<in>set clk. i - hd clk < secs 30"
      "\<forall>i\<in>set clk. i - s_created b < MAX_AGE"
  shows "\<exists>frames a' b' t' u'. seal_record sn now plaintext a = (Inr frames, a')
    \<and> open_all sn (zip clk frames) b = (Inr [plaintext], b')
    \<and> is_ready b' \<and> s_outgoing_record a' = s_outgoing_record a + 1
    \<and> asm_record (s_incoming b') = s_outgoing_record a' \<and> asm_partial (s_incoming b') = []
    \<and> s_transport a' = Some t' \<and> s_transport b' = Some u' \<and> link t' [] u'"
proof -
  have num: "Suc (s_outgoing_record a) < 2 ^ 64"
    using a(1) by (simp add: session_inv_def budget_inv_def limits)
  have sizes: "\<forall>p\<in>set cs. length p + 16 \<le> MAX_FRAME"
    using cs(1) record_contents_frame_size by blast
  obtain gs t' where e: "encrypt_all sn cs a = (Inr gs, a\<lparr>s_transport := Some t',
      s_sent_messages := s_sent_messages a + length cs,
      s_sent_bytes := s_sent_bytes a + length (concat cs)\<rparr>)"
      and gs: "length gs = length cs" "link t' (zip gs cs) u"
    using encrypt_all_link [OF assms(1,2) a(3) sizes cs(2,3)] by auto
  define a' where "a' = a\<lparr>s_transport := Some t', s_sent_messages := s_sent_messages a + length cs,
      s_sent_bytes := s_sent_bytes a + length (concat cs),
      s_outgoing_record := s_outgoing_record a + 1\<rparr>"
  have "seal_record_body sn plaintext a = (Inr gs, a')"
    using a(2) pt cs(1) e num by (simp add: seal_record_body_def a'_def split: option.split)
  then have seal: "seal_record sn now plaintext a = (Inr gs, a')"
    unfolding seal_record_def using a by (intro checked_at_run) (simp_all add: is_closed_def is_ready_def)
  have "asm_inv (s_incoming b)" using b(1) by (simp add: session_inv_def)
  then have "feed (zip clk cs) (s_incoming b) =
      (Inr [plaintext], (s_incoming b)\<lparr>asm_record := Suc (asm_record (s_incoming b))\<rparr>)"
    using feed_record [of "s_incoming b" plaintext clk] b(4,5) num pt clk cs(1) by simp
  from open_all_link [OF assms(1) gs(2) b(3) gs(1) clk(1) sizes cs(4,5) b(2) clk(3) this]
  obtain u' where "open_all sn (zip clk gs) b = (Inr [plaintext], b\<lparr>s_transport := Some u',
      s_received_messages := s_received_messages b + length cs,
      s_received_bytes := s_received_bytes b + length (concat cs),
      s_incoming := (s_incoming b)\<lparr>asm_record := Suc (asm_record (s_incoming b))\<rparr>\<rparr>)"
      and "link t' [] u'" by blast
  then show ?thesis
    using seal b by (intro exI [of _ gs] exI [of _ a'] exI) (auto simp: a'_def is_ready_def)
qed

definition toy_ready :: "bool \<Rightarrow> (toy_h, toy_t) session" where
  "toy_ready phone = (toy_session phone 9 (Some (replicate 32 8)))
     \<lparr>s_handshake := None, s_transport := Some (0, 0), s_phase := Ready,
      s_peer := Some (replicate 32 8), s_binding := Some (replicate 32 7)\<rparr>"

lemma toy_ready_inv: "session_inv (toy_ready phone)" "is_ready (toy_ready phone)"
  by (simp_all add: toy_ready_def toy_session_def session_inv_def established_def budget_inv_def
      asm_inv_default is_ready_def)

theorem sealed_record_opens_witness:
  "\<exists>frames a' b'. seal_record toy 3 [1, 2] (toy_ready True) = (Inr frames, a')
    \<and> open_all toy (zip [4] frames) (toy_ready False) = (Inr [[1, 2]], b')"
proof -
  have cs: "record_contents 0 [1, 2] = [chunk_contents 0 2 0 [1, 2]]"
    by (simp add: record_contents_frames frames_from_nonempty limits numeral_2_eq_2)
  have link: "toy_link (0, 0) [] (0, 0)" by (simp add: toy_link_def)
  show ?thesis
    using sealed_record_opens [OF toy_transport_law link toy_ready_inv _ _ _ toy_ready_inv,
        of True 3 False "[1, 2]" "record_contents 0 [1, 2]" "[4]"] cs
    by (auto simp: toy_ready_def toy_session_def assembler_default_def expired_def MAX_AGE_def
        secs_def limits)
qed

end
