(* ===== verification/Stores.thy ===== *)
theory Stores
  imports Prelude "HOL-Library.AList"
begin

text \<open>
  The keyed collections of the program (\<open>HashMap\<close>, \<open>BTreeMap\<close>, and the rows of a table with
  a primary key) as association lists with distinct keys. The locale states the interface
  the components use them through, with the lemmas every client needs; the interpretation
  at the end discharges it for the association lists.
\<close>

section \<open>The interface\<close>

locale key_store =
  fixes get :: "'m \<Rightarrow> 'k \<Rightarrow> 'v option"
    and put :: "'k \<Rightarrow> 'v \<Rightarrow> 'm \<Rightarrow> 'm"
    and del :: "'k \<Rightarrow> 'm \<Rightarrow> 'm"
    and count :: "'m \<Rightarrow> nat"
    and valid :: "'m \<Rightarrow> bool"
  assumes get_put: "get (put k v m) k' = (if k' = k then Some v else get m k')"
    and get_del: "valid m \<Longrightarrow> get (del k m) k' = (if k' = k then None else get m k')"
    and valid_put: "valid m \<Longrightarrow> valid (put k v m)"
    and valid_del: "valid m \<Longrightarrow> valid (del k m)"
    and count_put: "valid m \<Longrightarrow> count (put k v m) = (if get m k = None then Suc (count m) else count m)"
    and count_del: "valid m \<Longrightarrow> count (del k m) = (if get m k = None then count m else count m - 1)"
begin

lemma get_put_same: "get (put k v m) k = Some v"
  by (simp add: get_put)

lemma get_put_other: "k' \<noteq> k \<Longrightarrow> get (put k v m) k' = get m k'"
  by (simp add: get_put)

lemma get_del_same: "valid m \<Longrightarrow> get (del k m) k = None"
  by (simp add: get_del)

lemma get_del_other: "valid m \<Longrightarrow> k' \<noteq> k \<Longrightarrow> get (del k m) k' = get m k'"
  by (simp add: get_del)

lemma get_del_SomeD: "valid m \<Longrightarrow> get (del k m) k' = Some v \<Longrightarrow> k' \<noteq> k \<and> get m k' = Some v"
  by (simp add: get_del split: if_splits)

lemma count_del_le: "valid m \<Longrightarrow> count (del k m) \<le> count m"
  by (simp add: count_del)

lemma count_put_le: "valid m \<Longrightarrow> count (put k v m) \<le> Suc (count m)"
  by (simp add: count_put)

lemma put_all:
  "(\<And>k' v'. get m k' = Some v' \<Longrightarrow> P k' v') \<Longrightarrow> P k v
    \<Longrightarrow> get (put k v m) k' = Some v' \<Longrightarrow> P k' v'"
  by (simp add: get_put split: if_splits)

end

section \<open>Association lists\<close>

type_synonym ('k, 'v) store = "('k \<times> 'v) list"

definition store_get :: "('k, 'v) store \<Rightarrow> 'k \<Rightarrow> 'v option" where
  "store_get m k = map_of m k"

definition store_put :: "'k \<Rightarrow> 'v \<Rightarrow> ('k, 'v) store \<Rightarrow> ('k, 'v) store" where
  "store_put k v m = AList.update k v m"

definition store_del :: "'k \<Rightarrow> ('k, 'v) store \<Rightarrow> ('k, 'v) store" where
  "store_del k m = AList.delete k m"

definition store_valid :: "('k, 'v) store \<Rightarrow> bool" where
  "store_valid m \<longleftrightarrow> distinct (map fst m)"

lemmas store_defs = store_get_def store_put_def store_del_def

lemma length_store_put:
  "length (AList.update k v m) = (if map_of m k = None then Suc (length m) else length m)"
  by (induction m) auto

lemma length_store_del:
  "distinct (map fst m) \<Longrightarrow>
    length (AList.delete k m) = (if map_of m k = None then length m else length m - 1)"
proof (induction m)
  case Nil
  then show ?case by simp
next
  case (Cons e m)
  obtain a b where e: "e = (a, b)" by (cases e)
  show ?case
  proof (cases "a = k")
    case True
    then have "k \<notin> fst ` set m" using Cons.prems e by simp
    then have "AList.delete k m = m" by (rule delete_id)
    with True e show ?thesis by simp
  next
    case False
    with Cons e have "length (AList.delete k m) =
        (if map_of m k = None then length m else length m - 1)" by simp
    moreover have "map_of m k \<noteq> None \<Longrightarrow> 0 < length m" by (cases m) auto
    ultimately show ?thesis using False e by auto
  qed
qed

interpretation kv: key_store store_get store_put store_del length store_valid
proof
  show "store_get (store_put k v m) k' = (if k' = k then Some v else store_get m k')"
    for k k' :: 'a and v :: 'b and m
    by (simp add: store_defs update_conv')
  show "store_get (store_del k m) k' = (if k' = k then None else store_get m k')"
    if "store_valid m" for k k' :: 'a and m :: "('a \<times> 'b) list"
    by (simp add: store_defs delete_conv)
  show "store_valid (store_put k v m)" if "store_valid m" for k and v :: 'b and m :: "('a \<times> 'b) list"
    using that by (simp add: store_valid_def store_put_def distinct_update)
  show "store_valid (store_del k m)" if "store_valid m" for k and m :: "('a \<times> 'b) list"
    using that by (simp add: store_valid_def store_del_def distinct_delete)
  show "length (store_put k v m) = (if store_get m k = None then Suc (length m) else length m)"
    if "store_valid m" for k and v :: 'b and m :: "('a \<times> 'b) list"
    by (simp add: store_defs length_store_put)
  show "length (store_del k m) = (if store_get m k = None then length m else length m - 1)"
    if "store_valid m" for k and m :: "('a \<times> 'b) list"
    using that by (simp add: store_defs length_store_del store_valid_def)
qed

lemma store_empty [simp]: "store_get [] k = None" "store_valid []"
  by (simp_all add: store_get_def store_valid_def)

lemma store_get_in_set: "store_get m k = Some v \<Longrightarrow> (k, v) \<in> set m"
  by (simp add: store_get_def map_of_SomeD)

lemma in_set_store_get: "store_valid m \<Longrightarrow> (k, v) \<in> set m \<Longrightarrow> store_get m k = Some v"
  by (simp add: store_get_def store_valid_def)

end
