(* ===== verification/Registry.thy ===== *)
theory Registry
  imports Stores Records
begin

text \<open>
  shared/secure-channel-jni/src/registry.rs and the \<open>boundary\<close> of bridge.rs: the table of
  sessions the Android side holds by integer handle. A closure that Rust runs under
  \<open>catch_unwind\<close> is a function whose outcome may be a panic; it threads the environment it
  captures (\<open>'e\<close>, the JNI environment in bridge.rs). The lemmas show that a handle is issued
  once, that at most 32 sessions live, and that a failed operation retires its handle.
\<close>

datatype jni_error =
  InvalidHandle | Capacity | InvalidInput_jni | Engine error | Jni | Internal

datatype 'a outcome = Returned 'a | Panicked

definition MAX_SESSIONS :: nat where [limits]: "MAX_SESSIONS = 32"

record 's registry =
  reg_next :: int
  reg_sessions :: "(int, 's) store"

definition registry_new :: "'s registry" where
  "registry_new = \<lparr>reg_next = 1, reg_sessions = []\<rparr>"

text \<open>\<open>checked_add(1).unwrap_or(0)\<close> on a 64-bit signed integer.\<close>

definition next_handle :: "int \<Rightarrow> int" where
  "next_handle n = (if n + 1 < 2 ^ 63 then n + 1 else 0)"

definition insert_with ::
  "(jni_error + 's) outcome \<Rightarrow> 's registry \<Rightarrow> (jni_error + int) \<times> 's registry" where
  "insert_with create r =
     (if MAX_SESSIONS \<le> length (reg_sessions r) \<or> reg_next r \<le> 0 then (Inl Capacity, r)
      else case create of
             Panicked \<Rightarrow> (Inl Internal, r)
           | Returned (Inl e) \<Rightarrow> (Inl e, r)
           | Returned (Inr s) \<Rightarrow>
               (Inr (reg_next r),
                r\<lparr>reg_next := next_handle (reg_next r),
                  reg_sessions := store_put (reg_next r) s (reg_sessions r)\<rparr>))"

type_synonym ('e, 's, 'a) closure = "'e \<Rightarrow> 's \<Rightarrow> (jni_error + 'a) outcome \<times> 's \<times> 'e"

definition with_session ::
  "int \<Rightarrow> ('e, 's, 'a) closure \<Rightarrow> 'e \<Rightarrow> 's registry \<Rightarrow> (jni_error + 'a) \<times> 's registry \<times> 'e" where
  "with_session handle operation e r =
     (case store_get (reg_sessions r) handle of
        None \<Rightarrow> (Inl InvalidHandle, r, e)
      | Some s \<Rightarrow>
          (case operation e s of
             (Returned (Inr x), s', e') \<Rightarrow>
               (Inr x, r\<lparr>reg_sessions := store_put handle s' (reg_sessions r)\<rparr>, e')
           | (Returned (Inl err), s', e') \<Rightarrow>
               (Inl err, r\<lparr>reg_sessions := store_del handle (reg_sessions r)\<rparr>, e')
           | (Panicked, s', e') \<Rightarrow>
               (Inl Internal, r\<lparr>reg_sessions := store_del handle (reg_sessions r)\<rparr>, e')))"

definition registry_close :: "int \<Rightarrow> 's registry \<Rightarrow> 's registry" where
  "registry_close handle r = r\<lparr>reg_sessions := store_del handle (reg_sessions r)\<rparr>"

definition close_all :: "'s registry \<Rightarrow> 's registry" where
  "close_all r = r\<lparr>reg_sessions := []\<rparr>"

section \<open>The boundary\<close>

text \<open>
  The global registry behind its mutex: a panic while the lock is held poisons it, and a
  poisoned lock fails every \<open>lock()\<close>. The result is the value handed to Java (\<open>None\<close> stands
  for \<open>T::default()\<close>) with the exception that is thrown on failure.
\<close>

record 's shared_registry =
  sh_registry :: "'s registry"
  sh_poisoned :: bool

type_synonym ('e, 's, 'a) jni_body =
  "'e \<Rightarrow> 's registry \<Rightarrow> (jni_error + 'a) outcome \<times> 's registry \<times> 'e"

definition session_body :: "int \<Rightarrow> ('e, 's, 'a) closure \<Rightarrow> ('e, 's, 'a) jni_body" where
  "session_body handle operation e r =
     (case with_session handle operation e r of (q, r', e') \<Rightarrow> (Returned q, r', e'))"

definition boundary_result ::
  "('e, 's, 'a) jni_body \<Rightarrow> 'e \<Rightarrow> 's shared_registry \<Rightarrow> (jni_error + 'a) \<times> 's shared_registry \<times> 'e" where
  "boundary_result op e g =
     (if sh_poisoned g then (Inl Internal, g, e)
      else case op e (sh_registry g) of
             (Returned r, reg, e') \<Rightarrow> (r, g\<lparr>sh_registry := reg\<rparr>, e')
           | (Panicked, reg, e') \<Rightarrow> (Inl Internal, g\<lparr>sh_registry := reg, sh_poisoned := True\<rparr>, e'))"

definition boundary ::
  "('e \<Rightarrow> 'e) \<Rightarrow> int option \<Rightarrow> ('e, 's, 'a) jni_body \<Rightarrow> 'e \<Rightarrow> 's shared_registry
     \<Rightarrow> 'a option \<times> 's shared_registry \<times> 'e" where
  "boundary throw handle op e g =
     (case boundary_result op e g of
        (Inr x, g', e') \<Rightarrow> (Some x, g', e')
      | (Inl err, g', e') \<Rightarrow>
          (None,
           (if sh_poisoned g' then g'\<lparr>sh_registry := close_all (sh_registry g')\<rparr>
            else case handle of
                   None \<Rightarrow> g'
                 | Some h \<Rightarrow> g'\<lparr>sh_registry := registry_close h (sh_registry g')\<rparr>),
           throw e'))"

section \<open>The invariant\<close>

text \<open>Live handles are positive and below the next one, or the handles have run out.\<close>

definition registry_inv :: "'s registry \<Rightarrow> bool" where
  "registry_inv r \<longleftrightarrow> store_valid (reg_sessions r) \<and> length (reg_sessions r) \<le> MAX_SESSIONS
     \<and> 0 \<le> reg_next r \<and> reg_next r < 2 ^ 63
     \<and> (\<forall>h s. store_get (reg_sessions r) h = Some s \<longrightarrow>
          0 < h \<and> h < 2 ^ 63 \<and> (reg_next r \<noteq> 0 \<longrightarrow> h < reg_next r))"

lemma registry_new_inv: "registry_inv registry_new"
  by (simp add: registry_inv_def registry_new_def)

lemma insert_with_inv:
  assumes "registry_inv r"
  shows "registry_inv (snd (insert_with create r))"
proof (cases create)
  case (Returned q)
  show ?thesis
  proof (cases q)
    case (Inr s)
    have "length (store_put (reg_next r) s (reg_sessions r)) \<le> MAX_SESSIONS"
      if "length (reg_sessions r) < MAX_SESSIONS"
      using kv.count_put_le [of "reg_sessions r" "reg_next r" s] assms that
      by (simp add: registry_inv_def)
    with assms Returned Inr show ?thesis
      by (force simp: insert_with_def registry_inv_def next_handle_def kv.valid_put kv.get_put)
  qed (use assms Returned in \<open>simp add: insert_with_def\<close>)
qed (use assms in \<open>simp add: insert_with_def\<close>)

lemma del_session_inv:
  assumes "registry_inv r"
  shows "registry_inv (r\<lparr>reg_sessions := store_del h (reg_sessions r)\<rparr>)"
  using assms kv.count_del_le [of "reg_sessions r" h]
  by (auto simp: registry_inv_def kv.valid_del kv.get_del split: if_splits)

lemma put_session_inv:
  assumes "registry_inv r" and "store_get (reg_sessions r) h = Some s"
  shows "registry_inv (r\<lparr>reg_sessions := store_put h s' (reg_sessions r)\<rparr>)"
  using assms by (auto simp: registry_inv_def kv.valid_put kv.get_put kv.count_put split: if_splits)

lemma with_session_inv:
  assumes "registry_inv r"
  shows "registry_inv (fst (snd (with_session h op e r)))"
  using assms del_session_inv [OF assms] put_session_inv [OF assms]
  by (auto simp: with_session_def split: option.splits prod.splits outcome.splits sum.splits)

lemma session_body_inv:
  "registry_inv r \<Longrightarrow> registry_inv (fst (snd (session_body h op e r)))"
  using with_session_inv [of r h op e] by (auto simp: session_body_def split: prod.split)

section \<open>Runs\<close>

datatype ('e, 's, 'a) registry_call =
  Create "(jni_error + 's) outcome" | Use int "('e, 's, 'a) closure" | CloseOne int | CloseEvery

text \<open>A sequence of calls, with the handles it issued in order.\<close>

fun registry_run ::
  "('e, 's, 'a) registry_call list \<Rightarrow> 'e \<Rightarrow> 's registry \<Rightarrow> int list \<times> 's registry \<times> 'e" where
  "registry_run [] e r = ([], r, e)"
| "registry_run (Create c # cs) e r =
     (case insert_with c r of
        (Inl _, r') \<Rightarrow> registry_run cs e r'
      | (Inr h, r') \<Rightarrow> (case registry_run cs e r' of (hs, q) \<Rightarrow> (h # hs, q)))"
| "registry_run (Use h op # cs) e r =
     (case with_session h op e r of (_, r', e') \<Rightarrow> registry_run cs e' r')"
| "registry_run (CloseOne h # cs) e r = registry_run cs e (registry_close h r)"
| "registry_run (CloseEvery # cs) e r = registry_run cs e (close_all r)"

text \<open>The handles still to be issued: from the next one on, or none.\<close>

definition fresh_handle :: "'s registry \<Rightarrow> int \<Rightarrow> bool" where
  "fresh_handle r h \<longleftrightarrow> 0 < reg_next r \<and> reg_next r \<le> h \<and> h < 2 ^ 63"

lemma insert_with_handle:
  assumes "registry_inv r" and "insert_with c r = (Inr h, r')"
  shows "fresh_handle r h" "\<not> fresh_handle r' h" "fresh_handle r' k \<Longrightarrow> fresh_handle r k"
  using assms
  by (auto simp: insert_with_def fresh_handle_def registry_inv_def next_handle_def
      split: if_splits outcome.splits sum.splits)

lemma insert_with_error: "insert_with c r = (Inl err, r') \<Longrightarrow> r' = r"
  by (auto simp: insert_with_def split: if_splits outcome.splits sum.splits)

lemma with_session_next:
  "with_session h op e r = (q, r', e') \<Longrightarrow> reg_next r' = reg_next r"
  by (auto simp: with_session_def split: option.splits prod.splits outcome.splits sum.splits)

lemma close_all_inv: "registry_inv r \<Longrightarrow> registry_inv (close_all r)"
  by (simp add: registry_inv_def close_all_def)

lemma registry_close_inv: "registry_inv r \<Longrightarrow> registry_inv (registry_close h r)"
  by (simp add: registry_close_def del_session_inv)

lemmas registry_invs =
  insert_with_inv with_session_inv close_all_inv registry_close_inv

lemma registry_run_handles:
  assumes "registry_inv r" and "registry_run cs e r = (hs, r', e')"
  shows "registry_inv r' \<and> distinct hs \<and> (\<forall>h\<in>set hs. fresh_handle r h)
    \<and> (\<forall>h. fresh_handle r' h \<longrightarrow> fresh_handle r h \<and> h \<notin> set hs)
    \<and> (\<forall>h. store_get (reg_sessions r) h = None \<and> \<not> fresh_handle r h \<longrightarrow>
         store_get (reg_sessions r') h = None)
    \<and> (\<forall>h. store_get (reg_sessions r') h \<noteq> None \<longrightarrow>
         h \<in> set hs \<or> store_get (reg_sessions r) h \<noteq> None)"
  using assms
proof (induction cs arbitrary: e r hs)
  case Nil
  then show ?case by simp
next
  case (Cons c cs)
  show ?case
  proof (cases c)
    case (Create q)
    obtain res r1 where i: "insert_with q r = (res, r1)" by (cases "insert_with q r")
    have inv: "registry_inv r1" using insert_with_inv [OF Cons.prems(1), of q] i by simp
    show ?thesis
    proof (cases res)
      case (Inl err)
      with Cons.prems Create i Cons.IH [of r e hs] insert_with_error [of q r err r1] show ?thesis
        by simp
    next
      case (Inr h)
      then obtain hs1 where hs: "hs = h # hs1" "registry_run cs e r1 = (hs1, r', e')"
        using Cons.prems(2) Create i by (auto split: prod.splits)
      have get: "store_get (reg_sessions r1) k = None \<longleftrightarrow>
          store_get (reg_sessions r) k = None \<and> k \<noteq> h" for k
        using i Inr by (auto simp: insert_with_def kv.get_put split: if_splits outcome.splits sum.splits)
      note fresh = insert_with_handle [OF Cons.prems(1) i [unfolded Inr]]
      show ?thesis
        using Cons.IH [OF inv hs(2)] fresh get hs(1) by auto
    qed
  next
    case (Use h op)
    obtain res r1 e1 where w: "with_session h op e r = (res, r1, e1)"
      by (cases "with_session h op e r")
    have inv: "registry_inv r1" using with_session_inv [OF Cons.prems(1), of h op e] w by simp
    have "fresh_handle r1 k = fresh_handle r k" for k
      using with_session_next [OF w] by (simp add: fresh_handle_def)
    moreover have "store_get (reg_sessions r1) k = None" if "store_get (reg_sessions r) k = None" for k
      using w that Cons.prems(1)
      by (auto simp: with_session_def registry_inv_def kv.get_put kv.get_del
          split: option.splits prod.splits outcome.splits sum.splits)
    moreover have "registry_run cs e1 r1 = (hs, r', e')" using Cons.prems(2) Use w by simp
    ultimately show ?thesis
      using Cons.IH [OF inv, of e1 hs] by blast
  next
    case (CloseOne h)
    have "store_get (reg_sessions (registry_close h r)) k = None"
      if "store_get (reg_sessions r) k = None" for k
      using that Cons.prems(1) by (auto simp: registry_close_def registry_inv_def kv.get_del)
    moreover have "fresh_handle (registry_close h r) k = fresh_handle r k" for k
      by (simp add: fresh_handle_def registry_close_def)
    moreover have "registry_run cs e (registry_close h r) = (hs, r', e')"
      using Cons.prems(2) CloseOne by simp
    ultimately show ?thesis
      using Cons.IH [OF registry_close_inv [OF Cons.prems(1), of h]] by blast
  next
    case CloseEvery
    then have "registry_run cs e (close_all r) = (hs, r', e')" using Cons.prems(2) by simp
    moreover have "fresh_handle (close_all r) k = fresh_handle r k"
        "store_get (reg_sessions (close_all r)) k = None" for k
      by (simp_all add: fresh_handle_def close_all_def)
    ultimately show ?thesis
      using Cons.IH [OF close_all_inv [OF Cons.prems(1)], of e hs] by blast
  qed
qed

section \<open>Properties\<close>

text \<open>C10: over any sequence of creations, operations and closings of a new registry no handle
  is issued twice, at most 32 sessions live, every live handle was issued, and a handle that
  died stays dead in every continuation.\<close>

theorem handles_never_reused:
  fixes r :: "'s registry"
  assumes "registry_run cs e registry_new = (hs, r, e1)"
    and "registry_run ds e1 r = (hs', r', e2)"
  shows "distinct (hs @ hs') \<and> length (reg_sessions r') \<le> MAX_SESSIONS
    \<and> (\<forall>h. store_get (reg_sessions r) h \<noteq> None \<longrightarrow> h \<in> set hs)
    \<and> (\<forall>h\<in>set hs. store_get (reg_sessions r) h = None \<longrightarrow> store_get (reg_sessions r') h = None)"
proof -
  note one = registry_run_handles [OF registry_new_inv assms(1)]
  then have two: "registry_inv r" by blast
  note two = registry_run_handles [OF two assms(2)]
  have "set hs \<inter> set hs' = {}" using one two by blast
  moreover have "length (reg_sessions r') \<le> MAX_SESSIONS"
    using two by (simp add: registry_inv_def)
  moreover have "store_get (reg_sessions (registry_new :: 's registry)) h = None" for h
    by (simp add: registry_new_def)
  ultimately show ?thesis using one two by auto
qed

theorem handles_never_reused_witness:
  "distinct ([1] @ [2 :: int]) \<and> length [(2 :: int, True)] \<le> MAX_SESSIONS"
  using handles_never_reused
      [of "[Create (Returned (Inr True)), Use 1 (\<lambda>e s. (Returned (Inl Jni :: jni_error + unit), s, e))]"
        "()" "[1]" "\<lparr>reg_next = 2, reg_sessions = []\<rparr>" "()"
        "[Create (Returned (Inr True))]" "[2]" "\<lparr>reg_next = 3, reg_sessions = [(2, True)]\<rparr>" "()"]
  by (simp add: insert_with_def with_session_def registry_new_def next_handle_def store_defs limits)

text \<open>C11: a Java call through the boundary that does not return a value has retired its handle
  (all of them when the lock is poisoned) and thrown; one that returns a value ran on a lock
  that was not poisoned, threw nothing and leaves the registry to its body.\<close>

theorem boundary_failure_retires:
  assumes "registry_inv (sh_registry g)"
    and "\<And>e r. registry_inv r \<Longrightarrow> registry_inv (fst (snd (op e r)))"
    and "boundary throw (Some h) op e g = (res, g', e')"
  shows "registry_inv (sh_registry g')
    \<and> (res = None \<longrightarrow> store_get (reg_sessions (sh_registry g')) h = None
        \<and> (sh_poisoned g' \<longrightarrow> reg_sessions (sh_registry g') = []) \<and> (\<exists>e1. e' = throw e1))
    \<and> (\<forall>x. res = Some x \<longrightarrow> \<not> sh_poisoned g \<and> \<not> sh_poisoned g'
        \<and> op e (sh_registry g) = (Returned (Inr x), sh_registry g', e'))"
proof -
  obtain q g1 e1 where b: "boundary_result op e g = (q, g1, e1)"
    by (cases "boundary_result op e g")
  have inv: "registry_inv (sh_registry g1)"
    using b assms(1) assms(2) [OF assms(1), of e]
    by (auto simp: boundary_result_def split: if_splits prod.splits outcome.splits)
  show ?thesis
  proof (cases q)
    case (Inl err)
    have "store_get (reg_sessions (registry_close h (sh_registry g1))) h = None"
      using inv by (simp add: registry_close_def registry_inv_def kv.get_del_same)
    then show ?thesis
      using assms(3) b Inl inv registry_close_inv [OF inv, of h] close_all_inv [OF inv]
      by (auto simp: boundary_def close_all_def split: if_splits)
  next
    case (Inr x)
    have "\<not> sh_poisoned g" "\<not> sh_poisoned g1"
        "op e (sh_registry g) = (Returned (Inr x), sh_registry g1, e1)"
      using b Inr by (auto simp: boundary_result_def split: if_splits prod.splits outcome.splits)
    then show ?thesis using assms(3) b Inr inv by (auto simp: boundary_def)
  qed
qed

definition failing_use :: "(unit, bool, unit) jni_body" where
  "failing_use = session_body 1 (\<lambda>e s. (Returned (Inl Jni), s, e))"

theorem boundary_failure_retires_witness:
  "store_get (reg_sessions (sh_registry (fst (snd (boundary (\<lambda>e. e) (Some 1) failing_use ()
      \<lparr>sh_registry = \<lparr>reg_next = 2, reg_sessions = [(1, True)]\<rparr>, sh_poisoned = False\<rparr>))))) 1 = None"
proof -
  have keep: "registry_inv r \<Longrightarrow> registry_inv (fst (snd (failing_use e r)))" for e r
    by (simp add: failing_use_def session_body_inv)
  have inv: "registry_inv \<lparr>reg_next = 2, reg_sessions = [(1, True)]\<rparr>"
    by (simp add: registry_inv_def store_get_def store_valid_def limits)
  obtain res g' e' where eq: "boundary (\<lambda>e. e) (Some 1) failing_use ()
      \<lparr>sh_registry = \<lparr>reg_next = 2, reg_sessions = [(1, True)]\<rparr>, sh_poisoned = False\<rparr> = (res, g', e')"
    by (rule prod_cases3)
  then have "res = None"
    by (auto simp: boundary_def boundary_result_def failing_use_def session_body_def
        with_session_def store_defs)
  then show ?thesis
    using boundary_failure_retires [OF _ keep eq] inv eq by simp
qed

end
