(* ===== verification/Bridge.thy ===== *)
theory Bridge
  imports Registry Session_Safety
begin

text \<open>
  shared/secure-channel-jni/src/bridge.rs: the functions Java calls. The Java virtual machine
  is not part of the repository; what the bridge uses of it is an environment of byte arrays
  by reference (0 is null), of object arrays, a pending exception, and a script that says
  for each JNI call whether it succeeds (an exhausted script means success). The lemmas show
  that the caller's secrets are wiped whatever becomes of the session.
\<close>

record jenv =
  je_arrays :: "(nat, bytes) store"
  je_objects :: "(nat, nat list) store"
  je_next :: nat
  je_script :: "bool list"
  je_exception :: bool

definition jni_call :: "jenv \<Rightarrow> bool \<times> jenv" where
  "jni_call e = (case je_script e of [] \<Rightarrow> (True, e) | ok # rest \<Rightarrow> (ok, e\<lparr>je_script := rest\<rparr>))"

definition array_of :: "jenv \<Rightarrow> nat \<Rightarrow> bytes" where
  "array_of e a = (case store_get (je_arrays e) a of None \<Rightarrow> [] | Some bs \<Rightarrow> bs)"

definition validate_length :: "nat \<Rightarrow> nat \<Rightarrow> nat \<Rightarrow> jni_error + unit" where
  "validate_length n lo hi = (if lo \<le> n \<and> n \<le> hi then Inr () else Inl InvalidInput_jni)"

text \<open>\<open>bytes\<close> of bridge.rs: a bounded copy of a Java array.\<close>

definition jni_bytes :: "nat \<Rightarrow> nat \<Rightarrow> nat \<Rightarrow> jenv \<Rightarrow> (jni_error + bytes) \<times> jenv" where
  "jni_bytes a lo hi e =
     (if a = 0 then (Inl InvalidInput_jni, e)
      else case jni_call e of
             (False, e1) \<Rightarrow> (Inl Jni, e1)
           | (True, e1) \<Rightarrow>
               (case validate_length (length (array_of e1 a)) lo hi of
                  Inl err \<Rightarrow> (Inl err, e1)
                | Inr _ \<Rightarrow>
                    (case jni_call e1 of
                       (False, e2) \<Rightarrow> (Inl Jni, e2)
                     | (True, e2) \<Rightarrow> (Inr (array_of e2 a), e2))))"

definition jni_output :: "bytes \<Rightarrow> jenv \<Rightarrow> (jni_error + nat) \<times> jenv" where
  "jni_output v e =
     (case jni_call e of
        (False, e1) \<Rightarrow> (Inl Jni, e1)
      | (True, e1) \<Rightarrow>
          (Inr (je_next e1),
           e1\<lparr>je_next := Suc (je_next e1), je_arrays := store_put (je_next e1) v (je_arrays e1)\<rparr>))"

text \<open>The loop of \<open>wipe\<close>: regions of at most 256 zeros from \<open>offset\<close> to the end.\<close>

function wipe_from :: "nat \<Rightarrow> nat \<Rightarrow> nat \<Rightarrow> jenv \<Rightarrow> (jni_error + unit) \<times> jenv" where
  "wipe_from a offset n e =
     (if n \<le> offset then (Inr (), e)
      else
        let cnt = min (n - offset) 256
        in case jni_call e of
             (False, e1) \<Rightarrow> (Inl Jni, e1)
           | (True, e1) \<Rightarrow>
               let old = array_of e1 a;
                   new = take offset old @ replicate cnt 0 @ drop (offset + cnt) old
               in wipe_from a (offset + cnt) n (e1\<lparr>je_arrays := store_put a new (je_arrays e1)\<rparr>))"
  by pat_completeness auto
termination
  by (relation "measure (\<lambda>(a, offset, n, e). n - offset)") auto

declare wipe_from.simps [simp del]

definition wipe :: "nat \<Rightarrow> jenv \<Rightarrow> (jni_error + unit) \<times> jenv" where
  "wipe a e =
     (if a = 0 then (Inl InvalidInput_jni, e)
      else case jni_call e of
             (False, e1) \<Rightarrow> (Inl Jni, e1)
           | (True, e1) \<Rightarrow> wipe_from a 0 (length (array_of e1 a)) e1)"

text \<open>The end of \<open>boundary\<close>: throw, unless the machine already has an exception.\<close>

definition throw_failure :: "jenv \<Rightarrow> jenv" where
  "throw_failure e =
     (case jni_call e of
        (False, e1) \<Rightarrow> e1
      | (True, e1) \<Rightarrow>
          (if je_exception e1 then e1
           else (case jni_call e1 of
                   (False, e2) \<Rightarrow> e2
                 | (True, e2) \<Rightarrow> e2\<lparr>je_exception := True\<rparr>)))"

section \<open>createPhone\<close>

definition create_phone_session ::
  "('h, 't) snow \<Rightarrow> instant \<Rightarrow> bytes \<Rightarrow> bytes \<Rightarrow> bytes \<Rightarrow> bytes \<Rightarrow> jni_error + ('h, 't) session" where
  "create_phone_session sn now priv psk pair desktop =
     (case identity_from_private sn priv of
        Inl err \<Rightarrow> Inl (Engine err)
      | Inr ident \<Rightarrow>
          (case session_phone sn now ident psk pair desktop of
             Inl err \<Rightarrow> Inl (Engine err)
           | Inr s \<Rightarrow> Inr s))"

definition create_phone_body ::
  "('h, 't) snow \<Rightarrow> instant \<Rightarrow> nat \<Rightarrow> nat \<Rightarrow> nat \<Rightarrow> nat \<Rightarrow> (jenv, ('h, 't) session, int) jni_body" where
  "create_phone_body sn now priv psk pair desktop e r =
     (case jni_bytes priv 32 32 e of (private_copy, e1) \<Rightarrow>
      case jni_bytes psk 32 32 e1 of (psk_copy, e2) \<Rightarrow>
      case wipe priv e2 of (wipe_private, e3) \<Rightarrow>
      case wipe psk e3 of (wipe_psk, e4) \<Rightarrow>
      (case private_copy of Inl err \<Rightarrow> (Returned (Inl err), r, e4) | Inr k \<Rightarrow>
       case psk_copy of Inl err \<Rightarrow> (Returned (Inl err), r, e4) | Inr s \<Rightarrow>
       case wipe_private of Inl err \<Rightarrow> (Returned (Inl err), r, e4) | Inr _ \<Rightarrow>
       case wipe_psk of Inl err \<Rightarrow> (Returned (Inl err), r, e4) | Inr _ \<Rightarrow>
       case jni_bytes pair 16 16 e4 of (p, e5) \<Rightarrow>
       (case p of Inl err \<Rightarrow> (Returned (Inl err), r, e5) | Inr pair \<Rightarrow>
        case jni_bytes desktop 32 32 e5 of (d, e6) \<Rightarrow>
        (case d of Inl err \<Rightarrow> (Returned (Inl err), r, e6) | Inr desktop \<Rightarrow>
         case insert_with (Returned (create_phone_session sn now k s pair desktop)) r of
           (q, r') \<Rightarrow> (Returned q, r', e6)))))"

definition create_phone where
  "create_phone sn now priv psk pair desktop =
     boundary throw_failure None (create_phone_body sn now priv psk pair desktop)"

section \<open>Operations on a session\<close>

definition engine :: "(error + 'a) \<times> 's \<Rightarrow> (jni_error + 'a) \<times> 's" where
  "engine r = (map_sum Engine (\<lambda>x. x) (fst r), snd r)"

text \<open>\<open>write_export!\<close>: the frame of a session method, as a Java array.\<close>

definition write_export ::
  "('h, 't, bytes) op \<Rightarrow> (jenv, ('h, 't) session, nat) closure" where
  "write_export method e s =
     (case engine (method s) of
        (Inl err, s') \<Rightarrow> (Returned (Inl err), s', e)
      | (Inr frame, s') \<Rightarrow> (case jni_output frame e of (r, e') \<Rightarrow> (Returned r, s', e')))"

text \<open>\<open>read_export!\<close>: a Java array of at most \<open>hi\<close> bytes to a session method.\<close>

definition read_export ::
  "nat \<Rightarrow> (bytes \<Rightarrow> ('h, 't, unit) op) \<Rightarrow> nat \<Rightarrow> (jenv, ('h, 't) session, unit) closure" where
  "read_export hi method frame e s =
     (case jni_bytes frame 1 hi e of
        (Inl err, e') \<Rightarrow> (Returned (Inl err), s, e')
      | (Inr f, e') \<Rightarrow> (case engine (method f s) of (r, s') \<Rightarrow> (Returned r, s', e')))"

fun output_frames :: "bytes list \<Rightarrow> nat list \<Rightarrow> jenv \<Rightarrow> (jni_error + nat list) \<times> jenv" where
  "output_frames [] out e = (Inr out, e)"
| "output_frames (f # fs) out e =
     (case jni_output f e of
        (Inl err, e1) \<Rightarrow> (Inl err, e1)
      | (Inr ref, e1) \<Rightarrow>
          (case jni_call e1 of
             (False, e2) \<Rightarrow> (Inl Jni, e2)
           | (True, e2) \<Rightarrow> output_frames fs (out @ [ref]) e2))"

definition seal_export ::
  "('h, 't) snow \<Rightarrow> instant \<Rightarrow> nat \<Rightarrow> (jenv, ('h, 't) session, nat) closure" where
  "seal_export sn now plaintext e s =
     (case jni_bytes plaintext 1 MAX_RECORD e of
        (Inl err, e1) \<Rightarrow> (Returned (Inl err), s, e1)
      | (Inr p, e1) \<Rightarrow>
          (case engine (seal_record sn now p s) of
             (Inl err, s') \<Rightarrow> (Returned (Inl err), s', e1)
           | (Inr frames, s') \<Rightarrow>
               (case jni_call e1 of
                  (False, e2) \<Rightarrow> (Returned (Inl Jni), s', e2)
                | (True, e2) \<Rightarrow>
                    (case output_frames frames [] e2 of
                       (Inl err, e3) \<Rightarrow> (Returned (Inl err), s', e3)
                     | (Inr refs, e3) \<Rightarrow>
                         (Returned (Inr (je_next e3)), s',
                          e3\<lparr>je_next := Suc (je_next e3),
                             je_objects := store_put (je_next e3) refs (je_objects e3)\<rparr>)))))"

definition open_export ::
  "('h, 't) snow \<Rightarrow> instant \<Rightarrow> nat \<Rightarrow> (jenv, ('h, 't) session, nat) closure" where
  "open_export sn now frame e s =
     (case jni_bytes frame 16 MAX_FRAME e of
        (Inl err, e1) \<Rightarrow> (Returned (Inl err), s, e1)
      | (Inr f, e1) \<Rightarrow>
          (case engine (open_frame sn now f s) of
             (Inl err, s') \<Rightarrow> (Returned (Inl err), s', e1)
           | (Inr None, s') \<Rightarrow> (Returned (Inr 0), s', e1)
           | (Inr (Some plaintext), s') \<Rightarrow>
               (case jni_output plaintext e1 of (r, e2) \<Rightarrow> (Returned r, s', e2))))"

definition is_ready_export ::
  "instant \<Rightarrow> (jenv, ('h, 't) session, bool) closure" where
  "is_ready_export now e s =
     (case engine (check_alive now s) of
        (Inl err, s') \<Rightarrow> (Returned (Inl err), s', e)
      | (Inr _, s') \<Rightarrow> (Returned (Inr (is_ready s')), s', e))"

text \<open>The functions as Java sees them, each through \<open>boundary\<close> and \<open>with_session\<close>.\<close>

definition session_export ::
  "int \<Rightarrow> (jenv, ('h, 't) session, 'a) closure \<Rightarrow> jenv \<Rightarrow> ('h, 't) session shared_registry
     \<Rightarrow> 'a option \<times> ('h, 't) session shared_registry \<times> jenv" where
  "session_export h operation = boundary throw_failure (Some h) (session_body h operation)"

definition java_write_handshake where
  "java_write_handshake sn now h = session_export h (write_export (write_handshake sn now))"

definition java_write_confirmation where
  "java_write_confirmation sn now h = session_export h (write_export (write_confirmation sn now))"

definition java_read_handshake where
  "java_read_handshake sn now h frame =
     session_export h (read_export 256 (read_handshake sn now) frame)"

definition java_read_confirmation where
  "java_read_confirmation sn now h frame =
     session_export h (read_export 256 (read_confirmation sn now) frame)"

definition java_seal where
  "java_seal sn now h plaintext = session_export h (seal_export sn now plaintext)"

definition java_open where
  "java_open sn now h frame = session_export h (open_export sn now frame)"

definition java_is_ready where
  "java_is_ready now h = session_export h (is_ready_export now)"

definition close_body :: "int \<Rightarrow> ('e, 's, unit) jni_body" where
  "close_body h e r = (Returned (Inr ()), registry_close h r, e)"

definition java_close where
  "java_close h = boundary throw_failure (Some h) (close_body h)"

section \<open>Wiping\<close>

lemma jni_call_same:
  assumes "jni_call e = (ok, e')"
  shows "je_arrays e' = je_arrays e" "je_script e = [] \<Longrightarrow> ok \<and> e' = e"
  using assms by (auto simp: jni_call_def split: list.splits)

lemma jni_call_clean: "je_script e = [] \<Longrightarrow> jni_call e = (True, e)"
  by (simp add: jni_call_def)

lemma jni_call_array: "jni_call e = (ok, e') \<Longrightarrow> array_of e' a = array_of e a"
  by (simp add: array_of_def jni_call_same)

lemma jni_bytes_same:
  assumes "jni_bytes a lo hi e = (r, e')"
  shows "array_of e' b = array_of e b" "je_script e = [] \<Longrightarrow> e' = e"
proof -
  show "array_of e' b = array_of e b"
    using assms
    by (auto simp: jni_bytes_def jni_call_array split: if_splits prod.splits bool.splits sum.splits)
  show "e' = e" if "je_script e = []"
    using assms that
    by (auto simp: jni_bytes_def jni_call_clean split: if_splits sum.splits)
qed

lemma array_of_put [simp]:
  "array_of (e\<lparr>je_arrays := store_put a v (je_arrays e)\<rparr>) b = (if b = a then v else array_of e b)"
  by (simp add: array_of_def kv.get_put)

text \<open>One step of the loop, from a state whose first bytes are already zero.\<close>

lemma wipe_step_content:
  assumes "take offset old = replicate offset (0 :: u8)" and "offset + cnt \<le> length old"
  shows "take (offset + cnt) (take offset old @ replicate cnt 0 @ drop (offset + cnt) old)
      = replicate (offset + cnt) 0"
    and "length (take offset old @ replicate cnt 0 @ drop (offset + cnt) old) = length old"
  using assms by (simp_all add: replicate_add)

lemma wipe_from_other:
  "b \<noteq> a \<Longrightarrow> array_of (snd (wipe_from a offset n e)) b = array_of e b"
proof (induction a offset n e rule: wipe_from.induct)
  case (1 a offset n e)
  then show ?case
    by (subst wipe_from.simps) (auto simp: Let_def jni_call_array split: prod.splits bool.splits)
qed

lemma wipe_from_script:
  "je_script e = [] \<Longrightarrow> fst (wipe_from a offset n e) = Inr () \<and> je_script (snd (wipe_from a offset n e)) = []"
proof (induction a offset n e rule: wipe_from.induct)
  case (1 a offset n e)
  then show ?case
    by (subst (1 2) wipe_from.simps)
      (auto simp: Let_def jni_call_def split: prod.splits bool.splits)
qed

lemma wipe_from_zero:
  assumes "wipe_from a offset n e = (Inr (), e')" and "length (array_of e a) = n"
    and "offset \<le> n" and "take offset (array_of e a) = replicate offset 0"
  shows "array_of e' a = replicate n 0"
  using assms
proof (induction a offset n e rule: wipe_from.induct)
  case (1 a offset n e)
  show ?case
  proof (cases "n \<le> offset")
    case True
    with 1 show ?thesis by (simp add: wipe_from.simps)
  next
    case False
    define cnt where "cnt = min (n - offset) 256"
    obtain ok e1 where call: "jni_call e = (ok, e1)" by (cases "jni_call e")
    define new where "new = take offset (array_of e1 a) @ replicate cnt 0
      @ drop (offset + cnt) (array_of e1 a)"
    let ?e2 = "e1\<lparr>je_arrays := store_put a new (je_arrays e1)\<rparr>"
    have "wipe_from a offset n e = (if ok then wipe_from a (offset + cnt) n ?e2 else (Inl Jni, e1))"
      using False call by (subst wipe_from.simps) (simp add: Let_def cnt_def new_def)
    then have ok: "ok" and rest: "wipe_from a (offset + cnt) n ?e2 = (Inr (), e')"
      using 1(2) by (simp_all split: if_splits)
    have le: "offset + cnt \<le> length (array_of e1 a)"
      using 1(3) False call by (simp add: cnt_def jni_call_array)
    have take: "take offset (array_of e1 a) = replicate offset 0"
      using 1(5) call by (simp add: jni_call_array)
    have "wipe_from a (offset + cnt) n ?e2 = (Inr (), e') \<Longrightarrow> length (array_of ?e2 a) = n \<Longrightarrow>
        offset + cnt \<le> n \<Longrightarrow> take (offset + cnt) (array_of ?e2 a) = replicate (offset + cnt) 0 \<Longrightarrow>
        array_of e' a = replicate n 0"
      using 1(1) [OF False cnt_def _ _ refl new_def] call ok by simp
    then show ?thesis
      using rest le wipe_step_content [OF take le] 1(3) call
      by (simp add: new_def jni_call_array)
  qed
qed

lemma wipe_other: "b \<noteq> a \<Longrightarrow> array_of (snd (wipe a e)) b = array_of e b"
  by (auto simp: wipe_def wipe_from_other jni_call_array split: prod.split bool.split)

lemma wipe_script:
  "je_script e = [] \<Longrightarrow> a \<noteq> 0 \<Longrightarrow> fst (wipe a e) = Inr () \<and> je_script (snd (wipe a e)) = []"
  by (simp add: wipe_def jni_call_clean wipe_from_script)

lemma wipe_zero:
  assumes "wipe a e = (Inr (), e')"
  shows "array_of e' a = replicate (length (array_of e a)) 0"
proof -
  obtain e1 where call: "jni_call e = (True, e1)" "a \<noteq> 0"
      "wipe_from a 0 (length (array_of e1 a)) e1 = (Inr (), e')"
    using assms by (auto simp: wipe_def split: if_splits prod.splits bool.splits)
  then show ?thesis using wipe_from_zero [OF call(3)] by (simp add: jni_call_array)
qed

lemma wipe_keeps_zero:
  assumes "wipe a e = (r, e')" and "array_of e b = replicate n 0" and "r = Inr ()"
  shows "array_of e' b = replicate n 0"
  using assms wipe_zero [of a e e'] wipe_other [of b a e] by (cases "b = a") auto

text \<open>The arrays after the body are those after the two wipes.\<close>

definition wiped_env :: "nat \<Rightarrow> nat \<Rightarrow> jenv \<Rightarrow> jenv" where
  "wiped_env priv psk e =
     snd (wipe psk (snd (wipe priv (snd (jni_bytes psk 32 32 (snd (jni_bytes priv 32 32 e)))))))"

lemma create_phone_body_arrays:
  "array_of (snd (snd (create_phone_body sn now priv psk pair desktop e r))) b =
     array_of (wiped_env priv psk e) b"
proof -
  obtain p1 e1 where 1: "jni_bytes priv 32 32 e = (p1, e1)" by (rule prod.exhaust)
  obtain p2 e2 where 2: "jni_bytes psk 32 32 e1 = (p2, e2)" by (rule prod.exhaust)
  obtain p3 e3 where 3: "wipe priv e2 = (p3, e3)" by (rule prod.exhaust)
  obtain p4 e4 where 4: "wipe psk e3 = (p4, e4)" by (rule prod.exhaust)
  obtain p5 e5 where 5: "jni_bytes pair 16 16 e4 = (p5, e5)" by (rule prod.exhaust)
  obtain p6 e6 where 6: "jni_bytes desktop 32 32 e5 = (p6, e6)" by (rule prod.exhaust)
  have "array_of e5 b = array_of e4 b" "array_of e6 b = array_of e5 b"
    using 5 6 by (auto dest: jni_bytes_same(1))
  then show ?thesis
    by (auto simp: create_phone_body_def wiped_env_def 1 2 3 4 5 6 split: sum.split prod.split)
qed

lemma create_phone_body_ok:
  assumes "create_phone_body sn now priv psk pair desktop e r = (Returned (Inr h), r', e')"
  shows "fst (wipe priv (snd (jni_bytes psk 32 32 (snd (jni_bytes priv 32 32 e))))) = Inr ()"
    and "fst (wipe psk (snd (wipe priv (snd (jni_bytes psk 32 32 (snd (jni_bytes priv 32 32 e))))))) = Inr ()"
  using assms by (auto simp: create_phone_body_def split: prod.splits sum.splits)

lemma wiped_env_zero:
  assumes "fst (wipe priv (snd (jni_bytes psk 32 32 (snd (jni_bytes priv 32 32 e))))) = Inr ()"
    and "fst (wipe psk (snd (wipe priv (snd (jni_bytes psk 32 32 (snd (jni_bytes priv 32 32 e))))))) = Inr ()"
  shows "array_of (wiped_env priv psk e) priv = replicate (length (array_of e priv)) 0"
    and "array_of (wiped_env priv psk e) psk = replicate (length (array_of e psk)) 0"
proof -
  obtain p1 e1 where 1: "jni_bytes priv 32 32 e = (p1, e1)" by (rule prod.exhaust)
  obtain p2 e2 where 2: "jni_bytes psk 32 32 e1 = (p2, e2)" by (rule prod.exhaust)
  obtain e3 where 3: "wipe priv e2 = (Inr (), e3)"
    using assms(1) 1 2 by (cases "wipe priv e2") simp
  obtain e4 where 4: "wipe psk e3 = (Inr (), e4)"
    using assms(2) 1 2 3 by (cases "wipe psk e3") simp
  have same: "array_of e2 b = array_of e b" for b
    using jni_bytes_same(1) [OF 1] jni_bytes_same(1) [OF 2] by simp
  have "length (array_of e3 psk) = length (array_of e psk)"
    using wipe_zero [OF 3] wipe_other [of psk priv e2] 3 same by (cases "psk = priv") auto
  then show "array_of (wiped_env priv psk e) psk = replicate (length (array_of e psk)) 0"
    using wipe_zero [OF 4] by (simp add: wiped_env_def 1 2 3 4)
  show "array_of (wiped_env priv psk e) priv = replicate (length (array_of e priv)) 0"
    using wipe_keeps_zero [OF 4 wipe_zero [OF 3] refl] same by (simp add: wiped_env_def 1 2 3 4)
qed

lemma throw_failure_array [simp]: "array_of (throw_failure e) a = array_of e a"
proof -
  have "array_of (e1\<lparr>je_exception := True\<rparr>) a = array_of e1 a" for e1
    by (simp add: array_of_def)
  then show ?thesis
    by (auto simp: throw_failure_def jni_call_array split: prod.split bool.split)
qed

section \<open>Properties\<close>

text \<open>C12: when \<open>createPhone\<close> runs, the caller's private key and enrollment secret are
  overwritten with zeros whenever it returns a handle, and also when it fails for any reason
  of its own (a bad length, a bad key, no capacity) as long as the JNI calls work.\<close>

theorem create_phone_wipes_secrets:
  assumes "\<not> sh_poisoned g" and "priv \<noteq> 0" and "psk \<noteq> 0"
    and "create_phone sn now priv psk pair desktop e g = (res, g', e')"
    and "res \<noteq> None \<or> je_script e = []"
  shows "array_of e' priv = replicate (length (array_of e priv)) 0
    \<and> array_of e' psk = replicate (length (array_of e psk)) 0"
proof -
  let ?e2 = "snd (jni_bytes psk 32 32 (snd (jni_bytes priv 32 32 e)))"
  obtain out r1 e1 where body: "create_phone_body sn now priv psk pair desktop e (sh_registry g)
      = (out, r1, e1)" by (rule prod_cases3)
  have "array_of e' b = array_of e1 b" for b
    using assms(1,4) body
    by (auto simp: create_phone_def boundary_def boundary_result_def split: outcome.splits sum.splits if_splits)
  then have arrays: "array_of e' b = array_of (wiped_env priv psk e) b" for b
    using create_phone_body_arrays [of sn now priv psk pair desktop e "sh_registry g" b] body by simp
  have "fst (wipe priv ?e2) = Inr () \<and> fst (wipe psk (snd (wipe priv ?e2))) = Inr ()"
  proof (cases "je_script e = []")
    case True
    then have "je_script ?e2 = []"
      using jni_bytes_same(2) by (metis surjective_pairing)
    then show ?thesis using wipe_script assms(2,3) by blast
  next
    case False
    then obtain h where "out = Returned (Inr h)"
      using assms(1,4,5) body
      by (auto simp: create_phone_def boundary_def boundary_result_def
          split: outcome.splits sum.splits if_splits)
    with body show ?thesis
      using create_phone_body_ok [of sn now priv psk pair desktop e "sh_registry g" h r1 e1] by simp
  qed
  then show ?thesis using arrays wiped_env_zero by simp
qed

definition short_key_env :: jenv where
  "short_key_env = \<lparr>je_arrays = [(1, [9, 9, 9]), (2, [4])], je_objects = [], je_next = 5,
     je_script = [], je_exception = False\<rparr>"

theorem create_phone_wipes_secrets_witness:
  "array_of (snd (snd (create_phone toy 0 1 2 0 0 short_key_env
      \<lparr>sh_registry = registry_new, sh_poisoned = False\<rparr>))) 1 = [0, 0, 0]"
proof -
  obtain res g' e' where eq: "create_phone toy 0 1 2 0 0 short_key_env
      \<lparr>sh_registry = registry_new, sh_poisoned = False\<rparr> = (res, g', e')" by (rule prod_cases3)
  have "array_of short_key_env 1 = [9, 9, 9]"
    by (simp add: short_key_env_def array_of_def store_get_def)
  then show ?thesis
    using create_phone_wipes_secrets [OF _ _ _ eq] eq by (simp add: short_key_env_def numeral_3_eq_3)
qed

end
