(* ===== verification/Relay_Session.thy ===== *)
theory Relay_Session
  imports Stores "HOL-Library.Sublist"
begin

text \<open>
  relay/src/session.rs: the session the relay keeps for a pair, with its bounded queue of
  messages for an absent desktop and its per-role message budget. Strings are their UTF-8
  bytes as characters, so \<open>length\<close> is \<open>len()\<close>; a call reads the clock once, as \<open>now\<close>.
\<close>

datatype role = Android | Desktop

type_synonym tx = nat

record pending_message =
  pm_body :: string
  pm_enqueued_at :: instant

record rsession =
  rs_pairing_key :: string
  rs_android_tx :: "tx option"
  rs_desktop_tx :: "tx option"
  rs_pending :: "pending_message list"
  rs_last_active :: instant
  rs_message_windows :: "(instant \<times> nat) list"

definition rsession_new :: "instant \<Rightarrow> string \<Rightarrow> rsession" where
  "rsession_new now key =
     \<lparr>rs_pairing_key = key, rs_android_tx = None, rs_desktop_tx = None, rs_pending = [],
      rs_last_active = now, rs_message_windows = [(now, 0), (now, 0)]\<rparr>"

definition touch :: "instant \<Rightarrow> rsession \<Rightarrow> rsession" where
  "touch now s = s\<lparr>rs_last_active := now\<rparr>"

definition stale :: "nat \<Rightarrow> instant \<Rightarrow> pending_message \<Rightarrow> bool" where
  "stale ttl now m \<longleftrightarrow> ttl < now - pm_enqueued_at m"

definition expire_pending :: "nat \<Rightarrow> instant \<Rightarrow> rsession \<Rightarrow> rsession" where
  "expire_pending ttl now s = s\<lparr>rs_pending := dropWhile (stale ttl now) (rs_pending s)\<rparr>"

definition enqueue_pending :: "instant \<Rightarrow> string \<Rightarrow> nat \<Rightarrow> rsession \<Rightarrow> rsession" where
  "enqueue_pending now body max_len s =
     (if max_len = 0 then s
      else
        let queue = (if max_len \<le> length (rs_pending s) then tl (rs_pending s) else rs_pending s)
        in s\<lparr>rs_pending := queue @ [\<lparr>pm_body = body, pm_enqueued_at = now\<rparr>]\<rparr>)"

definition role_index :: "role \<Rightarrow> nat" where
  "role_index role = (case role of Android \<Rightarrow> 0 | Desktop \<Rightarrow> 1)"

definition allow_message_at :: "role \<Rightarrow> nat \<Rightarrow> instant \<Rightarrow> rsession \<Rightarrow> bool \<times> rsession" where
  "allow_message_at role limit now s =
     (let i = role_index role;
          (started, cnt) = rs_message_windows s ! i;
          (started, cnt) = (if secs 60 \<le> now - started then (now, 0) else (started, cnt))
      in if limit \<le> cnt
         then (False, s\<lparr>rs_message_windows := (rs_message_windows s)[i := (started, cnt)]\<rparr>)
         else (True, s\<lparr>rs_message_windows := (rs_message_windows s)[i := (started, cnt + 1)]\<rparr>))"

section \<open>The queue\<close>

text \<open>What callers rely on: entries are in the order of their times and at most \<open>cap\<close>.\<close>

definition queue_ok :: "nat \<Rightarrow> instant \<Rightarrow> rsession \<Rightarrow> bool" where
  "queue_ok cap now s \<longleftrightarrow> sorted (map pm_enqueued_at (rs_pending s))
     \<and> length (rs_pending s) \<le> cap \<and> (\<forall>m\<in>set (rs_pending s). pm_enqueued_at m \<le> now)"

lemma queue_ok_mono: "queue_ok cap now s \<Longrightarrow> now \<le> now' \<Longrightarrow> queue_ok cap now' s"
  by (auto simp: queue_ok_def)

lemma queue_ok_new: "queue_ok cap now (rsession_new now' key)"
  by (simp add: queue_ok_def rsession_new_def)

text \<open>On a queue in time order, dropping stale entries from the front drops every stale one.\<close>

lemma dropWhile_stale:
  assumes "sorted (map pm_enqueued_at q)"
  shows "dropWhile (stale ttl now) q = filter (\<lambda>m. \<not> stale ttl now m) q"
  using assms
proof (induction q)
  case Nil
  then show ?case by simp
next
  case (Cons m q)
  show ?case
  proof (cases "stale ttl now m")
    case True
    with Cons show ?thesis by simp
  next
    case False
    have "\<not> stale ttl now m'" if "m' \<in> set q" for m'
    proof -
      have "pm_enqueued_at m \<le> pm_enqueued_at m'" using Cons.prems that by simp
      then show ?thesis using False by (simp add: stale_def)
    qed
    then show ?thesis using False by (simp add: filter_True)
  qed
qed

lemma expire_pending_filter:
  "queue_ok cap now' s \<Longrightarrow>
    rs_pending (expire_pending ttl now s) = filter (\<lambda>m. \<not> stale ttl now m) (rs_pending s)"
  by (simp add: expire_pending_def queue_ok_def dropWhile_stale)

lemma expire_pending_ok:
  assumes "queue_ok cap now' s"
  shows "queue_ok cap now' (expire_pending ttl now s)"
proof -
  let ?q = "filter (\<lambda>m. \<not> stale ttl now m) (rs_pending s)"
  have "length ?q \<le> cap"
    using assms by (auto simp: queue_ok_def intro: le_trans [OF length_filter_le])
  moreover have "sorted (map pm_enqueued_at ?q)" using assms by (simp add: queue_ok_def sorted_filter)
  moreover have "\<forall>m\<in>set ?q. pm_enqueued_at m \<le> now'" using assms by (simp add: queue_ok_def)
  ultimately show ?thesis
    unfolding queue_ok_def expire_pending_filter [OF assms] by blast
qed

lemma expire_pending_subseq: "subseq (rs_pending (expire_pending ttl now s)) (rs_pending s)"
  by (simp add: expire_pending_def suffix_dropWhile suffix_imp_subseq)

lemma enqueue_pending_ok:
  assumes "queue_ok cap now s"
  shows "queue_ok cap now (enqueue_pending now body cap s)"
proof -
  have "set (tl (rs_pending s)) \<subseteq> set (rs_pending s)" by (cases "rs_pending s") auto
  moreover have "sorted (map pm_enqueued_at (tl (rs_pending s)))"
    using assms by (simp add: queue_ok_def map_tl sorted_tl)
  ultimately show ?thesis
    using assms by (auto simp: queue_ok_def enqueue_pending_def Let_def sorted_append)
qed

lemma enqueue_pending_last:
  "0 < cap \<Longrightarrow> \<exists>kept. rs_pending (enqueue_pending now body cap s)
      = kept @ [\<lparr>pm_body = body, pm_enqueued_at = now\<rparr>] \<and> subseq kept (rs_pending s)"
  by (cases "rs_pending s") (auto simp: enqueue_pending_def Let_def)

section \<open>The message budget\<close>

definition window_of :: "role \<Rightarrow> rsession \<Rightarrow> instant \<times> nat" where
  "window_of role s = rs_message_windows s ! role_index role"

definition windows_ok :: "rsession \<Rightarrow> bool" where
  "windows_ok s \<longleftrightarrow> length (rs_message_windows s) = 2"

lemma role_index_less [simp]: "role_index role < 2"
  by (cases role) (simp_all add: role_index_def)

lemma role_index_inj [simp]: "role_index r = role_index r' \<longleftrightarrow> r = r'"
  by (cases r; cases r') (simp_all add: role_index_def)

lemma windows_ok_new: "windows_ok (rsession_new now key)"
  by (simp add: windows_ok_def rsession_new_def)

lemma allow_message_at_window:
  assumes "windows_ok s" and "window_of role s = (started, cnt)"
  shows "allow_message_at role limit now s =
    (let st = (if secs 60 \<le> now - started then now else started);
         c = (if secs 60 \<le> now - started then 0 else cnt)
     in (c < limit, s\<lparr>rs_message_windows := (rs_message_windows s)[role_index role :=
          (st, if c < limit then c + 1 else c)]\<rparr>))"
  using assms by (simp add: allow_message_at_def window_of_def Let_def not_less)

lemma window_of_update [simp]:
  "windows_ok s \<Longrightarrow> window_of r (s\<lparr>rs_message_windows := (rs_message_windows s)[role_index r' := w]\<rparr>)
     = (if r = r' then w else window_of r s)"
  by (auto simp: window_of_def windows_ok_def nth_list_update)

lemma windows_ok_update [simp]:
  "windows_ok (s\<lparr>rs_message_windows := (rs_message_windows s)[i := w]\<rparr>) = windows_ok s"
  by (simp add: windows_ok_def)

lemma allow_message_at_ok: "windows_ok s \<Longrightarrow> windows_ok (snd (allow_message_at role limit now s))"
  by (auto simp: allow_message_at_def Let_def windows_ok_def split: prod.split)

lemma allow_message_at_same:
  "\<exists>w. snd (allow_message_at role limit now s) = s\<lparr>rs_message_windows := w\<rparr>"
  by (auto simp: allow_message_at_def Let_def split: prod.split)

text \<open>How many of the calls at the given instants, for one role, are allowed.\<close>

fun allowed :: "role \<Rightarrow> nat \<Rightarrow> instant list \<Rightarrow> rsession \<Rightarrow> nat" where
  "allowed role limit [] s = 0"
| "allowed role limit (t # ts) s =
     (case allow_message_at role limit t s of
        (ok, s') \<Rightarrow> (if ok then 1 else 0) + allowed role limit ts s')"

lemma allowed_in_window:
  assumes "windows_ok s" and "window_of role s = (started, cnt)"
    and "\<forall>t\<in>set ts. t - started < secs 60" and "cnt \<le> limit"
  shows "allowed role limit ts s + cnt \<le> limit"
  using assms
proof (induction ts arbitrary: s cnt)
  case Nil
  then show ?case by simp
next
  case (Cons t ts)
  have young: "\<not> secs 60 \<le> t - started" using Cons.prems(3) by simp
  note step = allow_message_at_window [OF Cons.prems(1,2), of limit t]
  define c where "c = (if cnt < limit then cnt + 1 else cnt)"
  let ?s = "s\<lparr>rs_message_windows := (rs_message_windows s)[role_index role := (started, c)]\<rparr>"
  have "allow_message_at role limit t s = (cnt < limit, ?s)"
    using step young by (simp add: c_def)
  moreover have "allowed role limit ts ?s + c \<le> limit"
    using Cons.prems by (intro Cons.IH) (auto simp: c_def)
  ultimately show ?case by (auto simp: c_def)
qed

end
