(* ===== verification/Relay.thy ===== *)
theory Relay
  imports Relay_Session
begin

text \<open>
  relay/src/relay.rs: attaching, detaching and routing for the pairs of the relay. A
  connection's channel is a number (\<open>same_channel\<close> is equality); the channels of the process
  are a \<open>world\<close>: which receivers are gone, and every message put into a channel, in order. Each
  operation holds the mutex of its session from the lookup to the end, so it is one step.
  The lemmas show that a replaced connection has no power, that a wrong key changes nothing,
  and that the desktop gets what the phone sent in order, with nothing twice.
\<close>

record world =
  w_dropped :: "tx list"
  w_log :: "(tx \<times> string) list"

text \<open>\<open>UnboundedSender::send\<close>: it fails only when the receiver is gone.\<close>

definition tx_send :: "tx \<Rightarrow> string \<Rightarrow> world \<Rightarrow> world option" where
  "tx_send t body w =
     (if t \<in> set (w_dropped w) then None else Some (w\<lparr>w_log := w_log w @ [(t, body)]\<rparr>))"

record relay_state =
  rl_sessions :: "(string, rsession) store"
  rl_max_pending :: nat
  rl_pending_ttl :: nat
  rl_max_message_bytes :: nat
  rl_rate_limit_per_min :: nat

definition relay_new :: "nat \<Rightarrow> nat \<Rightarrow> nat \<Rightarrow> relay_state" where
  "relay_new pending_ttl max_message_bytes rate_limit_per_min =
     \<lparr>rl_sessions = [], rl_max_pending = 100, rl_pending_ttl = pending_ttl,
      rl_max_message_bytes = max_message_bytes, rl_rate_limit_per_min = rate_limit_per_min\<rparr>"

datatype route_result =
  Delivered | Queued | Dropped | NoSession | TooLarge | StaleConnection | RateLimited

text \<open>The loop of \<open>attach\<close> over the pending messages.\<close>

fun flush :: "pending_message list \<Rightarrow> tx option \<Rightarrow> world
     \<Rightarrow> pending_message list \<times> tx option \<times> world" where
  "flush [] desktop w = ([], desktop, w)"
| "flush (front # rest) desktop w =
     (case desktop of
        None \<Rightarrow> (front # rest, None, w)
      | Some t \<Rightarrow>
          (case tx_send t (pm_body front) w of
             None \<Rightarrow> (front # rest, None, w)
           | Some w' \<Rightarrow> flush rest desktop w'))"

definition set_tx :: "role \<Rightarrow> tx option \<Rightarrow> rsession \<Rightarrow> rsession" where
  "set_tx role t s =
     (case role of Android \<Rightarrow> s\<lparr>rs_android_tx := t\<rparr> | Desktop \<Rightarrow> s\<lparr>rs_desktop_tx := t\<rparr>)"

text \<open>The body of \<open>attach\<close> on the session of the pair.\<close>

definition attach_session ::
  "nat \<Rightarrow> instant \<Rightarrow> string \<Rightarrow> role \<Rightarrow> tx \<Rightarrow> rsession \<Rightarrow> world \<Rightarrow> bool \<times> rsession \<times> world" where
  "attach_session ttl now pairing_key role t s w =
     (if rs_pairing_key s \<noteq> pairing_key then (False, s, w)
      else
        let s1 = set_tx role (Some t) (touch now s)
        in if role = Desktop
           then let s2 = expire_pending ttl now s1
                in (case flush (rs_pending s2) (rs_desktop_tx s2) w of
                      (pending, desktop, w') \<Rightarrow>
                        (True, s2\<lparr>rs_pending := pending, rs_desktop_tx := desktop\<rparr>, w'))
           else (True, s1, w))"

definition attach ::
  "instant \<Rightarrow> string \<Rightarrow> string \<Rightarrow> role \<Rightarrow> tx \<Rightarrow> relay_state \<Rightarrow> world \<Rightarrow> bool \<times> relay_state \<times> world" where
  "attach now pair_id pairing_key role t r w =
     (let s = (case store_get (rl_sessions r) pair_id of
                 None \<Rightarrow> rsession_new now pairing_key
               | Some s \<Rightarrow> s)
      in case attach_session (rl_pending_ttl r) now pairing_key role t s w of
           (ok, s', w') \<Rightarrow> (ok, r\<lparr>rl_sessions := store_put pair_id s' (rl_sessions r)\<rparr>, w'))"

definition owns_session :: "role \<Rightarrow> tx \<Rightarrow> rsession \<Rightarrow> bool" where
  "owns_session role sender s \<longleftrightarrow>
     (case role of Android \<Rightarrow> rs_android_tx s | Desktop \<Rightarrow> rs_desktop_tx s) = Some sender"

definition detach_session :: "instant \<Rightarrow> role \<Rightarrow> tx \<Rightarrow> rsession \<Rightarrow> rsession" where
  "detach_session now role sender s =
     (if \<not> owns_session role sender s then s else touch now (set_tx role None s))"

definition detach :: "instant \<Rightarrow> string \<Rightarrow> role \<Rightarrow> tx \<Rightarrow> relay_state \<Rightarrow> relay_state" where
  "detach now pair_id role sender r =
     (case store_get (rl_sessions r) pair_id of
        None \<Rightarrow> r
      | Some s \<Rightarrow>
          r\<lparr>rl_sessions := store_put pair_id (detach_session now role sender s) (rl_sessions r)\<rparr>)"

definition is_current :: "string \<Rightarrow> role \<Rightarrow> tx \<Rightarrow> relay_state \<Rightarrow> bool" where
  "is_current pair_id role sender r =
     (case store_get (rl_sessions r) pair_id of
        None \<Rightarrow> False
      | Some s \<Rightarrow> owns_session role sender s)"

definition send_to_desktop ::
  "relay_state \<Rightarrow> instant \<Rightarrow> string \<Rightarrow> rsession \<Rightarrow> world \<Rightarrow> route_result \<times> rsession \<times> world" where
  "send_to_desktop r now body s w =
     (if rl_max_message_bytes r < length body then (TooLarge, s, w)
      else case Option.bind (rs_desktop_tx s) (\<lambda>t. tx_send t body w) of
             Some w' \<Rightarrow> (Delivered, s, w')
           | None \<Rightarrow>
               (Queued,
                enqueue_pending now body (rl_max_pending r)
                  (expire_pending (rl_pending_ttl r) now (s\<lparr>rs_desktop_tx := None\<rparr>)), w))"

definition send_to_android ::
  "relay_state \<Rightarrow> string \<Rightarrow> rsession \<Rightarrow> world \<Rightarrow> route_result \<times> rsession \<times> world" where
  "send_to_android r body s w =
     (if rl_max_message_bytes r < length body then (TooLarge, s, w)
      else case Option.bind (rs_android_tx s) (\<lambda>t. tx_send t body w) of
             Some w' \<Rightarrow> (Delivered, s, w')
           | None \<Rightarrow> (Dropped, s\<lparr>rs_android_tx := None\<rparr>, w))"

definition route_session ::
  "relay_state \<Rightarrow> instant \<Rightarrow> role \<Rightarrow> tx \<Rightarrow> string \<Rightarrow> rsession \<Rightarrow> world
     \<Rightarrow> route_result \<times> rsession \<times> world" where
  "route_session r now role sender body s w =
     (if \<not> owns_session role sender s then (StaleConnection, s, w)
      else case allow_message_at role (rl_rate_limit_per_min r) now s of
             (False, s1) \<Rightarrow> (RateLimited, s1, w)
           | (True, s1) \<Rightarrow>
               (case role of
                  Android \<Rightarrow> send_to_desktop r now body (touch now s1) w
                | Desktop \<Rightarrow> send_to_android r body (touch now s1) w))"

definition route_from ::
  "instant \<Rightarrow> string \<Rightarrow> role \<Rightarrow> tx \<Rightarrow> string \<Rightarrow> relay_state \<Rightarrow> world
     \<Rightarrow> route_result \<times> relay_state \<times> world" where
  "route_from now pair_id role sender body r w =
     (case store_get (rl_sessions r) pair_id of
        None \<Rightarrow> (NoSession, r, w)
      | Some s \<Rightarrow>
          (case route_session r now role sender body s w of
             (res, s', w') \<Rightarrow>
               (res, r\<lparr>rl_sessions := store_put pair_id s' (rl_sessions r)\<rparr>, w')))"

section \<open>Runs\<close>

text \<open>
  What happens to the relay: connections attach, detach and send; a receiver goes away. The
  run also lists the messages of phones it accepted, with their pair, in order.
\<close>

datatype relay_event =
  Attach string string role tx | Detach string role tx | Route string role tx string | DropRx tx

fun relay_step ::
  "instant \<Rightarrow> relay_event \<Rightarrow> relay_state \<Rightarrow> world \<Rightarrow> (string \<times> string) list \<times> relay_state \<times> world" where
  "relay_step now (Attach p key role t) r w =
     (case attach now p key role t r w of (_, r', w') \<Rightarrow> ([], r', w'))"
| "relay_step now (Detach p role t) r w = ([], detach now p role t r, w)"
| "relay_step now (Route p role t body) r w =
     (case route_from now p role t body r w of
        (res, r', w') \<Rightarrow>
          (if role = Android \<and> res \<in> {Delivered, Queued} then [(p, body)] else [], r', w'))"
| "relay_step now (DropRx t) r w = ([], r, w\<lparr>w_dropped := t # w_dropped w\<rparr>)"

fun relay_run ::
  "(instant \<times> relay_event) list \<Rightarrow> relay_state \<Rightarrow> world
     \<Rightarrow> (string \<times> string) list \<times> relay_state \<times> world" where
  "relay_run [] r w = ([], r, w)"
| "relay_run ((now, ev) # evs) r w =
     (case relay_step now ev r w of
        (acc, r', w') \<Rightarrow>
          (case relay_run evs r' w' of (acc', r'', w'') \<Rightarrow> (acc @ acc', r'', w'')))"

section \<open>The invariant\<close>

text \<open>
  \<open>chan\<close> says which pair and role a connection's channel was made for; a session holds only
  channels of its own pair, and one that holds a desktop channel has nothing pending.
\<close>

definition session_ok :: "(tx \<Rightarrow> string \<times> role) \<Rightarrow> nat \<Rightarrow> instant \<Rightarrow> string \<Rightarrow> rsession \<Rightarrow> bool" where
  "session_ok chan cap now p s \<longleftrightarrow> queue_ok cap now s \<and> windows_ok s
     \<and> (\<forall>t. rs_android_tx s = Some t \<longrightarrow> chan t = (p, Android))
     \<and> (\<forall>t. rs_desktop_tx s = Some t \<longrightarrow> chan t = (p, Desktop) \<and> rs_pending s = [])"

definition relay_inv :: "(tx \<Rightarrow> string \<times> role) \<Rightarrow> instant \<Rightarrow> relay_state \<Rightarrow> bool" where
  "relay_inv chan now r \<longleftrightarrow>
     (\<forall>p s. store_get (rl_sessions r) p = Some s \<longrightarrow> session_ok chan (rl_max_pending r) now p s)"

fun event_ok :: "(tx \<Rightarrow> string \<times> role) \<Rightarrow> relay_event \<Rightarrow> bool" where
  "event_ok chan (Attach p key role t) = (chan t = (p, role))"
| "event_ok chan _ = True"

lemma session_ok_mono:
  "session_ok chan cap now p s \<Longrightarrow> now \<le> now' \<Longrightarrow> session_ok chan cap now' p s"
  using queue_ok_mono by (auto simp: session_ok_def)

lemma relay_inv_mono: "relay_inv chan now r \<Longrightarrow> now \<le> now' \<Longrightarrow> relay_inv chan now' r"
  unfolding relay_inv_def by (blast intro: session_ok_mono)

lemma relay_inv_new: "relay_inv chan now (relay_new ttl max_bytes limit)"
  by (simp add: relay_inv_def relay_new_def)

lemma relay_inv_put:
  assumes "relay_inv chan now r" and "session_ok chan (rl_max_pending r) now p s"
  shows "relay_inv chan now (r\<lparr>rl_sessions := store_put p s (rl_sessions r)\<rparr>)"
  using assms by (auto simp: relay_inv_def kv.get_put)

lemma session_ok_new: "session_ok chan cap now p (rsession_new now' key)"
  by (simp add: session_ok_def queue_ok_new windows_ok_new) (simp add: rsession_new_def)

lemma rsession_sel [simp]:
  "rs_pending (touch now s) = rs_pending s" "rs_desktop_tx (touch now s) = rs_desktop_tx s"
  "rs_android_tx (touch now s) = rs_android_tx s" "rs_pairing_key (touch now s) = rs_pairing_key s"
  "rs_message_windows (touch now s) = rs_message_windows s"
  "rs_pending (set_tx role t s) = rs_pending s"
  "rs_pairing_key (set_tx role t s) = rs_pairing_key s"
  "rs_message_windows (set_tx role t s) = rs_message_windows s"
  "rs_android_tx (set_tx role t s) = (if role = Android then t else rs_android_tx s)"
  "rs_desktop_tx (set_tx role t s) = (if role = Desktop then t else rs_desktop_tx s)"
  "rs_desktop_tx (expire_pending ttl now s) = rs_desktop_tx s"
  "rs_android_tx (expire_pending ttl now s) = rs_android_tx s"
  "rs_pairing_key (expire_pending ttl now s) = rs_pairing_key s"
  "rs_message_windows (expire_pending ttl now s) = rs_message_windows s"
  "rs_desktop_tx (enqueue_pending now body cap s) = rs_desktop_tx s"
  "rs_android_tx (enqueue_pending now body cap s) = rs_android_tx s"
  "rs_pairing_key (enqueue_pending now body cap s) = rs_pairing_key s"
  "rs_message_windows (enqueue_pending now body cap s) = rs_message_windows s"
  by (cases role; simp add: touch_def set_tx_def expire_pending_def enqueue_pending_def Let_def)+

lemma queue_ok_cong: "rs_pending s' = rs_pending s \<Longrightarrow> queue_ok cap now s' = queue_ok cap now s"
  by (simp add: queue_ok_def)

lemma windows_ok_cong:
  "rs_message_windows s' = rs_message_windows s \<Longrightarrow> windows_ok s' = windows_ok s"
  by (simp add: windows_ok_def)

subsection \<open>The flush\<close>

lemma flush_result:
  assumes "flush q d w = (q', d', w')"
  shows "\<exists>sent t. q = sent @ q' \<and> w_dropped w' = w_dropped w
    \<and> (sent \<noteq> [] \<longrightarrow> d = Some t)
    \<and> w_log w' = w_log w @ map (\<lambda>m. (t, pm_body m)) sent
    \<and> (d' = None \<or> d' = d \<and> q' = [])"
  using assms
proof (induction q d w rule: flush.induct)
  case (1 d w)
  then show ?case by auto
next
  case (2 front rest d w)
  show ?case
  proof (cases d)
    case None
    with 2 show ?thesis by auto
  next
    case (Some t)
    show ?thesis
    proof (cases "tx_send t (pm_body front) w")
      case None
      with 2 Some show ?thesis by auto
    next
      case sent: (Some w1)
      with 2 Some obtain s1 t1 where "rest = s1 @ q'" "w_dropped w' = w_dropped w1"
          "s1 \<noteq> [] \<longrightarrow> d = Some t1" "w_log w' = w_log w1 @ map (\<lambda>m. (t1, pm_body m)) s1"
          "d' = None \<or> d' = d \<and> q' = []"
        by fastforce
      moreover have "w_log w1 = w_log w @ [(t, pm_body front)]" "w_dropped w1 = w_dropped w"
        using sent by (auto simp: tx_send_def split: if_splits)
      ultimately show ?thesis
        using Some by (intro exI [of _ "front # s1"] exI [of _ t]) auto
    qed
  qed
qed

lemma flush_all:
  "t \<notin> set (w_dropped w) \<Longrightarrow> flush q (Some t) w =
    ([], Some t, w\<lparr>w_log := w_log w @ map (\<lambda>m. (t, pm_body m)) q\<rparr>)"
  by (induction q arbitrary: w) (simp_all add: tx_send_def)

lemma flush_closed:
  "t \<in> set (w_dropped w) \<Longrightarrow> flush q (Some t) w = (q, if q = [] then Some t else None, w)"
  by (cases q) (simp_all add: tx_send_def)

subsection \<open>What reaches the desktop\<close>

definition delivered :: "(tx \<Rightarrow> string \<times> role) \<Rightarrow> string \<Rightarrow> world \<Rightarrow> string list" where
  "delivered chan p w = map snd (filter (\<lambda>(t, b). chan t = (p, Desktop)) (w_log w))"

text \<open>The messages a pair's desktop got so far, followed by those it will get on attaching.\<close>

definition flow :: "(tx \<Rightarrow> string \<times> role) \<Rightarrow> string \<Rightarrow> rsession \<Rightarrow> world \<Rightarrow> string list" where
  "flow chan p s w = delivered chan p w @ map pm_body (rs_pending s)"

definition others_same :: "(tx \<Rightarrow> string \<times> role) \<Rightarrow> string \<Rightarrow> world \<Rightarrow> world \<Rightarrow> bool" where
  "others_same chan p w w' \<longleftrightarrow> (\<forall>p'. p' \<noteq> p \<longrightarrow> delivered chan p' w' = delivered chan p' w)"

lemma others_same_refl [simp]: "others_same chan p w w"
  by (simp add: others_same_def)

lemma delivered_append:
  assumes "w_log w' = w_log w @ map (\<lambda>b. (t, b)) bs"
  shows "delivered chan p w' = delivered chan p w @ (if chan t = (p, Desktop) then bs else [])"
proof -
  have "map snd (filter (\<lambda>(t, b). chan t = (p, Desktop)) (map (\<lambda>b. (t, b)) bs)) =
      (if chan t = (p, Desktop) then bs else [])"
    by (induction bs) auto
  then show ?thesis using assms by (simp add: delivered_def)
qed

lemma tx_send_delivered:
  assumes "tx_send t b w = Some w'"
  shows "delivered chan p w' = delivered chan p w @ (if chan t = (p, Desktop) then [b] else [])"
  using delivered_append [of w' w t "[b]"] assms by (auto simp: tx_send_def split: if_splits)

lemma expire_all_fresh:
  "\<forall>m\<in>set (rs_pending s). \<not> stale ttl now m \<Longrightarrow>
    rs_pending (expire_pending ttl now s) = rs_pending s"
  by (cases "rs_pending s") (simp_all add: expire_pending_def)

text \<open>
  One step of the session of pair \<open>p\<close> that accepts the messages \<open>acc\<close> of the phone: nothing
  is delivered or kept that was not, and nothing is lost while no message is stale and the
  queue has room.
\<close>

definition session_step ::
  "(tx \<Rightarrow> string \<times> role) \<Rightarrow> nat \<Rightarrow> nat \<Rightarrow> instant \<Rightarrow> string \<Rightarrow> string list
     \<Rightarrow> rsession \<Rightarrow> world \<Rightarrow> rsession \<Rightarrow> world \<Rightarrow> bool" where
  "session_step chan cap ttl now p acc s w s' w' \<longleftrightarrow>
     session_ok chan cap now p s' \<and> others_same chan p w w'
     \<and> subseq (flow chan p s' w') (flow chan p s w @ acc)
     \<and> ((\<forall>m\<in>set (rs_pending s). \<not> stale ttl now m) \<and> length (rs_pending s) + length acc \<le> cap
         \<longrightarrow> flow chan p s' w' = flow chan p s w @ acc)
     \<and> length (rs_pending s') \<le> length (rs_pending s) + length acc
     \<and> (\<forall>m\<in>set (rs_pending s'). m \<in> set (rs_pending s) \<or> pm_enqueued_at m = now)"

lemma session_step_idle:
  assumes "session_ok chan cap now p s" and "session_ok chan cap now p s'"
    and "rs_pending s' = rs_pending s"
  shows "session_step chan cap ttl now p [] s w s' w"
  using assms by (simp add: session_step_def flow_def)

lemma session_ok_update:
  assumes "session_ok chan cap now p s" and "rs_pending s' = rs_pending s"
    and "rs_message_windows s' = rs_message_windows s"
    and "rs_android_tx s' = rs_android_tx s \<or> (\<forall>t. rs_android_tx s' = Some t \<longrightarrow> chan t = (p, Android))"
    and "rs_desktop_tx s' = rs_desktop_tx s \<or> rs_desktop_tx s' = None"
  shows "session_ok chan cap now p s'"
  using assms(1) unfolding session_ok_def queue_ok_def windows_ok_def assms(2,3)
  using assms(4,5) by (elim disjE; simp)

lemma flush_step:
  assumes "session_ok chan cap now p s" and "chan t = (p, Desktop)"
    and "s1 = s\<lparr>rs_desktop_tx := Some t, rs_last_active := now\<rparr>"
    and "flush (rs_pending (expire_pending ttl now s1)) (Some t) w = (q, d, w')"
  shows "session_step chan cap ttl now p [] s w
    ((expire_pending ttl now s1)\<lparr>rs_pending := q, rs_desktop_tx := d\<rparr>) w'"
proof -
  define s2 where "s2 = expire_pending ttl now s1"
  have q2: "queue_ok cap now s2"
    unfolding s2_def using assms(1,3)
    by (intro expire_pending_ok) (simp add: session_ok_def queue_ok_def)
  have sub: "subseq (rs_pending s2) (rs_pending s)"
    using expire_pending_subseq [of ttl now s1] assms(3) by (simp add: s2_def)
  have fresh: "rs_pending s2 = rs_pending s" if "\<forall>m\<in>set (rs_pending s). \<not> stale ttl now m"
    using expire_all_fresh [of s1 ttl now] that assms(3) by (simp add: s2_def)
  obtain sent t' where f: "rs_pending s2 = sent @ q" "sent \<noteq> [] \<longrightarrow> Some t = Some t'"
      "w_log w' = w_log w @ map (\<lambda>m. (t', pm_body m)) sent" "d = None \<or> d = Some t \<and> q = []"
    using flush_result [OF assms(4)] unfolding s2_def by blast
  have "w_log w' = w_log w @ map (\<lambda>b. (t, b)) (map pm_body sent)"
    using f(2,3) by (cases "sent = []") (auto simp: comp_def)
  from delivered_append [OF this, of chan]
  have dl: "delivered chan p' w' = delivered chan p' w @ (if p' = p then map pm_body sent else [])" for p'
    using assms(2) by auto
  let ?s = "s2\<lparr>rs_pending := q, rs_desktop_tx := d\<rparr>"
  have flow: "flow chan p ?s w' = delivered chan p w @ map pm_body (rs_pending s2)"
    using dl [of p] f(1) by (simp add: flow_def)
  have "subseq (flow chan p ?s w') (flow chan p s w)"
    unfolding flow unfolding flow_def using sub by (simp add: subseq_append' subseq_map)
  moreover have "session_ok chan cap now p ?s"
  proof -
    have "rs_android_tx ?s = rs_android_tx s" "rs_message_windows ?s = rs_message_windows s"
      using assms(3) by (simp_all add: s2_def)
    moreover have "queue_ok cap now ?s" using q2 f(1) by (simp add: queue_ok_def sorted_append)
    ultimately show ?thesis using assms(1,2) f(4) by (auto simp: session_ok_def windows_ok_def)
  qed
  moreover have "length q \<le> length (rs_pending s)"
    using list_emb_length [OF sub] f(1) by simp
  moreover have "set q \<subseteq> set (rs_pending s)"
  proof
    fix m assume "m \<in> set q"
    then have "m \<in> set (rs_pending s2)" using f(1) by simp
    from list_emb_set [OF sub this] show "m \<in> set (rs_pending s)" by auto
  qed
  ultimately show ?thesis
    unfolding s2_def [symmetric] session_step_def
    using dl flow fresh by (auto simp: others_same_def flow_def)
qed

lemma attach_session_step:
  assumes ok: "session_ok chan cap now p s" and t: "chan t = (p, role)"
    and att: "attach_session ttl now key role t s w = (res, s', w')"
  shows "session_step chan cap ttl now p [] s w s' w'"
proof (cases "rs_pairing_key s = key")
  case False
  with att ok show ?thesis by (auto simp: attach_session_def intro: session_step_idle)
next
  case key: True
  show ?thesis
  proof (cases role)
    case Android
    with key att have "s' = set_tx Android (Some t) (touch now s)" "w' = w"
      by (simp_all add: attach_session_def Let_def)
    moreover from this have "session_ok chan cap now p s'"
      using t Android by (intro session_ok_update [OF ok]) simp_all
    ultimately show ?thesis using ok by (simp add: session_step_idle)
  next
    case Desktop
    define s1 where "s1 = s\<lparr>rs_desktop_tx := Some t, rs_last_active := now\<rparr>"
    have s1: "set_tx Desktop (Some t) (touch now s) = s1"
      by (simp add: s1_def set_tx_def touch_def)
    obtain q d where "flush (rs_pending (expire_pending ttl now s1)) (Some t) w = (q, d, w')"
        "s' = (expire_pending ttl now s1)\<lparr>rs_pending := q, rs_desktop_tx := d\<rparr>"
      using att key Desktop s1
      by (auto simp: attach_session_def Let_def s1_def split: prod.splits)
    then show ?thesis
      using flush_step [OF ok t [unfolded Desktop] s1_def] by simp
  qed
qed

lemma detach_session_step:
  assumes "session_ok chan cap now p s"
  shows "session_step chan cap ttl now p [] s w (detach_session now role t s) w"
proof -
  have "session_ok chan cap now p (detach_session now role t s)"
    by (rule session_ok_update [OF assms]) (simp_all add: detach_session_def)
  then show ?thesis using assms by (simp add: session_step_idle detach_session_def)
qed

lemma bind_send_cases:
  assumes "Option.bind d (\<lambda>t. tx_send t body w) = Some w'"
  obtains t where "d = Some t" "tx_send t body w = Some w'"
  using assms by (cases d) auto

lemma send_to_desktop_step:
  assumes ok: "session_ok (chan :: tx \<Rightarrow> string \<times> role) (rl_max_pending r) now p s"
    and send: "send_to_desktop r now body s w = (res, s', w')"
  shows "session_step chan (rl_max_pending r) (rl_pending_ttl r) now p
    (if res \<in> {Delivered, Queued} then [body] else []) s w s' w'"
proof -
  consider (large) "res = TooLarge" "s' = s" "w' = w"
    | (live) t where "res = Delivered" "s' = s" "rs_desktop_tx s = Some t" "tx_send t body w = Some w'"
    | (queued) "res = Queued" "w' = w" "s' = enqueue_pending now body (rl_max_pending r)
        (expire_pending (rl_pending_ttl r) now (s\<lparr>rs_desktop_tx := None\<rparr>))"
    using send
    by (auto simp: send_to_desktop_def split: if_splits option.splits elim: bind_send_cases)
  then show ?thesis
  proof cases
    case large
    with ok show ?thesis by (simp add: session_step_idle)
  next
    case live
    then have t: "chan t = (p, Desktop)" "rs_pending s = []" using ok by (auto simp: session_ok_def)
    with live ok show ?thesis
      by (simp add: session_step_def others_same_def flow_def tx_send_delivered [OF live(4)])
  next
    case queued
    define s1 where "s1 = expire_pending (rl_pending_ttl r) now (s\<lparr>rs_desktop_tx := None\<rparr>)"
    let ?cap = "rl_max_pending r"
    have q1: "queue_ok ?cap now s1"
      unfolding s1_def using ok by (intro expire_pending_ok) (simp add: session_ok_def queue_ok_def)
    have sub: "subseq (rs_pending s1) (rs_pending s)"
      using expire_pending_subseq [of "rl_pending_ttl r" now "s\<lparr>rs_desktop_tx := None\<rparr>"]
      by (simp add: s1_def)
    have fresh: "rs_pending s1 = rs_pending s"
      if "\<forall>m\<in>set (rs_pending s). \<not> stale (rl_pending_ttl r) now m"
      using expire_all_fresh [of "s\<lparr>rs_desktop_tx := None\<rparr>"] that by (simp add: s1_def)
    have s': "s' = enqueue_pending now body ?cap s1" using queued(3) by (simp add: s1_def)
    have ok': "session_ok chan ?cap now p s'"
      using ok q1 unfolding s' session_ok_def
      by (auto simp: enqueue_pending_ok windows_ok_def s1_def)
    have pend: "rs_pending s' = (if ?cap = 0 then rs_pending s1
        else (if ?cap \<le> length (rs_pending s1) then tl (rs_pending s1) else rs_pending s1)
          @ [\<lparr>pm_body = body, pm_enqueued_at = now\<rparr>])"
      by (simp add: s' enqueue_pending_def Let_def)
    have tl: "subseq (tl (rs_pending s1)) (rs_pending s)"
      using sub by (rule subseq_order.trans [OF suffix_imp_subseq [OF suffix_tl]])
    have "subseq (map pm_body (rs_pending s')) (map pm_body (rs_pending s) @ [body])"
      using sub tl unfolding pend
      by (auto simp: map_tl intro!: list_emb_append_mono subseq_map intro: list_emb_append2
          simp flip: map_tl)
    then have sub': "subseq (flow chan p s' w) (flow chan p s w @ [body])"
      by (simp add: flow_def subseq_append')
    have len: "length (rs_pending s1) \<le> length (rs_pending s)" by (rule list_emb_length [OF sub])
    have set: "set (rs_pending s1) \<subseteq> set (rs_pending s)"
      using list_emb_set [OF sub] by blast
    have times: "\<forall>m\<in>set (rs_pending s'). m \<in> set (rs_pending s) \<or> pm_enqueued_at m = now"
      using set list.set_sel(2) [of "rs_pending s1"] unfolding pend
      by (auto split: if_splits) (metis list.sel(2) list.set_sel(2) subsetD)
    have "length (rs_pending s') \<le> length (rs_pending s) + 1" using len by (auto simp: pend)
    moreover have "flow chan p s' w = flow chan p s w @ [body]"
      if "\<forall>m\<in>set (rs_pending s). \<not> stale (rl_pending_ttl r) now m"
        "length (rs_pending s) + 1 \<le> ?cap"
      using fresh that by (simp add: flow_def pend)
    ultimately show ?thesis
      using queued(1,2) ok' sub' times by (simp add: session_step_def)
  qed
qed

lemma send_to_android_step:
  assumes ok: "session_ok (chan :: tx \<Rightarrow> string \<times> role) (rl_max_pending r) now p s"
    and send: "send_to_android r body s w = (res, s', w')"
  shows "session_step chan (rl_max_pending r) ttl now p [] s w s' w'"
proof -
  consider (idle) "s' = s" "w' = w" | (live) t where "s' = s" "rs_android_tx s = Some t"
      "tx_send t body w = Some w'" | (lost) "s' = s\<lparr>rs_android_tx := None\<rparr>" "w' = w"
    using send
    by (auto simp: send_to_android_def split: if_splits option.splits elim: bind_send_cases)
  then show ?thesis
  proof cases
    case idle
    with ok show ?thesis by (simp add: session_step_idle)
  next
    case live
    then have "chan t = (p, Android)" using ok by (auto simp: session_ok_def)
    then have "delivered chan p' w' = delivered chan p' w" for p'
      using tx_send_delivered [OF live(3), of chan p'] by simp
    with live ok show ?thesis by (simp add: session_step_def others_same_def flow_def)
  next
    case lost
    have "session_ok chan (rl_max_pending r) now p (s\<lparr>rs_android_tx := None\<rparr>)"
      by (rule session_ok_update [OF ok]) simp_all
    with lost ok show ?thesis by (simp add: session_step_idle)
  qed
qed

text \<open>The budget and the touch before the sending change nothing the step speaks of.\<close>

lemma session_step_cong:
  assumes "session_step chan cap ttl now p acc s1 w s' w'" and "rs_pending s1 = rs_pending s"
  shows "session_step chan cap ttl now p acc s w s' w'"
  using assms by (simp add: session_step_def flow_def)

lemma route_session_step:
  assumes ok: "session_ok (chan :: tx \<Rightarrow> string \<times> role) (rl_max_pending r) now p s"
    and route: "route_session r now role sender body s w = (res, s', w')"
  shows "session_step chan (rl_max_pending r) (rl_pending_ttl r) now p
    (if role = Android \<and> res \<in> {Delivered, Queued} then [body] else []) s w s' w'"
proof (cases "owns_session role sender s")
  case False
  with route ok show ?thesis by (auto simp: route_session_def intro: session_step_idle)
next
  case True
  obtain allow s1 where allow: "allow_message_at role (rl_rate_limit_per_min r) now s = (allow, s1)"
    by (rule prod.exhaust)
  obtain ws where s1: "s1 = s\<lparr>rs_message_windows := ws\<rparr>"
    using allow_message_at_same [of role "rl_rate_limit_per_min r" now s] allow by auto
  have ok1: "session_ok chan (rl_max_pending r) now p s1"
    using allow_message_at_ok [of s role "rl_rate_limit_per_min r" now] allow ok s1
    by (simp add: session_ok_def queue_ok_def)
  have ok2: "session_ok chan (rl_max_pending r) now p (touch now s1)"
    by (rule session_ok_update [OF ok1]) simp_all
  have pend: "rs_pending (touch now s1) = rs_pending s" by (simp add: s1)
  show ?thesis
  proof (cases allow)
    case False
    with route True allow have "s' = s1" "w' = w" "res = RateLimited"
      by (simp_all add: route_session_def)
    then show ?thesis using session_step_idle [OF ok ok1] s1 by simp
  next
    case allowed: True
    show ?thesis
    proof (cases role)
      case Android
      then have "send_to_desktop r now body (touch now s1) w = (res, s', w')"
        using route True allow allowed by (simp add: route_session_def)
      from session_step_cong [OF send_to_desktop_step [OF ok2 this] pend] Android
      show ?thesis by simp
    next
      case Desktop
      then have "send_to_android r body (touch now s1) w = (res, s', w')"
        using route True allow allowed by (simp add: route_session_def)
      from session_step_cong [OF send_to_android_step [OF ok2 this] pend] Desktop
      show ?thesis by simp
    qed
  qed
qed

section \<open>Whole runs\<close>

definition pending_of :: "relay_state \<Rightarrow> string \<Rightarrow> pending_message list" where
  "pending_of r p =
     (case store_get (rl_sessions r) p of None \<Rightarrow> [] | Some s \<Rightarrow> rs_pending s)"

definition relay_flow :: "(tx \<Rightarrow> string \<times> role) \<Rightarrow> string \<Rightarrow> relay_state \<Rightarrow> world \<Rightarrow> string list" where
  "relay_flow chan p r w = delivered chan p w @ map pm_body (pending_of r p)"

definition accepted_of :: "string \<Rightarrow> (string \<times> string) list \<Rightarrow> string list" where
  "accepted_of p acc = map snd (filter (\<lambda>(q, b). q = p) acc)"

lemma accepted_of_simps [simp]:
  "accepted_of p [] = []" "accepted_of p (acc @ acc') = accepted_of p acc @ accepted_of p acc'"
  "accepted_of p [(q, b)] = (if q = p then [b] else [])"
  by (simp_all add: accepted_of_def)

definition same_config :: "relay_state \<Rightarrow> relay_state \<Rightarrow> bool" where
  "same_config r r' \<longleftrightarrow> rl_max_pending r' = rl_max_pending r \<and> rl_pending_ttl r' = rl_pending_ttl r
     \<and> rl_max_message_bytes r' = rl_max_message_bytes r
     \<and> rl_rate_limit_per_min r' = rl_rate_limit_per_min r"

text \<open>What one step means for every pair.\<close>

definition relay_step_ok ::
  "(tx \<Rightarrow> string \<times> role) \<Rightarrow> instant \<Rightarrow> relay_state \<Rightarrow> world \<Rightarrow> (string \<times> string) list
     \<Rightarrow> relay_state \<Rightarrow> world \<Rightarrow> bool" where
  "relay_step_ok chan now r w acc r' w' \<longleftrightarrow> relay_inv chan now r' \<and> same_config r r'
     \<and> (\<forall>p. subseq (relay_flow chan p r' w') (relay_flow chan p r w @ accepted_of p acc))
     \<and> (\<forall>p. (\<forall>m\<in>set (pending_of r p). \<not> stale (rl_pending_ttl r) now m)
          \<and> length (pending_of r p) + length (accepted_of p acc) \<le> rl_max_pending r
          \<longrightarrow> relay_flow chan p r' w' = relay_flow chan p r w @ accepted_of p acc)
     \<and> (\<forall>p. length (pending_of r' p) \<le> length (pending_of r p) + length (accepted_of p acc))
     \<and> (\<forall>p. \<forall>m\<in>set (pending_of r' p). m \<in> set (pending_of r p) \<or> pm_enqueued_at m = now)"

lemma relay_step_put:
  assumes "relay_inv chan now r"
    and "session_step chan (rl_max_pending r) (rl_pending_ttl r) now p bs s w s' w'"
    and "rs_pending s = pending_of r p"
    and "acc = map (\<lambda>b. (p, b)) bs"
  shows "relay_step_ok chan now r w acc (r\<lparr>rl_sessions := store_put p s' (rl_sessions r)\<rparr>) w'"
proof -
  let ?r = "r\<lparr>rl_sessions := store_put p s' (rl_sessions r)\<rparr>"
  have acc: "accepted_of q acc = (if q = p then bs else [])" for q
    unfolding assms(4) by (induction bs) (auto simp: accepted_of_def)
  have pend: "pending_of ?r q = (if q = p then rs_pending s' else pending_of r q)" for q
    by (simp add: pending_of_def kv.get_put)
  have flow: "relay_flow chan q ?r w' = (if q = p then flow chan p s' w' else relay_flow chan q r w)" for q
    using assms(2) pend [of q] by (auto simp: relay_flow_def flow_def session_step_def others_same_def)
  have flow_p: "relay_flow chan p r w = flow chan p s w"
    using assms(3) by (simp add: relay_flow_def flow_def)
  have "relay_inv chan now ?r"
    using assms(1,2) by (intro relay_inv_put) (simp_all add: session_step_def)
  then show ?thesis
    using assms(2,3) acc pend flow flow_p
    by (auto simp: relay_step_ok_def same_config_def session_step_def)
qed

lemma relay_step_id: "relay_inv chan now r \<Longrightarrow> relay_step_ok chan now r w [] r w"
  by (simp add: relay_step_ok_def same_config_def)

lemma relay_step_step:
  assumes inv: "relay_inv chan now r" and ev: "event_ok chan ev"
    and step: "relay_step now ev r w = (acc, r', w')"
  shows "relay_step_ok chan now r w acc r' w'"
proof (cases ev)
  case (Attach p key role t)
  define s where "s = (case store_get (rl_sessions r) p of None \<Rightarrow> rsession_new now key | Some s \<Rightarrow> s)"
  have ok: "session_ok chan (rl_max_pending r) now p s"
    using inv session_ok_new by (auto simp: s_def relay_inv_def split: option.splits)
  obtain res s' w1 where a: "attach_session (rl_pending_ttl r) now key role t s w = (res, s', w1)"
    by (rule prod_cases3)
  then have "r' = r\<lparr>rl_sessions := store_put p s' (rl_sessions r)\<rparr>" "w1 = w'" "acc = []"
    using step Attach by (simp_all add: attach_def s_def Let_def)
  moreover have "rs_pending s = pending_of r p"
    by (simp add: s_def pending_of_def rsession_new_def split: option.split)
  ultimately show ?thesis
    using relay_step_put [OF inv attach_session_step [OF ok _ a]] ev Attach by simp
next
  case (Detach p role t)
  show ?thesis
  proof (cases "store_get (rl_sessions r) p")
    case None
    with step Detach inv show ?thesis by (simp add: detach_def relay_step_id)
  next
    case (Some s)
    then have "session_ok chan (rl_max_pending r) now p s" using inv by (simp add: relay_inv_def)
    note st = relay_step_put [OF inv detach_session_step [OF this]]
    have "rs_pending s = pending_of r p" using Some by (simp add: pending_of_def)
    with st show ?thesis using step Detach Some by (simp add: detach_def) blast
  qed
next
  case (Route p role t body)
  show ?thesis
  proof (cases "store_get (rl_sessions r) p")
    case None
    with step Route inv show ?thesis by (simp add: route_from_def relay_step_id)
  next
    case (Some s)
    then have ok: "session_ok chan (rl_max_pending r) now p s" using inv by (simp add: relay_inv_def)
    obtain res s' w1 where a: "route_session r now role t body s w = (res, s', w1)"
      by (rule prod_cases3)
    have "rs_pending s = pending_of r p" using Some by (simp add: pending_of_def)
    from relay_step_put [OF inv route_session_step [OF ok a] this refl]
    show ?thesis using step Route Some a by (auto simp: route_from_def split: if_splits)
  qed
next
  case (DropRx t)
  then have "acc = []" "r' = r" "w' = w\<lparr>w_dropped := t # w_dropped w\<rparr>" using step by simp_all
  with inv show ?thesis
    by (simp add: relay_step_ok_def same_config_def relay_flow_def delivered_def)
qed

lemma relay_run_ok:
  assumes "relay_inv chan t0 r" and "sorted (t0 # map fst evs)"
    and "\<forall>ev\<in>set evs. event_ok chan (snd ev)" and "relay_run evs r w = (acc, r', w')"
  shows "relay_inv chan (last (t0 # map fst evs)) r' \<and> same_config r r'
    \<and> subseq (relay_flow chan p r' w') (relay_flow chan p r w @ accepted_of p acc)"
  using assms
proof (induction evs arbitrary: t0 r w acc)
  case Nil
  then show ?case by (simp add: same_config_def)
next
  case (Cons e evs)
  obtain now ev where e: "e = (now, ev)" by (cases e)
  obtain a1 r1 w1 where s: "relay_step now ev r w = (a1, r1, w1)" by (rule prod_cases3)
  obtain a2 where rest: "relay_run evs r1 w1 = (a2, r', w')" "acc = a1 @ a2"
    using Cons.prems(4) e s by (auto split: prod.splits)
  have "relay_inv chan now r" using Cons.prems(1,2) e by (auto intro: relay_inv_mono)
  then have st: "relay_step_ok chan now r w a1 r1 w1"
    using Cons.prems(3) e s by (intro relay_step_step) auto
  have "relay_inv chan (last (now # map fst evs)) r' \<and> same_config r1 r'
      \<and> subseq (relay_flow chan p r' w') (relay_flow chan p r1 w1 @ accepted_of p a2)"
    using st Cons.prems(2,3) e rest(1) by (intro Cons.IH) (auto simp: relay_step_ok_def)
  moreover have "subseq (relay_flow chan p r1 w1) (relay_flow chan p r w @ accepted_of p a1)"
    using st by (simp add: relay_step_ok_def)
  then have "subseq (relay_flow chan p r1 w1 @ accepted_of p a2)
      ((relay_flow chan p r w @ accepted_of p a1) @ accepted_of p a2)"
    by (simp only: subseq_append)
  ultimately show ?case
    using st rest(2) e subseq_order.trans by (auto simp: relay_step_ok_def same_config_def)
qed

lemma relay_run_keeps:
  assumes "relay_inv chan t0 r" and "sorted (t0 # map fst evs)"
    and "\<forall>ev\<in>set evs. event_ok chan (snd ev)" and "relay_run evs r w = (acc, r', w')"
    and "\<forall>m\<in>set (pending_of r p). T \<le> pm_enqueued_at m"
    and "\<forall>t\<in>set (map fst evs). T \<le> t \<and> t \<le> T + rl_pending_ttl r"
    and "length (pending_of r p) + length (accepted_of p acc) \<le> rl_max_pending r"
  shows "relay_flow chan p r' w' = relay_flow chan p r w @ accepted_of p acc"
  using assms
proof (induction evs arbitrary: t0 r w acc)
  case Nil
  then show ?case by simp
next
  case (Cons e evs)
  obtain now ev where e: "e = (now, ev)" by (cases e)
  obtain a1 r1 w1 where s: "relay_step now ev r w = (a1, r1, w1)" by (rule prod_cases3)
  obtain a2 where rest: "relay_run evs r1 w1 = (a2, r', w')" "acc = a1 @ a2"
    using Cons.prems(4) e s by (auto split: prod.splits)
  have "relay_inv chan now r" using Cons.prems(1,2) e by (auto intro: relay_inv_mono)
  then have st: "relay_step_ok chan now r w a1 r1 w1"
    using Cons.prems(3) e s by (intro relay_step_step) auto
  then have cfg: "rl_max_pending r1 = rl_max_pending r" "rl_pending_ttl r1 = rl_pending_ttl r"
    by (simp_all add: relay_step_ok_def same_config_def)
  have now: "T \<le> now" "now \<le> T + rl_pending_ttl r" using Cons.prems(6) e by simp_all
  have fresh: "\<forall>m\<in>set (pending_of r p). \<not> stale (rl_pending_ttl r) now m"
  proof
    fix m assume "m \<in> set (pending_of r p)"
    then have "T \<le> pm_enqueued_at m" using Cons.prems(5) by simp
    with now(2) show "\<not> stale (rl_pending_ttl r) now m" by (simp add: stale_def)
  qed
  have "relay_flow chan p r1 w1 = relay_flow chan p r w @ accepted_of p a1"
    using st fresh Cons.prems(7) rest(2) by (simp add: relay_step_ok_def)
  moreover have "relay_flow chan p r' w' = relay_flow chan p r1 w1 @ accepted_of p a2"
  proof (rule Cons.IH)
    show "relay_inv chan now r1" using st by (simp add: relay_step_ok_def)
    have "length (pending_of r1 p) \<le> length (pending_of r p) + length (accepted_of p a1)"
      using st by (simp add: relay_step_ok_def)
    then show "length (pending_of r1 p) + length (accepted_of p a2) \<le> rl_max_pending r1"
      using Cons.prems(7) rest(2) cfg by simp
    have "\<forall>m\<in>set (pending_of r1 p). m \<in> set (pending_of r p) \<or> pm_enqueued_at m = now"
      using st by (simp add: relay_step_ok_def)
    then show "\<forall>m\<in>set (pending_of r1 p). T \<le> pm_enqueued_at m"
      using Cons.prems(5) now(1) by blast
  qed (use Cons.prems e rest(1) cfg in auto)
  ultimately show ?case using rest(2) by simp
qed

lemma relay_flow_new:
  assumes "w_log w = []"
  shows "relay_flow chan p (relay_new ttl max_bytes limit) w = []" "pending_of (relay_new ttl max_bytes limit) p = []"
  using assms by (simp_all add: relay_flow_def delivered_def pending_of_def relay_new_def)

lemma pending_of_bound:
  "relay_inv chan now r \<Longrightarrow> length (pending_of r p) \<le> rl_max_pending r"
  by (auto simp: pending_of_def relay_inv_def session_ok_def queue_ok_def split: option.split)

section \<open>The message budget over a run\<close>

text \<open>The phone's window of a pair and how one step moves it while it is open.\<close>

definition budget_at :: "relay_state \<Rightarrow> string \<Rightarrow> instant \<Rightarrow> nat \<Rightarrow> bool" where
  "budget_at r p started cnt \<longleftrightarrow> (\<exists>s. store_get (rl_sessions r) p = Some s \<and> windows_ok s
     \<and> window_of Android s = (started, cnt))"

lemma window_same:
  "rs_message_windows s' = rs_message_windows s \<Longrightarrow> window_of role s' = window_of role s"
  by (simp add: window_of_def)

lemma attach_session_windows:
  "attach_session ttl now key role t s w = (ok, s', w') \<Longrightarrow>
    rs_message_windows s' = rs_message_windows s"
  by (auto simp: attach_session_def Let_def split: if_splits prod.splits)

lemma route_session_windows:
  assumes "windows_ok s" and "window_of Android s = (started, cnt)" and "now - started < secs 60"
    and "route_session r now role t body s w = (res, s', w')"
  shows "windows_ok s' \<and> (\<exists>k. window_of Android s' = (started, cnt + k)
    \<and> (role = Android \<and> res \<in> {Delivered, Queued} \<longrightarrow> k = 1)
    \<and> (k = 0 \<or> k = 1 \<and> cnt < rl_rate_limit_per_min r))"
proof (cases "owns_session role t s")
  case False
  with assms show ?thesis by (simp add: route_session_def)
next
  case True
  obtain allow s1 where al: "allow_message_at role (rl_rate_limit_per_min r) now s = (allow, s1)"
    by (rule prod.exhaust)
  have w1: "windows_ok s1" using allow_message_at_ok [OF assms(1)] al by (metis snd_conv)
  have sent: "rs_message_windows s' = rs_message_windows s1"
    using assms(4) True al
    by (auto simp: route_session_def send_to_desktop_def send_to_android_def
        split: bool.splits role.splits if_splits option.splits)
  have "\<not> allow \<Longrightarrow> res = RateLimited" using assms(4) True al by (simp add: route_session_def)
  moreover have "\<exists>k. window_of Android s1 = (started, cnt + k)
    \<and> (role = Android \<and> allow \<longrightarrow> k = 1) \<and> (k = 0 \<or> k = 1 \<and> cnt < rl_rate_limit_per_min r)"
  proof (cases role)
    case Android
    with al allow_message_at_window [OF assms(1,2), of "rl_rate_limit_per_min r" now] assms(1,3)
    have "window_of Android s1 = (started, cnt + (if allow then 1 else 0))"
        "allow = (cnt < rl_rate_limit_per_min r)" by auto
    then show ?thesis by (intro exI [of _ "if allow then 1 else 0"]) auto
  next
    case Desktop
    obtain st c where "window_of Desktop s = (st, c)" by (rule prod.exhaust)
    from allow_message_at_window [OF assms(1) this, of "rl_rate_limit_per_min r" now] al Desktop assms(1,2)
    have "window_of Android s1 = (started, cnt)" by (auto simp: Let_def)
    then show ?thesis using Desktop by (intro exI [of _ 0]) simp
  qed
  ultimately show ?thesis
    using sent w1 window_same [OF sent] by (auto simp: windows_ok_def)
qed

lemma relay_step_budget:
  assumes "budget_at r p started cnt" and "now - started < secs 60"
    and "relay_step now ev r w = (acc, r', w')"
  shows "\<exists>k. budget_at r' p started (cnt + k) \<and> length (accepted_of p acc) \<le> k
    \<and> (k = 0 \<or> cnt + k \<le> rl_rate_limit_per_min r) \<and> same_config r r'"
proof -
  obtain s where s: "store_get (rl_sessions r) p = Some s" "windows_ok s" "window_of Android s = (started, cnt)"
    using assms(1) by (auto simp: budget_at_def)
  have idle: ?thesis if "acc = []" "same_config r r'" "store_get (rl_sessions r') p = Some s'"
      "rs_message_windows s' = rs_message_windows s" for s'
    using that s window_same [OF that(4)]
    by (intro exI [of _ 0]) (simp add: budget_at_def windows_ok_def)
  show ?thesis
  proof (cases ev)
    case (Attach q key role t)
    obtain ok s' w1 where a: "attach_session (rl_pending_ttl r) now key role t s w = (ok, s', w1)"
      by (rule prod_cases3)
    show ?thesis
    proof (rule idle)
      show "store_get (rl_sessions r') p = Some (if q = p then s' else s)"
        using assms(3) Attach s(1) a by (auto simp: attach_def kv.get_put Let_def split: prod.splits)
    qed (use assms(3) Attach attach_session_windows [OF a] in
        \<open>auto simp: attach_def same_config_def Let_def split: prod.splits\<close>)
  next
    case (Detach q role t)
    show ?thesis
    proof (rule idle)
      show "store_get (rl_sessions r') p = Some (if q = p then detach_session now role t s else s)"
        using assms(3) Detach s(1) by (auto simp: detach_def kv.get_put split: option.splits)
    qed (use assms(3) Detach in \<open>auto simp: detach_def same_config_def detach_session_def split: option.splits\<close>)
  next
    case (DropRx t)
    with assms(3) s(1) show ?thesis by (intro idle) (auto simp: same_config_def)
  next
    case (Route q role t body)
    show ?thesis
    proof (cases "q = p")
      case False
      obtain s' where "store_get (rl_sessions r') p = Some s" "accepted_of p acc = []" "same_config r r'"
        using assms(3) Route s(1) False
        by (auto simp: route_from_def kv.get_put same_config_def split: option.splits prod.splits if_splits)
      then show ?thesis using s by (intro exI [of _ 0]) (simp add: budget_at_def)
    next
      case True
      obtain res s' w1 where a: "route_session r now role t body s w = (res, s', w1)"
        by (rule prod_cases3)
      from route_session_windows [OF s(2,3) assms(2) a]
      obtain k where k: "windows_ok s'" "window_of Android s' = (started, cnt + k)"
          "role = Android \<and> res \<in> {Delivered, Queued} \<longrightarrow> k = 1"
          "k = 0 \<or> k = 1 \<and> cnt < rl_rate_limit_per_min r" by blast
      have "r' = r\<lparr>rl_sessions := store_put p s' (rl_sessions r)\<rparr>"
          "acc = (if role = Android \<and> res \<in> {Delivered, Queued} then [(p, body)] else [])"
        using assms(3) Route True s(1) a by (auto simp: route_from_def)
      then show ?thesis
        using k by (intro exI [of _ k]) (auto simp: budget_at_def kv.get_put_same same_config_def)
    qed
  qed
qed

lemma relay_run_budget:
  assumes "budget_at r p started cnt" and "\<forall>t\<in>set (map fst evs). t - started < secs 60"
    and "relay_run evs r w = (acc, r', w')" and "cnt \<le> rl_rate_limit_per_min r"
  shows "length (accepted_of p acc) + cnt \<le> rl_rate_limit_per_min r"
  using assms
proof (induction evs arbitrary: r w acc cnt)
  case Nil
  then show ?case by simp
next
  case (Cons e evs)
  obtain now ev where e: "e = (now, ev)" by (cases e)
  obtain a1 r1 w1 where st: "relay_step now ev r w = (a1, r1, w1)" by (rule prod_cases3)
  obtain a2 where rest: "relay_run evs r1 w1 = (a2, r', w')" "acc = a1 @ a2"
    using Cons.prems(3) e st by (auto split: prod.splits)
  obtain k where k: "budget_at r1 p started (cnt + k)" "length (accepted_of p a1) \<le> k"
      "k = 0 \<or> cnt + k \<le> rl_rate_limit_per_min r" "same_config r r1"
    using relay_step_budget [OF Cons.prems(1) _ st] Cons.prems(2) e by auto
  have "rl_rate_limit_per_min r1 = rl_rate_limit_per_min r" using k(4) by (simp add: same_config_def)
  then have "length (accepted_of p a2) + (cnt + k) \<le> rl_rate_limit_per_min r"
    using Cons.IH [OF k(1) _ rest(1)] Cons.prems(2,4) e k(3) by auto
  then show ?case using k(2) rest(2) by simp
qed

section \<open>Properties\<close>

text \<open>C13: whatever connections attach, detach, send and vanish, what a pair's desktop
  connections were sent, followed by what waits for the next one, is in order and without
  repetition what the pair's phone connections sent and the relay accepted; at most a
  hundred messages wait.\<close>

theorem relay_keeps_order:
  assumes "sorted (map fst evs)" and "\<forall>ev\<in>set evs. event_ok chan (snd ev)"
    and "w_log w0 = []" and "relay_run evs (relay_new ttl max_bytes limit) w0 = (acc, r, w)"
  shows "subseq (delivered chan p w @ map pm_body (pending_of r p)) (accepted_of p acc)
    \<and> length (pending_of r p) \<le> 100"
proof -
  have run: "relay_inv chan (last (0 # map fst evs)) r \<and> same_config (relay_new ttl max_bytes limit) r
      \<and> subseq (relay_flow chan p r w)
          (relay_flow chan p (relay_new ttl max_bytes limit) w0 @ accepted_of p acc)"
    using assms(1,2,4) by (intro relay_run_ok [OF relay_inv_new]) simp_all
  have "rl_max_pending (relay_new ttl max_bytes limit) = 100" by (simp add: relay_new_def)
  then show ?thesis
    using run relay_flow_new [OF assms(3)] pending_of_bound [of chan "last (0 # map fst evs)" r p]
    by (simp add: relay_flow_def same_config_def)
qed

definition demo_chan :: "tx \<Rightarrow> string \<times> role" where
  "demo_chan t = (''p'', if t = 1 then Android else Desktop)"

definition demo_events :: "(instant \<times> relay_event) list" where
  "demo_events = [(0, Attach ''p'' ''key'' Android 1), (1, Route ''p'' Android 1 ''a''),
     (2, Route ''p'' Android 1 ''b''), (3, Attach ''p'' ''key'' Desktop 2),
     (4, Route ''p'' Android 1 ''c'')]"

lemma demo_run:
  "relay_run demo_events (relay_new 10 100 120) \<lparr>w_dropped = [], w_log = []\<rparr> =
    ([(''p'', ''a''), (''p'', ''b''), (''p'', ''c'')],
     (relay_new 10 100 120)\<lparr>rl_sessions := [(''p'', \<lparr>rs_pairing_key = ''key'',
        rs_android_tx = Some 1, rs_desktop_tx = Some 2, rs_pending = [], rs_last_active = 4,
        rs_message_windows = [(0, 3), (0, 0)]\<rparr>)]\<rparr>,
     \<lparr>w_dropped = [], w_log = [(2, ''a''), (2, ''b''), (2, ''c'')]\<rparr>)"
  by (simp add: demo_events_def relay_new_def attach_def attach_session_def rsession_new_def
      store_defs set_tx_def touch_def route_from_def route_session_def owns_session_def
      allow_message_at_def role_index_def send_to_desktop_def enqueue_pending_def
      expire_pending_def stale_def tx_send_def Let_def secs_def numeral_2_eq_2)

theorem relay_keeps_order_witness:
  "subseq [''a'', ''b'', ''c''] [''a'', ''b'', ''c'']"
  using relay_keeps_order [OF _ _ _ demo_run, where chan = demo_chan and p = "''p''"]
  by (simp add: demo_events_def demo_chan_def delivered_def accepted_of_def pending_of_def
      store_get_def)

text \<open>C14: while a run is no longer than the time to live and the phone of a pair sends at most
  a hundred accepted messages, nothing is lost: the desktop was sent, or will be sent when it
  attaches, exactly the accepted messages in order.\<close>

theorem relay_loses_nothing:
  assumes "sorted (map fst evs)" and "\<forall>ev\<in>set evs. event_ok chan (snd ev)"
    and "w_log w0 = []" and "relay_run evs (relay_new ttl max_bytes limit) w0 = (acc, r, w)"
    and "\<forall>t\<in>set (map fst evs). T \<le> t \<and> t \<le> T + ttl" and "length (accepted_of p acc) \<le> 100"
  shows "delivered chan p w @ map pm_body (pending_of r p) = accepted_of p acc"
proof -
  have "relay_flow chan p r w = relay_flow chan p (relay_new ttl max_bytes limit) w0 @ accepted_of p acc"
  proof (rule relay_run_keeps [where T = T, OF relay_inv_new [of chan 0]])
    show "\<forall>ev\<in>set evs. event_ok chan (snd ev)" by (rule assms(2))
    show "relay_run evs (relay_new ttl max_bytes limit) w0 = (acc, r, w)" by (rule assms(4))
    show "sorted (0 # map fst evs)" using assms(1) by simp
    show "length (pending_of (relay_new ttl max_bytes limit) p) + length (accepted_of p acc)
        \<le> rl_max_pending (relay_new ttl max_bytes limit)"
      using assms(6) relay_flow_new [OF assms(3)] by (simp add: relay_new_def)
    show "\<forall>m\<in>set (pending_of (relay_new ttl max_bytes limit) p). T \<le> pm_enqueued_at m"
      using relay_flow_new [OF assms(3)] by simp
    show "\<forall>t\<in>set (map fst evs). T \<le> t \<and> t \<le> T + rl_pending_ttl (relay_new ttl max_bytes limit)"
      using assms(5) by (simp add: relay_new_def)
  qed
  then show ?thesis using relay_flow_new [OF assms(3)] by (simp add: relay_flow_def)
qed

theorem relay_loses_nothing_witness:
  "map snd (filter (\<lambda>(t, b). demo_chan t = (''p'', Desktop)) [(2, ''a''), (2, ''b''), (2, ''c'')])
     = [''a'', ''b'', ''c'']"
  using relay_loses_nothing [OF _ _ _ demo_run, where chan = demo_chan and T = 0 and p = "''p''"]
  by (simp add: demo_events_def demo_chan_def delivered_def accepted_of_def pending_of_def
      store_get_def)

text \<open>A desktop that attaches with the right key and a working channel is sent every
  pending message that has not expired, oldest first, and nothing stays pending; with a
  channel whose receiver is gone the unexpired messages all stay.\<close>

theorem attach_flushes_pending:
  assumes "session_ok chan cap now' p s" and "store_get (rl_sessions r) p = Some s"
    and "rs_pairing_key s = key"
    and "attach now p key Desktop t r w = (ok, r', w')"
  shows "ok \<and> (\<exists>s'. store_get (rl_sessions r') p = Some s'
    \<and> (t \<notin> set (w_dropped w) \<longrightarrow> rs_pending s' = [] \<and> rs_desktop_tx s' = Some t
        \<and> w_log w' = w_log w @ map (\<lambda>m. (t, pm_body m))
            (filter (\<lambda>m. \<not> stale (rl_pending_ttl r) now m) (rs_pending s)))
    \<and> (t \<in> set (w_dropped w) \<longrightarrow> w' = w
        \<and> rs_pending s' = filter (\<lambda>m. \<not> stale (rl_pending_ttl r) now m) (rs_pending s)))"
proof -
  define s1 where "s1 = expire_pending (rl_pending_ttl r) now (set_tx Desktop (Some t) (touch now s))"
  have q: "queue_ok cap now' (set_tx Desktop (Some t) (touch now s))"
    using assms(1) by (simp add: session_ok_def queue_ok_def)
  have pend: "rs_pending s1 = filter (\<lambda>m. \<not> stale (rl_pending_ttl r) now m) (rs_pending s)"
    unfolding s1_def expire_pending_filter [OF q] by simp
  have tx: "rs_desktop_tx s1 = Some t" by (simp add: s1_def)
  show ?thesis
    using assms(2-4) tx pend flush_all [of t w "rs_pending s1"] flush_closed [of t w "rs_pending s1"]
    by (cases "t \<in> set (w_dropped w)")
      (auto simp: attach_def attach_session_def Let_def kv.get_put_same simp flip: s1_def)
qed

definition waiting_session :: rsession where
  "waiting_session = (rsession_new 0 ''key'')
     \<lparr>rs_pending := [\<lparr>pm_body = ''old'', pm_enqueued_at = 1\<rparr>, \<lparr>pm_body = ''new'', pm_enqueued_at = 8\<rparr>]\<rparr>"

theorem attach_flushes_pending_witness:
  "w_log (snd (snd (attach 9 ''p'' ''key'' Desktop 2
      ((relay_new 5 100 120)\<lparr>rl_sessions := [(''p'', waiting_session)]\<rparr>)
      \<lparr>w_dropped = [], w_log = []\<rparr>))) = [(2, ''new'')]"
proof -
  obtain ok r' w' where eq: "attach 9 ''p'' ''key'' Desktop 2
      ((relay_new 5 100 120)\<lparr>rl_sessions := [(''p'', waiting_session)]\<rparr>)
      \<lparr>w_dropped = [], w_log = []\<rparr> = (ok, r', w')" by (rule prod_cases3)
  have "session_ok demo_chan 100 9 ''p'' waiting_session"
    by (simp add: session_ok_def queue_ok_def windows_ok_def waiting_session_def rsession_new_def)
  from attach_flushes_pending [OF this _ _ eq] show ?thesis
    unfolding eq by (auto simp: waiting_session_def rsession_new_def relay_new_def store_get_def stale_def)
qed

text \<open>C15: a connection that is not the current one of its role has no power: its messages are
  refused, its detaching removes nobody, and neither changes the relay or any channel. After
  a new connection has attached with the right key, an older one is not current.\<close>

theorem stale_connection_powerless:
  assumes "store_get (rl_sessions r) p = Some s" and "\<not> is_current p role old r"
  shows "route_from now p role old body r w = (StaleConnection,
      r\<lparr>rl_sessions := store_put p s (rl_sessions r)\<rparr>, w)
    \<and> store_get (rl_sessions (detach now p role old r)) q = store_get (rl_sessions r) q
    \<and> (rs_pairing_key s = key \<longrightarrow> new \<noteq> old' \<longrightarrow>
        \<not> is_current p role old' (fst (snd (attach now p key role new r w))))"
proof -
  have own: "\<not> owns_session role old s" using assms by (simp add: is_current_def)
  have new: "rs_pairing_key s = key \<Longrightarrow> new \<noteq> old' \<Longrightarrow>
      \<not> is_current p role old' (fst (snd (attach now p key role new r w)))"
  proof -
    assume k: "rs_pairing_key s = key" and n: "new \<noteq> old'"
    obtain ok s' w' where a: "attach_session (rl_pending_ttl r) now key role new s w = (ok, s', w')"
      by (rule prod_cases3)
    have "\<not> owns_session role old' s'"
    proof (cases role)
      case Android
      with a k n show ?thesis by (auto simp: attach_session_def owns_session_def Let_def)
    next
      case Desktop
      obtain q d w1 where f: "flush (rs_pending (expire_pending (rl_pending_ttl r) now
          (set_tx Desktop (Some new) (touch now s)))) (Some new) w = (q, d, w1)" by (rule prod_cases3)
      with a k Desktop have "rs_desktop_tx s' = d" by (auto simp: attach_session_def Let_def)
      moreover have "d = None \<or> d = Some new" using flush_result [OF f] by blast
      ultimately show ?thesis using Desktop n by (auto simp: owns_session_def)
    qed
    with assms(1) a show ?thesis
      by (simp add: attach_def is_current_def kv.get_put_same)
  qed
  show ?thesis
    using assms(1) own new
    by (simp add: route_from_def route_session_def detach_def detach_session_def kv.get_put)
qed

theorem stale_connection_powerless_witness:
  "fst (route_from 9 ''p'' Android 7 ''x''
      ((relay_new 5 100 120)\<lparr>rl_sessions := [(''p'', waiting_session)]\<rparr>)
      \<lparr>w_dropped = [], w_log = []\<rparr>) = StaleConnection"
  using stale_connection_powerless [of "(relay_new 5 100 120)\<lparr>rl_sessions := [(''p'', waiting_session)]\<rparr>"
      "''p''" waiting_session Android 7 9 "''x''" "\<lparr>w_dropped = [], w_log = []\<rparr>"]
  by (simp add: store_get_def is_current_def owns_session_def waiting_session_def rsession_new_def)

text \<open>C16: within a minute of the start of a pair's window the relay accepts at most the
  configured number of messages from its phone, minus those already counted; reconnecting,
  or any other event of any pair, does not reset the count.\<close>

theorem relay_budget_survives_reconnect:
  assumes "store_get (rl_sessions r) p = Some s" and "windows_ok s"
    and "window_of Android s = (started, cnt)" and "cnt \<le> rl_rate_limit_per_min r"
    and "\<forall>t\<in>set (map fst evs). t - started < secs 60"
    and "relay_run evs r w = (acc, r', w')"
  shows "length (accepted_of p acc) + cnt \<le> rl_rate_limit_per_min r"
  using assms by (intro relay_run_budget [OF _ assms(5,6)]) (auto simp: budget_at_def)

theorem relay_budget_survives_reconnect_witness:
  "length (accepted_of ''p'' (fst (relay_run
      [(1, Attach ''p'' ''key'' Android 1), (2, Route ''p'' Android 1 ''a''),
       (3, Attach ''p'' ''key'' Android 2), (4, Route ''p'' Android 2 ''b'')]
      ((relay_new 5 100 1)\<lparr>rl_sessions := [(''p'', waiting_session)]\<rparr>)
      \<lparr>w_dropped = [], w_log = []\<rparr>))) \<le> 1"
proof -
  let ?evs = "[(1, Attach ''p'' ''key'' Android 1), (2, Route ''p'' Android 1 ''a''),
       (3, Attach ''p'' ''key'' Android 2), (4, Route ''p'' Android 2 ''b'')]"
  let ?r = "(relay_new 5 100 1)\<lparr>rl_sessions := [(''p'', waiting_session)]\<rparr>"
  let ?w = "\<lparr>w_dropped = [], w_log = []\<rparr>"
  obtain acc r' w' where eq: "relay_run ?evs ?r ?w = (acc, r', w')" by (rule prod_cases3)
  have "store_get (rl_sessions ?r) ''p'' = Some waiting_session" by (simp add: store_get_def)
  moreover have "windows_ok waiting_session" "window_of Android waiting_session = (0, 0)"
    by (simp_all add: waiting_session_def rsession_new_def windows_ok_def window_of_def role_index_def)
  moreover have "\<forall>t\<in>set (map fst ?evs). t - 0 < secs 60" by (simp add: secs_def)
  ultimately have "length (accepted_of ''p'' acc) + 0 \<le> rl_rate_limit_per_min ?r"
    using eq by (intro relay_budget_survives_reconnect [of ?r "''p''" waiting_session 0 0 ?evs ?w acc r' w'])
      simp_all
  then show ?thesis unfolding eq by (simp add: relay_new_def)
qed

end
