(* ===== verification/Rust_Strings.thy ===== *)
theory Rust_Strings
  imports Prelude "HOL-Library.Sublist"
begin

text \<open>
  What the program uses of Rust's strings. A string is the list of its UTF-8 bytes, as
  characters, so \<open>length\<close> is \<open>len()\<close>. White space is the Unicode property, by the encodings of
  its code points: UTF-8 is prefix free and self-synchronizing, so in a valid string a
  sub-list equal to an encoding is that code point.
\<close>

section \<open>White space\<close>

definition ws_codes :: "string list" where
  "ws_codes = map (map char_of)
     ([[9], [10], [11], [12], [13], [32], [0xC2, 0x85], [0xC2, 0xA0], [0xE1, 0x9A, 0x80]]
      @ map (\<lambda>n. [0xE2, 0x80, 0x80 + n]) [0..<11]
      @ [[0xE2, 0x80, 0xA8], [0xE2, 0x80, 0xA9], [0xE2, 0x80, 0xAF], [0xE2, 0x81, 0x9F],
         [0xE3, 0x80, 0x80 :: nat]])"

text \<open>One prefix of the given list is taken off.\<close>

fun strip_one :: "string list \<Rightarrow> string \<Rightarrow> string option" where
  "strip_one [] s = None"
| "strip_one (c # cs) s =
     (if c \<noteq> [] \<and> take (length c) s = c then Some (drop (length c) s) else strip_one cs s)"

lemma strip_one_less: "strip_one cs s = Some s' \<Longrightarrow> length s' < length s"
proof (induction cs)
  case Nil
  then show ?case by simp
next
  case (Cons c cs)
  show ?case
  proof (cases "c \<noteq> [] \<and> take (length c) s = c")
    case True
    then have "0 < length c \<and> length c \<le> length s" by (metis length_0_conv length_take min.cobounded1 neq0_conv)
    moreover from this have "length s - length c < length s" by linarith
    ultimately show ?thesis using True Cons.prems by auto
  next
    case False
    with Cons show ?thesis by (auto split: if_splits)
  qed
qed

function strip_all :: "string list \<Rightarrow> string \<Rightarrow> string" where
  "strip_all cs s = (case strip_one cs s of None \<Rightarrow> s | Some s' \<Rightarrow> strip_all cs s')"
  by pat_completeness auto
termination
  by (relation "measure (\<lambda>(cs, s). length s)") (auto simp: strip_one_less)

declare strip_all.simps [simp del]

definition trim_start :: "string \<Rightarrow> string" where
  "trim_start s = strip_all ws_codes s"

definition trim_end :: "string \<Rightarrow> string" where
  "trim_end s = rev (strip_all (map rev ws_codes) (rev s))"

definition trim :: "string \<Rightarrow> string" where
  "trim s = trim_end (trim_start s)"

text \<open>\<open>chars().any(char::is_whitespace)\<close>\<close>

definition has_whitespace :: "string \<Rightarrow> bool" where
  "has_whitespace s \<longleftrightarrow> (\<exists>c\<in>set ws_codes. \<exists>i\<in>set [0..<length s]. take (length c) (drop i s) = c)"

lemma strip_one_None_iff:
  "strip_one cs s = None \<longleftrightarrow> (\<forall>c\<in>set cs. c \<noteq> [] \<longrightarrow> take (length c) s \<noteq> c)"
  by (induction cs) auto

lemma ws_codes_nonempty: "c \<in> set ws_codes \<Longrightarrow> c \<noteq> []"
  by (auto simp: ws_codes_def)

lemma no_whitespace_prefix:
  assumes "\<not> has_whitespace s" and "c \<in> set ws_codes"
  shows "take (length c) (drop i s) \<noteq> c"
proof
  assume eq: "take (length c) (drop i s) = c"
  then have "i < length s" using ws_codes_nonempty [OF assms(2)] by (cases "i < length s") auto
  with assms eq show False by (auto simp: has_whitespace_def)
qed

lemma trim_no_whitespace:
  assumes "\<not> has_whitespace s"
  shows "trim s = s"
proof -
  have "strip_one ws_codes s = None"
    using no_whitespace_prefix [OF assms, where i = 0] by (simp add: strip_one_None_iff)
  then have start: "trim_start s = s" by (simp add: trim_start_def strip_all.simps)
  have "take (length c) (rev s) \<noteq> rev c" if "c \<in> set ws_codes" for c
  proof
    assume "take (length c) (rev s) = rev c"
    then have "drop (length s - length c) s = c" by (simp add: take_rev)
    then have "take (length c) (drop (length s - length c) s) = c" by simp
    with no_whitespace_prefix [OF assms that] show False by blast
  qed
  then have "strip_one (map rev ws_codes) (rev s) = None" by (simp add: strip_one_None_iff)
  then have "trim_end s = s" by (simp add: trim_end_def strip_all.simps)
  with start show ?thesis by (simp add: trim_def)
qed

lemma trim_Nil [simp]: "trim [] = []"
  by (simp add: trim_no_whitespace has_whitespace_def)

text \<open>Trimming twice trims once.\<close>

lemma strip_all_None: "strip_one cs (strip_all cs s) = None"
proof (induction cs s rule: strip_all.induct)
  case (1 cs s)
  then show ?case by (cases "strip_one cs s") (simp_all add: strip_all.simps [of cs s])
qed

lemma strip_one_suffix: "strip_one cs s = Some r \<Longrightarrow> \<exists>p. s = p @ r"
  by (induction cs) (auto split: if_splits intro: append_take_drop_id [symmetric])

lemma strip_all_suffix: "\<exists>p. s = p @ strip_all cs s"
proof (induction cs s rule: strip_all.induct)
  case (1 cs s)
  show ?case
  proof (cases "strip_one cs s")
    case None
    then show ?thesis by (simp add: strip_all.simps [of cs s])
  next
    case (Some r)
    then obtain p q where "s = p @ r" "r = q @ strip_all cs r" using 1 strip_one_suffix by blast
    then have "s = (p @ q) @ strip_all cs r" by simp
    moreover have "strip_all cs s = strip_all cs r" using Some by (simp add: strip_all.simps [of cs s])
    ultimately show ?thesis by metis
  qed
qed

lemma trim_end_prefix: "\<exists>q. s = trim_end s @ q"
proof -
  obtain p where "rev s = p @ strip_all (map rev ws_codes) (rev s)" using strip_all_suffix by blast
  then have "s = trim_end s @ rev p" unfolding trim_end_def by (metis rev_append rev_rev_ident)
  then show ?thesis by blast
qed

lemma strip_one_prefix_None:
  assumes "strip_one cs (s @ q) = None"
  shows "strip_one cs s = None"
proof -
  have "take (length c) s \<noteq> c" if c: "c \<in> set cs" "c \<noteq> []" for c
  proof
    assume eq: "take (length c) s = c"
    then have "length c \<le> length s" by (metis length_take min.cobounded1)
    then have "take (length c) (s @ q) = c" using eq by simp
    then show False using assms c by (auto simp: strip_one_None_iff)
  qed
  then show ?thesis by (auto simp: strip_one_None_iff)
qed

lemma trim_trim [simp]: "trim (trim s) = trim s"
proof -
  let ?t = "trim_start s"
  obtain q where q: "?t = trim_end ?t @ q" using trim_end_prefix by blast
  have "strip_one ws_codes ?t = None" by (simp add: trim_start_def strip_all_None)
  then have "strip_one ws_codes (trim_end ?t) = None" using strip_one_prefix_None q by metis
  then have "trim_start (trim_end ?t) = trim_end ?t"
    unfolding trim_start_def by (simp add: strip_all.simps [of _ "trim_end (strip_all _ _)"] trim_start_def)
  moreover have "trim_end (trim_end ?t) = trim_end ?t"
    unfolding trim_end_def
    by (simp add: strip_all_None strip_all.simps [of "map rev ws_codes" "strip_all (map rev ws_codes) _"])
  ultimately show ?thesis by (simp add: trim_def)
qed

lemma set_trim: "set (trim s) \<subseteq> set s"
proof -
  obtain p q where "s = p @ trim_start s" "trim_start s = trim s @ q"
    using strip_all_suffix [of s ws_codes] trim_end_prefix [of "trim_start s"]
    by (auto simp: trim_start_def trim_def)
  then show ?thesis by (metis Un_upper1 Un_upper2 order_trans set_append)
qed

text \<open>Text of visible ASCII characters has nothing to trim.\<close>

definition visible :: "char \<Rightarrow> bool" where
  "visible c \<longleftrightarrow> 0x21 \<le> (of_char c :: nat) \<and> (of_char c :: nat) < 0x80"

lemma hidden_code: "c \<in> set ws_codes \<Longrightarrow> \<not> visible (hd c)"
  by (auto simp: ws_codes_def visible_def)

lemma visible_no_whitespace:
  assumes "list_all visible s"
  shows "\<not> has_whitespace s"
proof
  assume "has_whitespace s"
  then obtain c i where c: "c \<in> set ws_codes" "take (length c) (drop i s) = c"
    by (auto simp: has_whitespace_def)
  then have "hd c \<in> set (take (length c) (drop i s))" using ws_codes_nonempty by (metis list.set_sel(1))
  then have "hd c \<in> set s" by (meson in_set_dropD in_set_takeD)
  then show False using assms hidden_code [OF c(1)] by (simp add: list_all_iff)
qed

lemma visible_trim: "list_all visible s \<Longrightarrow> trim s = s"
  by (simp add: trim_no_whitespace visible_no_whitespace)

section \<open>Case\<close>

definition is_upper :: "char \<Rightarrow> bool" where
  "is_upper c \<longleftrightarrow> 65 \<le> (of_char c :: nat) \<and> (of_char c :: nat) \<le> 90"

definition ascii_lower_char :: "char \<Rightarrow> char" where
  "ascii_lower_char c = (if is_upper c then char_of ((of_char c :: nat) + 32) else c)"

definition to_ascii_lowercase :: "string \<Rightarrow> string" where
  "to_ascii_lowercase s = map ascii_lower_char s"

lemma ascii_lower_char_idem: "ascii_lower_char (ascii_lower_char c) = ascii_lower_char c"
proof (cases "is_upper c")
  case True
  then have "of_char (char_of ((of_char c :: nat) + 32)) = ((of_char c :: nat) + 32)"
    by (simp add: is_upper_def)
  with True show ?thesis by (simp add: ascii_lower_char_def is_upper_def)
qed (simp add: ascii_lower_char_def)

lemma to_ascii_lowercase_idem [simp]:
  "to_ascii_lowercase (to_ascii_lowercase s) = to_ascii_lowercase s"
  by (simp add: to_ascii_lowercase_def ascii_lower_char_idem)

section \<open>Splitting\<close>

fun split_once :: "char \<Rightarrow> string \<Rightarrow> (string \<times> string) option" where
  "split_once c [] = None"
| "split_once c (x # xs) =
     (if x = c then Some ([], xs)
      else case split_once c xs of None \<Rightarrow> None | Some (a, b) \<Rightarrow> Some (x # a, b))"

lemma split_once_SomeD: "split_once c s = Some (a, b) \<Longrightarrow> s = a @ c # b \<and> c \<notin> set a"
proof (induction s arbitrary: a)
  case Nil
  then show ?case by simp
next
  case (Cons x xs)
  then show ?case by (auto split: if_splits option.splits)
qed

lemma split_once_append: "c \<notin> set a \<Longrightarrow> split_once c (a @ c # b) = Some (a, b)"
  by (induction a) auto

lemma split_once_None: "split_once c s = None \<longleftrightarrow> c \<notin> set s"
  by (induction s) (auto split: option.splits)

text \<open>\<open>split(c).collect()\<close>: never empty.\<close>

fun split_on :: "char \<Rightarrow> string \<Rightarrow> string list" where
  "split_on c [] = [[]]"
| "split_on c (x # xs) =
     (if x = c then [] # split_on c xs
      else case split_on c xs of [] \<Rightarrow> [[x]] | p # ps \<Rightarrow> (x # p) # ps)"

lemma split_on_nonempty [simp]: "split_on c s \<noteq> []"
  by (cases s) (auto split: list.split)

lemma split_on_parts: "p \<in> set (split_on c s) \<Longrightarrow> c \<notin> set p"
proof (induction s arbitrary: p)
  case Nil
  then show ?case by simp
next
  case (Cons x xs)
  then show ?case by (cases "split_on c xs") (auto split: if_splits)
qed

fun join :: "char \<Rightarrow> string list \<Rightarrow> string" where
  "join c [] = []"
| "join c [p] = p"
| "join c (p # q # ps) = p @ c # join c (q # ps)"

lemma join_split_on [simp]: "join c (split_on c s) = s"
proof (induction s)
  case Nil
  then show ?case by simp
next
  case (Cons x xs)
  obtain p ps where "split_on c xs = p # ps" by (cases "split_on c xs") auto
  with Cons show ?case by (cases ps) auto
qed

lemma split_on_no: "c \<notin> set p \<Longrightarrow> split_on c p = [p]"
  by (induction p) auto

lemma split_on_append: "c \<notin> set p \<Longrightarrow> split_on c (p @ c # s) = p # split_on c s"
  by (induction p) auto

lemma split_on_join:
  "ps \<noteq> [] \<Longrightarrow> \<forall>p\<in>set ps. c \<notin> set p \<Longrightarrow> split_on c (join c ps) = ps"
  by (induction c ps rule: join.induct) (auto simp: split_on_no split_on_append)

definition strip_prefix :: "string \<Rightarrow> string \<Rightarrow> string option" where
  "strip_prefix p s = (if take (length p) s = p then Some (drop (length p) s) else None)"

lemma strip_prefix_Some: "strip_prefix p s = Some r \<longleftrightarrow> s = p @ r"
  by (auto simp: strip_prefix_def) (metis append_take_drop_id)

section \<open>Numbers\<close>

definition digit_char :: "nat \<Rightarrow> char" where
  "digit_char d = char_of (48 + d)"

definition is_digit :: "char \<Rightarrow> bool" where
  "is_digit c \<longleftrightarrow> 48 \<le> (of_char c :: nat) \<and> (of_char c :: nat) \<le> 57"

definition digit_value :: "char \<Rightarrow> nat" where
  "digit_value c = (of_char c :: nat) - 48"

fun decimal :: "nat \<Rightarrow> string" where
  "decimal n = (if n < 10 then [digit_char n] else decimal (n div 10) @ [digit_char (n mod 10)])"

declare decimal.simps [simp del]

definition decimal_value :: "string \<Rightarrow> nat" where
  "decimal_value s = foldl (\<lambda>n c. n * 10 + digit_value c) 0 s"

text \<open>\<open>parse::<u64>()\<close>: an optional plus sign, then at least one digit, and no overflow.\<close>

definition parse_u64 :: "string \<Rightarrow> nat option" where
  "parse_u64 s =
     (let ds = (if s \<noteq> [] \<and> hd s = CHR ''+'' then tl s else s)
      in if ds = [] \<or> (\<exists>c\<in>set ds. \<not> is_digit c) \<or> 2 ^ 64 \<le> decimal_value ds then None
         else Some (decimal_value ds))"

lemma digit_char_value: "d < 10 \<Longrightarrow> is_digit (digit_char d) \<and> digit_value (digit_char d) = d"
  by (simp add: is_digit_def digit_value_def digit_char_def)

lemma decimal_digits: "\<forall>c\<in>set (decimal n). is_digit c"
proof (induction n rule: decimal.induct)
  case (1 n)
  then show ?case
    by (subst decimal.simps) (auto simp: digit_char_value)
qed

lemma decimal_value_decimal [simp]: "decimal_value (decimal n) = n"
proof (induction n rule: decimal.induct)
  case (1 n)
  then show ?case
    by (subst decimal.simps) (auto simp: decimal_value_def digit_char_value)
qed

lemma decimal_nonempty [simp]: "decimal n \<noteq> []"
  by (subst decimal.simps) simp

lemma decimal_hd_nonzero: "0 < n \<Longrightarrow> hd (decimal n) \<noteq> CHR ''0''"
proof (induction n rule: decimal.induct)
  case (1 n)
  show ?case
  proof (cases "n < 10")
    case True
    with 1 have "(of_char (digit_char n) :: nat) \<noteq> of_char (CHR ''0'')" by (simp add: digit_char_def)
    then show ?thesis using True by (subst decimal.simps) auto
  next
    case False
    with 1 show ?thesis by (subst decimal.simps) (simp add: hd_append del: decimal.simps)
  qed
qed

lemma length_decimal_le: "n < 10 ^ k \<Longrightarrow> 0 < k \<Longrightarrow> length (decimal n) \<le> k"
proof (induction k arbitrary: n)
  case 0
  then show ?case by simp
next
  case (Suc k)
  show ?case
  proof (cases "n < 10")
    case True
    then show ?thesis by (subst decimal.simps) simp
  next
    case False
    with Suc.prems have "n div 10 < 10 ^ k" "0 < k"
      by (simp_all add: less_mult_imp_div_less mult.commute, cases k) auto
    with Suc.IH False show ?thesis by (subst decimal.simps) (simp del: decimal.simps)
  qed
qed

lemma decimal_hd: "hd (decimal n) \<noteq> CHR ''+''"
proof -
  have "is_digit (hd (decimal n))"
    by (rule bspec [OF decimal_digits hd_in_set [OF decimal_nonempty]])
  then show ?thesis by (auto simp: is_digit_def)
qed

lemma parse_u64_decimal [simp]:
  assumes "n < 2 ^ 64"
  shows "parse_u64 (decimal n) = Some n"
proof -
  have ds: "(if decimal n \<noteq> [] \<and> hd (decimal n) = CHR ''+'' then tl (decimal n) else decimal n)
      = decimal n"
    using decimal_hd by simp
  have "\<not> (decimal n = [] \<or> (\<exists>c\<in>set (decimal n). \<not> is_digit c) \<or> 2 ^ 64 \<le> decimal_value (decimal n))"
    using decimal_digits [of n] assms by simp
  then show ?thesis unfolding parse_u64_def Let_def ds by simp
qed

lemma decimal_no_char: "\<not> is_digit c \<Longrightarrow> c \<notin> set (decimal n)"
  using decimal_digits by blast

section \<open>UTF-8\<close>

definition cont :: "char \<Rightarrow> bool" where
  "cont c \<longleftrightarrow> 0x80 \<le> (of_char c :: nat) \<and> (of_char c :: nat) \<le> 0xBF"

text \<open>\<open>String::from_utf8\<close> accepts exactly the well-formed sequences of the Unicode standard.\<close>

fun utf8_valid :: "string \<Rightarrow> bool" where
  "utf8_valid [] = True"
| "utf8_valid (a # s) =
     (let n = (of_char a :: nat) in
      if n \<le> 0x7F then utf8_valid s
      else case s of
        [] \<Rightarrow> False
      | b # s1 \<Rightarrow>
        (let m = (of_char b :: nat) in
         if 0xC2 \<le> n \<and> n \<le> 0xDF then cont b \<and> utf8_valid s1
         else case s1 of
           [] \<Rightarrow> False
         | c # s2 \<Rightarrow>
           if 0xE0 \<le> n \<and> n \<le> 0xEF
           then cont b \<and> (n = 0xE0 \<longrightarrow> 0xA0 \<le> m) \<and> (n = 0xED \<longrightarrow> m \<le> 0x9F) \<and> cont c
                \<and> utf8_valid s2
           else case s2 of
             [] \<Rightarrow> False
           | d # s3 \<Rightarrow>
               0xF0 \<le> n \<and> n \<le> 0xF4 \<and> cont b \<and> (n = 0xF0 \<longrightarrow> 0x90 \<le> m)
               \<and> (n = 0xF4 \<longrightarrow> m \<le> 0x8F) \<and> cont c \<and> cont d \<and> utf8_valid s3))"

lemma utf8_valid_ascii: "\<forall>c\<in>set s. (of_char c :: nat) \<le> 0x7F \<Longrightarrow> utf8_valid s"
  by (induction s) auto

end
