(* ===== verification/Relay_Auth.thy ===== *)
theory Relay_Auth
  imports Rust_Strings Relay_Session
begin

unbundle bit_operations_syntax

text \<open>
  relay/src/auth.rs: roles, the constant-time comparison of pairing keys, e-mail and password
  policy, session tokens. The crates base64, hex, hmac and pbkdf2 are the fields of the
  record \<open>relay_crypto\<close>; random salts are arguments. Errors are the constructors of the source.
\<close>

datatype auth_error =
  InvalidPairingKey | InvalidRole | EmptyKey | WeakPassword | InvalidEmail | InvalidToken
| ExpiredToken

definition PASSWORD_ITERATIONS :: nat where "PASSWORD_ITERATIONS = 210000"
definition MIN_PASSWORD_LEN :: nat where "MIN_PASSWORD_LEN = 10"

record relay_crypto =
  rc_b64_encode :: "string \<Rightarrow> string"
  rc_b64_decode :: "string \<Rightarrow> string option"
  rc_hex_encode :: "string \<Rightarrow> string"
  rc_hex_decode :: "string \<Rightarrow> string option"
  rc_hmac :: "string \<Rightarrow> string \<Rightarrow> string"
  rc_pbkdf2 :: "string \<Rightarrow> string \<Rightarrow> nat \<Rightarrow> string"

record password_hash =
  ph_salt_hex :: string
  ph_hash_hex :: string
  ph_iterations :: nat

definition parse_role :: "string \<Rightarrow> auth_error + role" where
  "parse_role role =
     (if role = ''android'' \<or> role = ''phone'' then Inr Android
      else if role = ''desktop'' then Inr Desktop
      else Inl InvalidRole)"

section \<open>Constant-time comparison\<close>

definition char_byte :: "char \<Rightarrow> u8" where
  "char_byte c = of_nat (of_char c)"

text \<open>The fold over the zipped bytes: the disjunction of all differences.\<close>

definition byte_diff :: "string \<Rightarrow> string \<Rightarrow> u8" where
  "byte_diff a b = fold (\<lambda>(x, y) acc. acc OR (char_byte x XOR char_byte y)) (zip a b) 0"

definition constant_time_eq :: "string \<Rightarrow> string \<Rightarrow> bool" where
  "constant_time_eq a b = (if length a \<noteq> length b then False else byte_diff a b = 0)"

definition verify_pairing_key :: "string \<Rightarrow> string \<Rightarrow> auth_error + unit" where
  "verify_pairing_key provided expected =
     (if provided = [] then Inl EmptyKey
      else if length provided \<noteq> length expected then Inl InvalidPairingKey
      else if byte_diff provided expected = 0 then Inr () else Inl InvalidPairingKey)"

lemma char_byte_inj [simp]: "char_byte x = char_byte y \<longleftrightarrow> x = y"
proof
  assume "char_byte x = char_byte y"
  then have "(of_char x :: nat) mod 256 = of_char y mod 256"
    by (metis char_byte_def unat_of_nat_u8)
  then show "x = y" by simp
qed simp

lemma xor_zero: "(a :: u8) XOR b = 0 \<longleftrightarrow> a = b"
proof
  assume "a XOR b = 0"
  then have "(a XOR b) XOR b = b" by simp
  then show "a = b" by (simp add: xor.assoc)
qed simp

lemma or_xor_zero: "(acc :: u8) OR (a XOR b) = 0 \<longleftrightarrow> acc = 0 \<and> a = b"
  by (simp add: or_eq_0_iff xor_zero)

lemma byte_diff_fold:
  "length a = length b \<Longrightarrow>
    fold (\<lambda>(x, y) acc. acc OR (char_byte x XOR char_byte y)) (zip a b) acc = 0
      \<longleftrightarrow> acc = 0 \<and> a = b"
proof (induction a b arbitrary: acc rule: list_induct2)
  case Nil
  then show ?case by simp
next
  case (Cons x xs y ys)
  then show ?case by (auto simp: or_xor_zero)
qed

lemma byte_diff_zero: "length a = length b \<Longrightarrow> byte_diff a b = 0 \<longleftrightarrow> a = b"
  by (simp add: byte_diff_def byte_diff_fold)

lemma constant_time_eq_iff: "constant_time_eq a b \<longleftrightarrow> a = b"
  by (auto simp: constant_time_eq_def byte_diff_zero)

section \<open>E-mail addresses\<close>

definition normalize_email :: "string \<Rightarrow> auth_error + string" where
  "normalize_email email =
     (let normalized = to_ascii_lowercase (trim email)
      in case split_once CHR ''@'' normalized of
           None \<Rightarrow> Inl InvalidEmail
         | Some (local, domain) \<Rightarrow>
             if local = [] \<or> domain = [] \<or> hd domain = CHR ''.'' \<or> last domain = CHR ''.''
                \<or> CHR ''.'' \<notin> set domain \<or> has_whitespace normalized
             then Inl InvalidEmail
             else Inr normalized)"

lemma plain_email: "normalize_email ''a@b.c'' = Inr ''a@b.c''"
proof -
  have "list_all visible ''a@b.c''" by (simp add: visible_def)
  then show ?thesis
    by (simp add: normalize_email_def visible_trim visible_no_whitespace to_ascii_lowercase_def
        ascii_lower_char_def is_upper_def)
qed

lemma normalize_email_idem:
  assumes "normalize_email e = Inr n"
  shows "normalize_email n = Inr n"
proof -
  have n: "n = to_ascii_lowercase (trim e)" "\<not> has_whitespace n"
    using assms by (auto simp: normalize_email_def Let_def split: option.splits if_splits)
  then have "to_ascii_lowercase (trim n) = n" by (simp add: trim_no_whitespace)
  then show ?thesis
    using assms n by (simp add: normalize_email_def Let_def)
qed

section \<open>Passwords\<close>

definition validate_password :: "string \<Rightarrow> auth_error + unit" where
  "validate_password password =
     (if length password < MIN_PASSWORD_LEN then Inl WeakPassword else Inr ())"

definition hash_password_with_salt ::
  "relay_crypto \<Rightarrow> string \<Rightarrow> string \<Rightarrow> nat \<Rightarrow> password_hash" where
  "hash_password_with_salt c password salt iterations =
     \<lparr>ph_salt_hex = rc_hex_encode c salt,
      ph_hash_hex = rc_hex_encode c (rc_pbkdf2 c password salt iterations),
      ph_iterations = iterations\<rparr>"

definition create_password_hash ::
  "relay_crypto \<Rightarrow> string \<Rightarrow> string \<Rightarrow> auth_error + password_hash" where
  "create_password_hash c salt password =
     result_bind (validate_password password)
       (\<lambda>_. Inr (hash_password_with_salt c password salt PASSWORD_ITERATIONS))"

definition is_hexdigit :: "char \<Rightarrow> bool" where
  "is_hexdigit ch \<longleftrightarrow> is_digit ch \<or> (let n = (of_char ch :: nat) in
     65 \<le> n \<and> n \<le> 70 \<or> 97 \<le> n \<and> n \<le> 102)"

definition verify_password :: "relay_crypto \<Rightarrow> string \<Rightarrow> password_hash \<Rightarrow> auth_error + bool" where
  "verify_password c password expected =
     (if \<not> (1 \<le> ph_iterations expected \<and> ph_iterations expected \<le> PASSWORD_ITERATIONS)
         \<or> length (ph_salt_hex expected) \<noteq> 32 \<or> length (ph_hash_hex expected) \<noteq> 64
         \<or> \<not> list_all is_hexdigit (ph_hash_hex expected)
      then Inl InvalidToken
      else case rc_hex_decode c (ph_salt_hex expected) of
             None \<Rightarrow> Inl InvalidToken
           | Some salt \<Rightarrow>
               Inr (constant_time_eq
                      (ph_hash_hex (hash_password_with_salt c password salt (ph_iterations expected)))
                      (ph_hash_hex expected)))"

section \<open>Session tokens\<close>

definition sign :: "relay_crypto \<Rightarrow> string \<Rightarrow> string \<Rightarrow> string" where
  "sign c message secret = rc_hex_encode c (rc_hmac c secret message)"

definition create_session_token :: "relay_crypto \<Rightarrow> string \<Rightarrow> string \<Rightarrow> nat \<Rightarrow> nat \<Rightarrow> string" where
  "create_session_token c user_id secret now ttl =
     (let expires_at = min (now + ttl) (2 ^ 64 - 1);
          user = rc_b64_encode c user_id;
          unsigned = ''v1.'' @ user @ ''.'' @ decimal expires_at
      in unsigned @ ''.'' @ sign c unsigned secret)"

definition verify_session_token ::
  "relay_crypto \<Rightarrow> string \<Rightarrow> string \<Rightarrow> nat \<Rightarrow> auth_error + string" where
  "verify_session_token c token secret now =
     (let parts = split_on CHR ''.'' token
      in if length parts \<noteq> 4 \<or> parts ! 0 \<noteq> ''v1'' then Inl InvalidToken
         else
           let unsigned = parts ! 0 @ ''.'' @ parts ! 1 @ ''.'' @ parts ! 2
           in if \<not> constant_time_eq (sign c unsigned secret) (parts ! 3) then Inl InvalidToken
              else case parse_u64 (parts ! 2) of
                     None \<Rightarrow> Inl InvalidToken
                   | Some expires_at \<Rightarrow>
                       if expires_at \<le> now then Inl ExpiredToken
                       else case rc_b64_decode c (parts ! 1) of
                              None \<Rightarrow> Inl InvalidToken
                            | Some user_id \<Rightarrow>
                                if utf8_valid user_id then Inr user_id else Inl InvalidToken)"

text \<open>
  Documented behaviour of the crates: decoding undoes encoding, an encoding has no dot, a hex
  encoding consists of hex digits, two for each byte, and PBKDF2 fills 32 bytes.
\<close>

definition crypto_laws :: "relay_crypto \<Rightarrow> bool" where
  "crypto_laws c \<longleftrightarrow>
     (\<forall>s. rc_b64_decode c (rc_b64_encode c s) = Some s \<and> CHR ''.'' \<notin> set (rc_b64_encode c s))
     \<and> (\<forall>s. rc_hex_decode c (rc_hex_encode c s) = Some s \<and> list_all is_hexdigit (rc_hex_encode c s)
          \<and> length (rc_hex_encode c s) = 2 * length s)
     \<and> (\<forall>p s n. length (rc_pbkdf2 c p s n) = 32)"

lemma hexdigit_not_dot: "is_hexdigit ch \<Longrightarrow> ch \<noteq> CHR ''.''"
  by (auto simp: is_hexdigit_def is_digit_def)

lemma sign_no_dot: "crypto_laws c \<Longrightarrow> CHR ''.'' \<notin> set (sign c m s)"
  using hexdigit_not_dot by (fastforce simp: crypto_laws_def sign_def list_all_iff)

lemma decimal_no_dot: "CHR ''.'' \<notin> set (decimal n)"
  by (rule decimal_no_char) (simp add: is_digit_def)

lemma token_parts:
  assumes "crypto_laws c"
  shows "split_on CHR ''.'' (create_session_token c u secret now ttl) =
    [''v1'', rc_b64_encode c u, decimal (min (now + ttl) (2 ^ 64 - 1)),
     sign c (''v1.'' @ rc_b64_encode c u @ ''.'' @ decimal (min (now + ttl) (2 ^ 64 - 1))) secret]"
  (is "_ = [_, ?u, ?d, ?s]")
proof -
  have "create_session_token c u secret now ttl = join CHR ''.'' [''v1'', ?u, ?d, ?s]"
    by (simp add: create_session_token_def Let_def)
  moreover have "\<forall>p\<in>set [''v1'', ?u, ?d, ?s]. CHR ''.'' \<notin> set p"
    using assms sign_no_dot [OF assms] decimal_no_dot by (auto simp: crypto_laws_def)
  ultimately show ?thesis by (metis list.distinct(1) split_on_join)
qed

lemma verify_session_token_ok:
  assumes "verify_session_token c token secret now = Inr u"
  obtains b d where "token = ''v1.'' @ b @ ''.'' @ d @ ''.'' @ sign c (''v1.'' @ b @ ''.'' @ d) secret"
    "rc_b64_decode c b = Some u" "\<exists>e. parse_u64 d = Some e \<and> now < e" "utf8_valid u"
proof -
  obtain v b d s where parts: "split_on CHR ''.'' token = [v, b, d, s]"
    using assms
    by (auto simp: verify_session_token_def Let_def length_Suc_conv eval_nat_numeral split: if_splits)
  have token: "token = v @ ''.'' @ b @ ''.'' @ d @ ''.'' @ s"
    using join_split_on [of "CHR ''.''" token] unfolding parts by simp
  from assms parts have "v = ''v1''" "s = sign c (v @ ''.'' @ b @ ''.'' @ d) secret"
      "rc_b64_decode c b = Some u" "\<exists>e. parse_u64 d = Some e \<and> now < e" "utf8_valid u"
    by (auto simp: verify_session_token_def Let_def constant_time_eq_iff
        split: if_splits option.splits)
  then show ?thesis using token that by simp
qed

lemma verify_created_token:
  assumes "crypto_laws c" and "utf8_valid user"
  shows "verify_session_token c (create_session_token c user secret now ttl) secret later =
    (if later < min (now + ttl) (2 ^ 64 - 1) then Inr user else Inl ExpiredToken)"
proof -
  define e where "e = min (now + ttl) (2 ^ 64 - 1 :: nat)"
  have e: "e < 2 ^ 64" by (simp add: e_def)
  note parts = token_parts [OF assms(1), of user secret now ttl, folded e_def]
  have "rc_b64_decode c (rc_b64_encode c user) = Some user"
    using assms(1) by (simp add: crypto_laws_def)
  then show ?thesis
    unfolding verify_session_token_def Let_def parts e_def [symmetric]
    using assms(2) e by (simp add: constant_time_eq_iff not_le)
qed

section \<open>A concrete library for the witnesses\<close>

text \<open>Every byte as two hex digits serves for both encodings; the hash is constant.\<close>

definition nibble :: "nat \<Rightarrow> char" where
  "nibble n = (if n < 10 then char_of (48 + n) else char_of (87 + n))"

definition unnibble :: "char \<Rightarrow> nat" where
  "unnibble c = (if is_digit c then (of_char c :: nat) - 48 else (of_char c :: nat) - 87)"

fun toy_hex :: "string \<Rightarrow> string" where
  "toy_hex [] = []"
| "toy_hex (c # s) = nibble ((of_char c :: nat) div 16) # nibble ((of_char c :: nat) mod 16) # toy_hex s"

fun toy_unhex :: "string \<Rightarrow> string option" where
  "toy_unhex [] = Some []"
| "toy_unhex [a] = None"
| "toy_unhex (a # b # s) =
     (case toy_unhex s of None \<Rightarrow> None | Some t \<Rightarrow> Some (char_of (unnibble a * 16 + unnibble b) # t))"

definition toy_crypto :: relay_crypto where
  "toy_crypto = \<lparr>rc_b64_encode = toy_hex, rc_b64_decode = toy_unhex, rc_hex_encode = toy_hex,
     rc_hex_decode = toy_unhex, rc_hmac = \<lambda>s m. rev s @ m, rc_pbkdf2 = \<lambda>p s n. replicate 31 CHR ''h'' @ [if p = [] then CHR ''e'' else hd p]\<rparr>"

lemma nibble_less: "n < 16 \<Longrightarrow> n \<in> set [0..<16]"
  by simp

lemma unnibble_nibble [simp]: "n < 16 \<Longrightarrow> unnibble (nibble n) = n"
  by (auto simp: unnibble_def nibble_def is_digit_def)

lemma hexdigit_nibble [simp]: "n < 16 \<Longrightarrow> is_hexdigit (nibble n)"
  by (auto simp: is_hexdigit_def nibble_def is_digit_def Let_def)

lemma toy_unhex_hex [simp]: "toy_unhex (toy_hex s) = Some s"
proof (induction s)
  case Nil
  then show ?case by simp
next
  case (Cons c s)
  have "(of_char c :: nat) div 16 < 16" by (simp add: less_mult_imp_div_less)
  with Cons show ?case by simp
qed

lemma toy_hex_digits: "list_all is_hexdigit (toy_hex s) \<and> length (toy_hex s) = 2 * length s"
proof (induction s)
  case Nil
  then show ?case by simp
next
  case (Cons c s)
  have "(of_char c :: nat) div 16 < 16" by (simp add: less_mult_imp_div_less)
  with Cons show ?case by simp
qed

lemma toy_crypto_laws: "crypto_laws toy_crypto"
  using toy_hex_digits hexdigit_not_dot
  by (fastforce simp: crypto_laws_def toy_crypto_def list_all_iff)

section \<open>Properties\<close>

text \<open>A pairing key is accepted exactly when it is the expected one and not empty: the
  branch-free comparison is equality.\<close>

theorem pairing_key_comparison_exact:
  "verify_pairing_key provided expected =
    (if provided = [] then Inl EmptyKey
     else if provided = expected then Inr () else Inl InvalidPairingKey)"
  by (auto simp: verify_pairing_key_def byte_diff_zero)

text \<open>C19: a session token of a user verifies under its secret, giving the user back, exactly
  until its expiry time (the issue time plus its life, capped at the largest 64-bit number).\<close>

theorem session_token_roundtrip:
  assumes "crypto_laws c" and "utf8_valid user"
  shows "verify_session_token c (create_session_token c user secret now ttl) secret later =
    (if later < min (now + ttl) (2 ^ 64 - 1) then Inr user else Inl ExpiredToken)"
  using assms by (rule verify_created_token)

theorem session_token_roundtrip_witness:
  "verify_session_token toy_crypto (create_session_token toy_crypto ''user_1'' ''s'' 1000 10) ''s'' 1009
      = Inr ''user_1''
   \<and> verify_session_token toy_crypto (create_session_token toy_crypto ''user_1'' ''s'' 1000 10) ''s'' 1010
      = Inl ExpiredToken"
  using session_token_roundtrip [OF toy_crypto_laws, of "''user_1''" "''s''" 1000 10 1009]
    session_token_roundtrip [OF toy_crypto_laws, of "''user_1''" "''s''" 1000 10 1010]
  by (simp add: utf8_valid_ascii)

text \<open>A token that verifies carries the keyed signature of exactly its own version, user
  and expiry; the user it gives is the decoded one and the expiry lies in the future.\<close>

theorem verified_token_is_signed:
  assumes "verify_session_token c token secret now = Inr user"
  shows "\<exists>b d e. token = ''v1.'' @ b @ ''.'' @ d @ ''.'' @ sign c (''v1.'' @ b @ ''.'' @ d) secret
    \<and> rc_b64_decode c b = Some user \<and> parse_u64 d = Some e \<and> now < e"
  using assms by (rule verify_session_token_ok) blast

theorem verified_token_is_signed_witness:
  "\<exists>b d e. create_session_token toy_crypto ''u'' ''s'' 0 5 =
      ''v1.'' @ b @ ''.'' @ d @ ''.'' @ sign toy_crypto (''v1.'' @ b @ ''.'' @ d) ''s''
    \<and> rc_b64_decode toy_crypto b = Some ''u'' \<and> parse_u64 d = Some e \<and> 3 < e"
  by (rule verified_token_is_signed)
    (simp add: verify_created_token [OF toy_crypto_laws] utf8_valid_ascii)

end
