(* ===== verification/Account_Store.thy ===== *)
theory Account_Store
  imports Relay_Auth
begin

text \<open>
  relay/src/account_store.rs: the accounts of the relay, in memory and in one file that is
  replaced by rename. Parameters are the JSON text of the data, the random identifiers and
  salts, and, for the file system, whether each of its calls succeeds (\<open>save_script\<close>). Each
  operation holds the mutex of the data throughout.
\<close>

datatype auth_provider = Password | Google

record user_account =
  ua_id :: string
  ua_email :: string
  ua_password :: "password_hash option"
  ua_provider :: auth_provider
  ua_created_at :: nat

record store_data =
  sd_users :: "(string, user_account) store"
  sd_email_index :: "(string, string) store"

definition store_data_default :: store_data where
  "store_data_default = \<lparr>sd_users = [], sd_email_index = []\<rparr>"

datatype register_error = AlreadyExists | Auth auth_error | StoreFailed

datatype login_error = InvalidCredentials

section \<open>The file\<close>

record disk =
  dk_file :: "string option"
  dk_temporaries :: "string list"

record save_script =
  sv_create_dir :: bool
  sv_serialize :: bool
  sv_open :: bool
  sv_write :: bool
  sv_sync :: bool
  sv_rename :: bool
  sv_cleanup :: bool

record account_store =
  as_data :: store_data
  as_disk :: disk

text \<open>\<open>load\<close>: the file when there is one; \<open>Inl ()\<close> stands for the error that stops the relay.\<close>

definition account_load ::
  "(string \<Rightarrow> store_data option) \<Rightarrow> bool \<Rightarrow> disk \<Rightarrow> unit + account_store" where
  "account_load from_json readable d =
     (case dk_file d of
        None \<Rightarrow> Inr \<lparr>as_data = store_data_default, as_disk = d\<rparr>
      | Some text \<Rightarrow>
          if \<not> readable then Inl ()
          else case from_json text of
                 None \<Rightarrow> Inl ()
               | Some data \<Rightarrow> Inr \<lparr>as_data = data, as_disk = d\<rparr>)"

definition save_locked ::
  "(store_data \<Rightarrow> string) \<Rightarrow> save_script \<Rightarrow> string \<Rightarrow> store_data \<Rightarrow> disk \<Rightarrow> bool \<times> disk" where
  "save_locked to_json sv temporary data d =
     (if \<not> sv_create_dir sv \<or> \<not> sv_serialize sv then (False, d)
      else if \<not> sv_open sv \<or> temporary \<in> set (dk_temporaries d) then (False, d)
      else
        let d1 = d\<lparr>dk_temporaries := temporary # dk_temporaries d\<rparr>
        in if sv_write sv \<and> sv_sync sv \<and> sv_rename sv
           then (True, d1\<lparr>dk_file := Some (to_json data), dk_temporaries := dk_temporaries d\<rparr>)
           else (False, if sv_cleanup sv then d1\<lparr>dk_temporaries := dk_temporaries d\<rparr> else d1))"

section \<open>Operations\<close>

definition add_user :: "user_account \<Rightarrow> string \<Rightarrow> store_data \<Rightarrow> store_data" where
  "add_user user email data =
     data\<lparr>sd_email_index := store_put email (ua_id user) (sd_email_index data),
          sd_users := store_put (ua_id user) user (sd_users data)\<rparr>"

text \<open>The end of both registrations: save a copy with the user, then publish it in memory.\<close>

definition publish_user ::
  "(store_data \<Rightarrow> string) \<Rightarrow> save_script \<Rightarrow> string \<Rightarrow> user_account \<Rightarrow> account_store
     \<Rightarrow> (register_error + user_account) \<times> account_store" where
  "publish_user to_json sv temporary user st =
     (let next_data = add_user user (ua_email user) (as_data st)
      in case save_locked to_json sv temporary next_data (as_disk st) of
           (False, d) \<Rightarrow> (Inl StoreFailed, st\<lparr>as_disk := d\<rparr>)
         | (True, d) \<Rightarrow> (Inr user, st\<lparr>as_data := next_data, as_disk := d\<rparr>))"

record io =
  io_uuid :: string
  io_salt :: string
  io_temporary :: string
  io_save :: save_script

definition register_password ::
  "relay_crypto \<Rightarrow> (store_data \<Rightarrow> string) \<Rightarrow> io \<Rightarrow> string \<Rightarrow> string \<Rightarrow> nat \<Rightarrow> account_store
     \<Rightarrow> (register_error + user_account) \<times> account_store" where
  "register_password c to_json i email password now st =
     (case normalize_email email of
        Inl e \<Rightarrow> (Inl (Auth e), st)
      | Inr email \<Rightarrow>
          (case create_password_hash c (io_salt i) password of
             Inl e \<Rightarrow> (Inl (Auth e), st)
           | Inr hash \<Rightarrow>
               if store_get (sd_email_index (as_data st)) email \<noteq> None then (Inl AlreadyExists, st)
               else publish_user to_json (io_save i) (io_temporary i)
                      \<lparr>ua_id = ''user_'' @ io_uuid i, ua_email = email, ua_password = Some hash,
                       ua_provider = Password, ua_created_at = now\<rparr> st))"

definition login_password ::
  "relay_crypto \<Rightarrow> string \<Rightarrow> string \<Rightarrow> account_store \<Rightarrow> login_error + user_account" where
  "login_password c email password st =
     (case normalize_email email of
        Inl _ \<Rightarrow> Inl InvalidCredentials
      | Inr email \<Rightarrow>
          (case store_get (sd_email_index (as_data st)) email of
             None \<Rightarrow> Inl InvalidCredentials
           | Some user_id \<Rightarrow>
               (case store_get (sd_users (as_data st)) user_id of
                  None \<Rightarrow> Inl InvalidCredentials
                | Some user \<Rightarrow>
                    (case ua_password user of
                       None \<Rightarrow> Inl InvalidCredentials
                     | Some hash \<Rightarrow>
                         (case verify_password c password hash of
                            Inl _ \<Rightarrow> Inl InvalidCredentials
                          | Inr ok \<Rightarrow> if ok then Inr user else Inl InvalidCredentials)))))"

definition upsert_google_user ::
  "(store_data \<Rightarrow> string) \<Rightarrow> io \<Rightarrow> string \<Rightarrow> nat \<Rightarrow> account_store
     \<Rightarrow> (register_error + user_account) \<times> account_store" where
  "upsert_google_user to_json i email now st =
     (case normalize_email email of
        Inl e \<Rightarrow> (Inl (Auth e), st)
      | Inr email \<Rightarrow>
          (case store_get (sd_email_index (as_data st)) email of
             Some user_id \<Rightarrow>
               (case store_get (sd_users (as_data st)) user_id of
                  None \<Rightarrow> (Inl StoreFailed, st)
                | Some user \<Rightarrow> (Inr user, st))
           | None \<Rightarrow>
               publish_user to_json (io_save i) (io_temporary i)
                 \<lparr>ua_id = ''user_'' @ io_uuid i, ua_email = email, ua_password = None,
                  ua_provider = Google, ua_created_at = now\<rparr> st))"

section \<open>Consistency\<close>

text \<open>
  The index and the users are two views of the same accounts: each entry leads to the user of
  that e-mail, each user is indexed under his normalized e-mail.
\<close>

definition accounts_ok :: "store_data \<Rightarrow> bool" where
  "accounts_ok d \<longleftrightarrow> store_valid (sd_users d) \<and> store_valid (sd_email_index d)
     \<and> (\<forall>e i. store_get (sd_email_index d) e = Some i \<longrightarrow>
          (\<exists>u. store_get (sd_users d) i = Some u \<and> ua_email u = e))
     \<and> (\<forall>i u. store_get (sd_users d) i = Some u \<longrightarrow> ua_id u = i
          \<and> store_get (sd_email_index d) (ua_email u) = Some i
          \<and> normalize_email (ua_email u) = Inr (ua_email u))"

lemma accounts_ok_default: "accounts_ok store_data_default"
  by (simp add: accounts_ok_def store_data_default_def)

lemma add_user_ok:
  assumes "accounts_ok d" and "store_get (sd_users d) (ua_id u) = None"
    and "store_get (sd_email_index d) (ua_email u) = None"
    and "normalize_email (ua_email u) = Inr (ua_email u)"
  shows "accounts_ok (add_user u (ua_email u) d)"
proof -
  have other: "ua_email v \<noteq> ua_email u" "i \<noteq> ua_id u" if "store_get (sd_users d) i = Some v" for i v
  proof -
    have "store_get (sd_email_index d) (ua_email v) = Some i" "ua_id v = i"
      using assms(1) that by (auto simp: accounts_ok_def)
    then show "ua_email v \<noteq> ua_email u" "i \<noteq> ua_id u" using assms(2,3) that by auto
  qed
  have idx: "i \<noteq> ua_id u" if "store_get (sd_email_index d) e = Some i" for e i
    using assms that by (force simp: accounts_ok_def)
  show ?thesis
    using assms(1,4) other idx
    by (auto simp: accounts_ok_def add_user_def kv.valid_put kv.get_put split: if_splits)
qed

lemma publish_user_cases:
  assumes "publish_user to_json sv tmp u st = (r, st')"
  shows "(r = Inl StoreFailed \<and> as_data st' = as_data st \<and> dk_file (as_disk st') = dk_file (as_disk st))
    \<or> (r = Inr u \<and> as_data st' = add_user u (ua_email u) (as_data st)
       \<and> dk_file (as_disk st') = Some (to_json (as_data st')))"
  using assms
  by (auto simp: publish_user_def save_locked_def Let_def split: if_splits prod.splits bool.splits)

lemma register_password_cases:
  assumes "register_password c to_json i email password now st = (r, st')"
  obtains (kept) e where "r = Inl e" "as_data st' = as_data st"
      "dk_file (as_disk st') = dk_file (as_disk st)"
  | (added) n h where "normalize_email email = Inr n" "create_password_hash c (io_salt i) password = Inr h"
      "store_get (sd_email_index (as_data st)) n = None"
      "r = Inr \<lparr>ua_id = ''user_'' @ io_uuid i, ua_email = n, ua_password = Some h,
        ua_provider = Password, ua_created_at = now\<rparr>"
      "as_data st' = add_user \<lparr>ua_id = ''user_'' @ io_uuid i, ua_email = n, ua_password = Some h,
        ua_provider = Password, ua_created_at = now\<rparr> n (as_data st)"
      "dk_file (as_disk st') = Some (to_json (as_data st'))"
proof (cases "normalize_email email")
  case (Inl e)
  with assms kept show thesis by (auto simp: register_password_def)
next
  case (Inr n)
  show thesis
  proof (cases "create_password_hash c (io_salt i) password")
    case (Inl e)
    with assms \<open>normalize_email email = Inr n\<close> kept show thesis by (auto simp: register_password_def)
  next
    case hash: (Inr h)
    let ?u = "\<lparr>ua_id = ''user_'' @ io_uuid i, ua_email = n, ua_password = Some h,
        ua_provider = Password, ua_created_at = now\<rparr>"
    show thesis
    proof (cases "store_get (sd_email_index (as_data st)) n")
      case (Some _)
      with assms Inr hash kept show thesis by (auto simp: register_password_def)
    next
      case None
      with assms Inr hash have "publish_user to_json (io_save i) (io_temporary i) ?u st = (r, st')"
        by (simp add: register_password_def)
      from publish_user_cases [OF this] show thesis
        using kept added [OF Inr hash None] by auto
    qed
  qed
qed

lemma upsert_google_user_cases:
  assumes "upsert_google_user to_json i email now st = (r, st')"
  obtains (kept) "as_data st' = as_data st" "dk_file (as_disk st') = dk_file (as_disk st)"
  | (added) n where "normalize_email email = Inr n"
      "store_get (sd_email_index (as_data st)) n = None"
      "r = Inr \<lparr>ua_id = ''user_'' @ io_uuid i, ua_email = n, ua_password = None,
        ua_provider = Google, ua_created_at = now\<rparr>"
      "as_data st' = add_user \<lparr>ua_id = ''user_'' @ io_uuid i, ua_email = n, ua_password = None,
        ua_provider = Google, ua_created_at = now\<rparr> n (as_data st)"
      "dk_file (as_disk st') = Some (to_json (as_data st'))"
proof (cases "normalize_email email")
  case (Inl e)
  with assms kept show thesis by (auto simp: upsert_google_user_def)
next
  case (Inr n)
  let ?u = "\<lparr>ua_id = ''user_'' @ io_uuid i, ua_email = n, ua_password = None,
        ua_provider = Google, ua_created_at = now\<rparr>"
  show thesis
  proof (cases "store_get (sd_email_index (as_data st)) n")
    case (Some _)
    with assms Inr kept show thesis by (auto simp: upsert_google_user_def split: option.splits)
  next
    case None
    with assms Inr have "publish_user to_json (io_save i) (io_temporary i) ?u st = (r, st')"
      by (simp add: upsert_google_user_def)
    from publish_user_cases [OF this] show thesis
      using kept added [OF Inr None] by auto
  qed
qed

section \<open>Runs\<close>

datatype account_call = RegisterPassword io string string nat | UpsertGoogle io string nat

fun account_call_uuid :: "account_call \<Rightarrow> string" where
  "account_call_uuid (RegisterPassword i _ _ _) = io_uuid i"
| "account_call_uuid (UpsertGoogle i _ _) = io_uuid i"

fun account_step ::
  "relay_crypto \<Rightarrow> (store_data \<Rightarrow> string) \<Rightarrow> account_call \<Rightarrow> account_store
     \<Rightarrow> (register_error + user_account) \<times> account_store" where
  "account_step c to_json (RegisterPassword i e p now) st = register_password c to_json i e p now st"
| "account_step c to_json (UpsertGoogle i e now) st = upsert_google_user to_json i e now st"

fun account_run ::
  "relay_crypto \<Rightarrow> (store_data \<Rightarrow> string) \<Rightarrow> account_call list \<Rightarrow> account_store \<Rightarrow> account_store" where
  "account_run c to_json [] st = st"
| "account_run c to_json (call # calls) st =
     account_run c to_json calls (snd (account_step c to_json call st))"

lemma account_step_cases:
  assumes "account_step c to_json call st = (r, st')"
  obtains (kept) "as_data st' = as_data st" "dk_file (as_disk st') = dk_file (as_disk st)"
  | (added) u where "r = Inr u" "ua_id u = ''user_'' @ account_call_uuid call"
      "store_get (sd_email_index (as_data st)) (ua_email u) = None"
      "normalize_email (ua_email u) = Inr (ua_email u)"
      "as_data st' = add_user u (ua_email u) (as_data st)"
      "dk_file (as_disk st') = Some (to_json (as_data st'))"
proof (cases call)
  case (RegisterPassword i e p now)
  then have "register_password c to_json i e p now st = (r, st')" using assms by simp
  then show thesis
  proof (cases rule: register_password_cases)
    case kept
    then show thesis by (intro that(1))
  next
    case (added n h)
    then show thesis
      using normalize_email_idem [OF added(1)] RegisterPassword added
      by (intro that(2) [OF added(4)]) simp_all
  qed
next
  case (UpsertGoogle i e now)
  then have "upsert_google_user to_json i e now st = (r, st')" using assms by simp
  then show thesis
  proof (cases rule: upsert_google_user_cases)
    case kept
    then show thesis by (intro that(1))
  next
    case (added n)
    then show thesis
      using normalize_email_idem [OF added(1)] UpsertGoogle added
      by (intro that(2) [OF added(3)]) simp_all
  qed
qed

lemma account_run_ok:
  assumes "accounts_ok (as_data st)" and "distinct (map account_call_uuid calls)"
    and "\<forall>call\<in>set calls. store_get (sd_users (as_data st)) (''user_'' @ account_call_uuid call) = None"
  shows "accounts_ok (as_data (account_run c to_json calls st))"
  using assms
proof (induction calls arbitrary: st)
  case Nil
  then show ?case by simp
next
  case (Cons call calls)
  obtain r st' where s: "account_step c to_json call st = (r, st')" by (rule prod.exhaust)
  from s show ?case
  proof (cases rule: account_step_cases)
    case kept
    then show ?thesis using Cons s by simp
  next
    case (added u)
    have "accounts_ok (as_data st')"
      unfolding added(5) using Cons.prems(1,3) added by (intro add_user_ok) simp_all
    moreover have "\<forall>call\<in>set calls.
        store_get (sd_users (as_data st')) (''user_'' @ account_call_uuid call) = None"
    proof
      fix x assume x: "x \<in> set calls"
      have "account_call_uuid call \<notin> account_call_uuid ` set calls" using Cons.prems(2) by simp
      with x have "account_call_uuid x \<noteq> account_call_uuid call" by (metis imageI)
      then show "store_get (sd_users (as_data st')) (''user_'' @ account_call_uuid x) = None"
        using Cons.prems(3) x added by (simp add: add_user_def kv.get_put)
    qed
    ultimately show ?thesis using Cons.IH [of st'] Cons.prems(2) s by simp
  qed
qed

section \<open>Properties\<close>

text \<open>C20: a registration or a Google sign-in that adds an account has published, in memory and
  by the rename in the file, exactly the accounts before with that one added; one that does
  not has changed neither, whichever call of the file system failed.\<close>

theorem account_writes_atomic:
  assumes "account_step c to_json call st = (r, st')"
  shows "(as_data st' = as_data st \<and> dk_file (as_disk st') = dk_file (as_disk st))
    \<or> (\<exists>u. r = Inr u \<and> as_data st' = add_user u (ua_email u) (as_data st)
        \<and> dk_file (as_disk st') = Some (to_json (as_data st')))"
  using assms by (cases rule: account_step_cases) auto

definition ok_script :: save_script where
  "ok_script = \<lparr>sv_create_dir = True, sv_serialize = True, sv_open = True, sv_write = True,
     sv_sync = True, sv_rename = True, sv_cleanup = True\<rparr>"

definition empty_store :: account_store where
  "empty_store = \<lparr>as_data = store_data_default, as_disk = \<lparr>dk_file = None, dk_temporaries = []\<rparr>\<rparr>"

definition google_call :: "bool \<Rightarrow> account_call" where
  "google_call rename = UpsertGoogle \<lparr>io_uuid = ''1'', io_salt = ''s'', io_temporary = ''t'',
     io_save = ok_script\<lparr>sv_rename := rename\<rparr>\<rparr> ''a@b.c'' 7"

theorem account_writes_atomic_witness:
  "as_data (snd (account_step toy_crypto (\<lambda>_. ''json'') (google_call False) empty_store))
     = store_data_default"
proof -
  obtain r st' where s: "account_step toy_crypto (\<lambda>_. ''json'') (google_call False) empty_store = (r, st')"
    by (rule prod.exhaust)
  have "r \<noteq> Inr u" for u
    using s by (auto simp: google_call_def upsert_google_user_def publish_user_def save_locked_def
        ok_script_def empty_store_def store_data_default_def Let_def split: sum.splits)
  then show ?thesis
    using account_writes_atomic [OF s] s by (auto simp: empty_store_def)
qed

text \<open>C21: starting from no accounts, after any registrations and sign-ins with identifiers that
  do not repeat, index and users agree: one account for each normalized e-mail, found under
  it.\<close>

theorem accounts_stay_consistent:
  assumes "distinct (map account_call_uuid calls)" and "as_data st = store_data_default"
  shows "accounts_ok (as_data (account_run c to_json calls st))"
  using assms accounts_ok_default
  by (intro account_run_ok) (simp_all add: store_data_default_def)

theorem accounts_stay_consistent_witness:
  "accounts_ok (as_data (account_run toy_crypto (\<lambda>_. ''json'') [google_call True] empty_store))"
  by (rule accounts_stay_consistent) (simp_all add: google_call_def empty_store_def)

text \<open>After a registration that succeeded, signing in under any spelling of the address
  that normalizes to the same e-mail succeeds, with that account, exactly for the passwords
  whose salted hash is the registered one - the registered password among them.\<close>

theorem registered_user_logs_in:
  assumes "crypto_laws c" and "length (io_salt i) = 16"
    and "register_password c to_json i email password now st = (Inr u, st')"
    and "normalize_email spelling = normalize_email email"
  shows "login_password c spelling attempt st' =
    (if rc_pbkdf2 c attempt (io_salt i) PASSWORD_ITERATIONS
        = rc_pbkdf2 c password (io_salt i) PASSWORD_ITERATIONS
     then Inr u else Inl InvalidCredentials)"
proof -
  let ?hash = "\<lambda>p. rc_pbkdf2 c p (io_salt i) PASSWORD_ITERATIONS"
  from assms(3) obtain n h where reg: "normalize_email email = Inr n"
      "create_password_hash c (io_salt i) password = Inr h"
      "u = \<lparr>ua_id = ''user_'' @ io_uuid i, ua_email = n, ua_password = Some h,
        ua_provider = Password, ua_created_at = now\<rparr>"
      "as_data st' = add_user u n (as_data st)"
    by (cases rule: register_password_cases) auto
  have h: "h = hash_password_with_salt c password (io_salt i) PASSWORD_ITERATIONS"
    using reg(2) by (auto simp: create_password_hash_def result_bind_Inr_iff)
  have "rc_hex_encode c (?hash attempt) = rc_hex_encode c (?hash password)
      \<longleftrightarrow> ?hash attempt = ?hash password"
    using assms(1) unfolding crypto_laws_def by (metis option.inject)
  moreover have "list_all is_hexdigit (rc_hex_encode c (?hash password))"
      "length (rc_hex_encode c (?hash password)) = 64" "length (rc_hex_encode c (io_salt i)) = 32"
      "rc_hex_decode c (rc_hex_encode c (io_salt i)) = Some (io_salt i)"
    using assms(1,2) by (simp_all add: crypto_laws_def)
  ultimately have "verify_password c attempt h = Inr (?hash attempt = ?hash password)"
    by (simp add: verify_password_def h hash_password_with_salt_def constant_time_eq_iff
        PASSWORD_ITERATIONS_def)
  then show ?thesis
    using assms(4) reg
    by (simp add: login_password_def add_user_def kv.get_put_same)
qed

definition password_io :: io where
  "password_io = \<lparr>io_uuid = ''1'', io_salt = replicate 16 CHR ''s'', io_temporary = ''t'',
     io_save = ok_script\<rparr>"

theorem registered_user_logs_in_witness:
  "\<exists>u st'. register_password toy_crypto (\<lambda>_. ''json'') password_io ''a@b.c'' ''correct horse'' 7 empty_store
      = (Inr u, st') \<and> login_password toy_crypto ''a@b.c'' ''correct horse'' st' = Inr u
    \<and> login_password toy_crypto ''a@b.c'' ''wrong'' st' = Inl InvalidCredentials"
proof -
  note e = plain_email
  have h: "create_password_hash toy_crypto (io_salt password_io) ''correct horse'' =
      Inr (hash_password_with_salt toy_crypto ''correct horse'' (io_salt password_io) PASSWORD_ITERATIONS)"
    by (simp add: create_password_hash_def validate_password_def MIN_PASSWORD_LEN_def)
  have io: "io_save password_io = ok_script" "io_temporary password_io = ''t''"
    by (simp_all add: password_io_def)
  obtain u st' where r: "register_password toy_crypto (\<lambda>_. ''json'') password_io ''a@b.c''
      ''correct horse'' 7 empty_store = (Inr u, st')"
    by (simp add: register_password_def e h empty_store_def store_data_default_def publish_user_def
        save_locked_def io ok_script_def Let_def)
  have salt: "length (io_salt password_io) = 16" by (simp add: password_io_def)
  show ?thesis
    using r registered_user_logs_in [OF toy_crypto_laws salt r refl]
    by (intro exI [of _ u] exI [of _ st']) (simp add: toy_crypto_def)
qed

end
