(* ===== verification/Relay_Server.thy ===== *)
theory Relay_Server
  imports Relay Account_Store
begin

text \<open>
  relay/src/main.rs, config.rs and metrics.rs: the HTTP handlers, the WebSocket connection
  from admission to detaching, the configuration and the start of the relay. Requests to other
  services (the e-mail provider, Google), random numbers and the clock are arguments; a
  response is its status and body. The HTTP server itself is not modelled.
\<close>

section \<open>State\<close>

record metrics =
  m_connections_total :: nat
  m_messages_routed_total :: nat
  m_messages_queued_total :: nat
  m_messages_dropped_total :: nat
  m_auth_failures_total :: nat

definition metrics_default :: metrics where
  "metrics_default = \<lparr>m_connections_total = 0, m_messages_routed_total = 0,
     m_messages_queued_total = 0, m_messages_dropped_total = 0, m_auth_failures_total = 0\<rparr>"

text \<open>\<open>fetch_add(1)\<close> on an \<open>AtomicU64\<close> wraps around.\<close>

definition fetch_add :: "nat \<Rightarrow> nat" where
  "fetch_add n = (n + 1) mod 2 ^ 64"

definition newline :: string where
  "newline = [char_of (10 :: nat)]"

definition metric_lines :: "string \<Rightarrow> string \<Rightarrow> nat \<Rightarrow> string" where
  "metric_lines name help n =
     ''# HELP focusbridge_'' @ name @ '' '' @ help @ newline
     @ ''# TYPE focusbridge_'' @ name @ '' counter'' @ newline
     @ ''focusbridge_'' @ name @ '' '' @ decimal n"

definition metrics_render :: "metrics \<Rightarrow> string" where
  "metrics_render m =
     metric_lines ''connections_total'' ''Total websocket connections accepted'' (m_connections_total m)
     @ newline @ metric_lines ''messages_routed_total'' ''Messages delivered live'' (m_messages_routed_total m)
     @ newline @ metric_lines ''messages_queued_total'' ''Messages queued pending peer'' (m_messages_queued_total m)
     @ newline @ metric_lines ''messages_dropped_total'' ''Messages dropped'' (m_messages_dropped_total m)
     @ newline @ metric_lines ''auth_failures_total'' ''Authentication failures'' (m_auth_failures_total m)
     @ newline"

record pending_otp =
  po_password :: string
  po_code :: string
  po_expires_at :: nat

record server =
  sv_relay :: relay_state
  sv_world :: world
  sv_metrics :: metrics
  sv_registered :: "(string, string) store"
  sv_accounts :: account_store
  sv_auth_token_secret :: string
  sv_google_client_id :: "string option"
  sv_resend_api_key :: "string option"
  sv_otp_email_from :: "string option"
  sv_pending_otps :: "(string, pending_otp) store"

datatype body =
  Text string | PairIdBody string | AuthBody string string string | OtpBody string | StatusOk

type_synonym response = "nat \<times> body"

section \<open>Tokens of requests\<close>

definition authenticate_bearer ::
  "relay_crypto \<Rightarrow> nat \<Rightarrow> string option \<Rightarrow> server \<Rightarrow> auth_error + string" where
  "authenticate_bearer c now header sv =
     (case header of
        None \<Rightarrow> Inl InvalidToken
      | Some h \<Rightarrow>
          (case strip_prefix ''Bearer '' h of
             None \<Rightarrow> Inl InvalidToken
           | Some token \<Rightarrow> verify_session_token c token (sv_auth_token_secret sv) now))"

definition auth_response :: "relay_crypto \<Rightarrow> nat \<Rightarrow> string \<Rightarrow> string \<Rightarrow> server \<Rightarrow> body" where
  "auth_response c now user_id email sv =
     AuthBody user_id email
       (create_session_token c user_id (sv_auth_token_secret sv) now (30 * 24 * 60 * 60))"

definition ok_user :: "relay_crypto \<Rightarrow> nat \<Rightarrow> user_account \<Rightarrow> server \<Rightarrow> response" where
  "ok_user c now u sv = (200, auth_response c now (ua_id u) (ua_email u) sv)"

section \<open>Handlers\<close>

definition health :: response where
  "health = (200, StatusOk)"

definition metrics_endpoint :: "server \<Rightarrow> response" where
  "metrics_endpoint sv = (200, Text (metrics_render (sv_metrics sv)))"

definition register ::
  "relay_crypto \<Rightarrow> nat \<Rightarrow> string \<Rightarrow> string option \<Rightarrow> string \<Rightarrow> server \<Rightarrow> response \<times> server" where
  "register c now uuid header pairing_key sv =
     (case authenticate_bearer c now header sv of
        Inl _ \<Rightarrow> ((401, Text ''missing or invalid bearer token''), sv)
      | Inr _ \<Rightarrow>
          if length pairing_key < 16 then ((400, Text ''pairing_key too short''), sv)
          else
            let pair_id = ''pair_'' @ uuid
            in ((200, PairIdBody pair_id),
                sv\<lparr>sv_registered := store_put pair_id pairing_key (sv_registered sv)\<rparr>))"

definition auth_register ::
  "relay_crypto \<Rightarrow> (store_data \<Rightarrow> string) \<Rightarrow> io \<Rightarrow> nat \<Rightarrow> string \<Rightarrow> string \<Rightarrow> server
     \<Rightarrow> response \<times> server" where
  "auth_register c to_json i now email password sv =
     (case register_password c to_json i email password now (sv_accounts sv) of
        (r, accounts) \<Rightarrow>
          ((case r of
              Inr u \<Rightarrow> ok_user c now u sv
            | Inl AlreadyExists \<Rightarrow> (409, Text ''account already exists'')
            | Inl (Auth InvalidEmail) \<Rightarrow> (400, Text ''invalid email'')
            | Inl (Auth WeakPassword) \<Rightarrow> (400, Text ''password must be at least 10 characters'')
            | Inl _ \<Rightarrow> (500, Text ''account registration failed'')),
           sv\<lparr>sv_accounts := accounts\<rparr>))"

definition auth_login ::
  "relay_crypto \<Rightarrow> nat \<Rightarrow> string \<Rightarrow> string \<Rightarrow> server \<Rightarrow> response" where
  "auth_login c now email password sv =
     (case login_password c email password (sv_accounts sv) of
        Inr u \<Rightarrow> ok_user c now u sv
      | Inl InvalidCredentials \<Rightarrow> (401, Text ''invalid email or password''))"

text \<open>\<open>{:06}\<close>\<close>

definition six_digits :: "nat \<Rightarrow> string" where
  "six_digits n = (let d = decimal n in replicate (6 - length d) CHR ''0'' @ d)"

datatype email_outcome = EmailSent | RequestFailed string | ProviderFailed string string

definition send_otp_email :: "email_outcome \<Rightarrow> server \<Rightarrow> string + unit" where
  "send_otp_email outcome sv =
     (case sv_resend_api_key sv of
        None \<Rightarrow> Inl ''OTP email is not configured: set FOCUSBRIDGE_RESEND_API_KEY''
      | Some _ \<Rightarrow>
          (case sv_otp_email_from sv of
             None \<Rightarrow> Inl ''OTP email is not configured: set FOCUSBRIDGE_OTP_EMAIL_FROM''
           | Some _ \<Rightarrow>
               (case outcome of
                  RequestFailed e \<Rightarrow> Inl (''send otp email request failed: '' @ e)
                | ProviderFailed status text \<Rightarrow>
                    Inl (''otp email provider failed ('' @ status @ ''): '' @ text)
                | EmailSent \<Rightarrow> Inr ())))"

definition auth_otp_start ::
  "nat \<Rightarrow> nat \<Rightarrow> email_outcome \<Rightarrow> string \<Rightarrow> string \<Rightarrow> server \<Rightarrow> response \<times> server" where
  "auth_otp_start now random outcome email password sv =
     (case normalize_email email of
        Inl _ \<Rightarrow> ((400, Text ''invalid email''), sv)
      | Inr email \<Rightarrow>
          if length password < 10
          then ((400, Text ''password must be at least 10 characters''), sv)
          else
            let code = six_digits (random mod 1000000);
                expires_at = now + 10 * 60
            in case send_otp_email outcome sv of
                 Inl err \<Rightarrow> ((503, Text err), sv)
               | Inr _ \<Rightarrow>
                   ((200, OtpBody email),
                    sv\<lparr>sv_pending_otps := store_put email
                         \<lparr>po_password = password, po_code = code, po_expires_at = expires_at\<rparr>
                         (sv_pending_otps sv)\<rparr>))"

definition auth_otp_verify ::
  "relay_crypto \<Rightarrow> (store_data \<Rightarrow> string) \<Rightarrow> io \<Rightarrow> nat \<Rightarrow> string \<Rightarrow> string \<Rightarrow> string \<Rightarrow> server
     \<Rightarrow> response \<times> server" where
  "auth_otp_verify c to_json i now email password otp sv =
     (case normalize_email email of
        Inl _ \<Rightarrow> ((400, Text ''invalid email''), sv)
      | Inr email \<Rightarrow>
          (case store_get (sv_pending_otps sv) email of
             None \<Rightarrow> ((401, Text ''otp is missing or expired''), sv)
           | Some pending \<Rightarrow>
               let sv = sv\<lparr>sv_pending_otps := store_del email (sv_pending_otps sv)\<rparr>
               in if po_expires_at pending < now then ((401, Text ''otp is expired''), sv)
                  else if po_password pending \<noteq> password \<or> po_code pending \<noteq> trim otp
                  then ((401, Text ''invalid otp''), sv)
                  else
                    (case register_password c to_json i email password now (sv_accounts sv) of
                       (r, accounts) \<Rightarrow>
                         ((case r of
                             Inr u \<Rightarrow> ok_user c now u sv
                           | Inl AlreadyExists \<Rightarrow>
                               (case login_password c email password accounts of
                                  Inr u \<Rightarrow> ok_user c now u sv
                                | Inl _ \<Rightarrow> (409, Text ''account already exists''))
                           | Inl (Auth WeakPassword) \<Rightarrow>
                               (400, Text ''password must be at least 10 characters'')
                           | Inl _ \<Rightarrow> (500, Text ''otp registration failed'')),
                          sv\<lparr>sv_accounts := accounts\<rparr>))))"

record google_token_info =
  gt_aud :: string
  gt_email :: "string option"
  gt_email_verified :: "string option"

datatype google_outcome = Unreachable | NotSuccess | BadJson | TokenInfo google_token_info

definition auth_google ::
  "relay_crypto \<Rightarrow> (store_data \<Rightarrow> string) \<Rightarrow> io \<Rightarrow> nat \<Rightarrow> google_outcome \<Rightarrow> server
     \<Rightarrow> response \<times> server" where
  "auth_google c to_json i now outcome sv =
     (case sv_google_client_id sv of
        None \<Rightarrow> ((503, Text ''google auth is not configured''), sv)
      | Some client_id \<Rightarrow>
          (case outcome of
             Unreachable \<Rightarrow> ((502, Text ''google token verification unavailable''), sv)
           | NotSuccess \<Rightarrow> ((401, Text ''invalid google token''), sv)
           | BadJson \<Rightarrow> ((401, Text ''invalid google token response''), sv)
           | TokenInfo info \<Rightarrow>
               if gt_aud info \<noteq> client_id \<or> gt_email_verified info \<noteq> Some ''true''
               then ((401, Text ''google token audience or email is invalid''), sv)
               else case gt_email info of
                      None \<Rightarrow> ((401, Text ''google token has no email''), sv)
                    | Some email \<Rightarrow>
                        (case upsert_google_user to_json i email now (sv_accounts sv) of
                           (r, accounts) \<Rightarrow>
                             ((case r of
                                 Inr u \<Rightarrow> ok_user c now u sv
                               | Inl _ \<Rightarrow> (500, Text ''google login failed'')),
                              sv\<lparr>sv_accounts := accounts\<rparr>))))"

section \<open>WebSocket connections\<close>

definition count_auth_failure :: "server \<Rightarrow> server" where
  "count_auth_failure sv = sv\<lparr>sv_metrics := (sv_metrics sv)
     \<lparr>m_auth_failures_total := fetch_add (m_auth_failures_total (sv_metrics sv))\<rparr>\<rparr>"

definition count_connection :: "server \<Rightarrow> server" where
  "count_connection sv = sv\<lparr>sv_metrics := (sv_metrics sv)
     \<lparr>m_connections_total := fetch_add (m_connections_total (sv_metrics sv))\<rparr>\<rparr>"

definition count_routed :: "server \<Rightarrow> server" where
  "count_routed sv = sv\<lparr>sv_metrics := (sv_metrics sv)
     \<lparr>m_messages_routed_total := fetch_add (m_messages_routed_total (sv_metrics sv))\<rparr>\<rparr>"

definition count_queued :: "server \<Rightarrow> server" where
  "count_queued sv = sv\<lparr>sv_metrics := (sv_metrics sv)
     \<lparr>m_messages_queued_total := fetch_add (m_messages_queued_total (sv_metrics sv))\<rparr>\<rparr>"

definition count_dropped :: "server \<Rightarrow> server" where
  "count_dropped sv = sv\<lparr>sv_metrics := (sv_metrics sv)
     \<lparr>m_messages_dropped_total := fetch_add (m_messages_dropped_total (sv_metrics sv))\<rparr>\<rparr>"

datatype admission = Refused nat string | AuthClosed | Admitted role

text \<open>
  \<open>ws_handler\<close> up to the spawned task, for the new channel \<open>t\<close>; \<open>upgraded\<close> is the result of
  \<open>actix_ws::handle\<close>, whose error is answered by the server as \<open>Refused 0\<close>.
\<close>

definition ws_handler ::
  "instant \<Rightarrow> bool \<Rightarrow> string \<Rightarrow> string \<Rightarrow> string \<Rightarrow> tx \<Rightarrow> server \<Rightarrow> admission \<times> server" where
  "ws_handler now upgraded pair_id role_name pairing_key t sv =
     (case parse_role role_name of
        Inl _ \<Rightarrow> (Refused 400 ''invalid role'', count_auth_failure sv)
      | Inr role \<Rightarrow>
          (case store_get (sv_registered sv) pair_id of
             None \<Rightarrow> (Refused 404 ''pair not registered'', count_auth_failure sv)
           | Some expected \<Rightarrow>
               (case verify_pairing_key pairing_key expected of
                  Inl _ \<Rightarrow> (Refused 401 ''invalid pairing key'', count_auth_failure sv)
                | Inr _ \<Rightarrow>
                    let sv = count_connection sv
                    in if \<not> upgraded then (Refused 0 '''', sv)
                       else case attach now pair_id expected role t (sv_relay sv) (sv_world sv) of
                              (True, r, w) \<Rightarrow> (Admitted role, sv\<lparr>sv_relay := r, sv_world := w\<rparr>)
                            | (False, r, w) \<Rightarrow>
                                (AuthClosed, count_auth_failure (sv\<lparr>sv_relay := r, sv_world := w\<rparr>)))))"

datatype ws_event =
  WriterEnded | OwnershipTick | HeartbeatTick bool | TextMessage string | PingMessage bool
| CloseMessage | StreamError | OtherMessage | StreamEnd

text \<open>One turn of the reader's loop: whether it goes on, and the peer's last activity.\<close>

definition ws_turn ::
  "nat \<Rightarrow> string \<Rightarrow> role \<Rightarrow> tx \<Rightarrow> instant \<Rightarrow> ws_event \<Rightarrow> instant \<Rightarrow> server
     \<Rightarrow> bool \<times> instant \<times> server" where
  "ws_turn ping_interval pair_id role t now ev last_activity sv =
     (case ev of
        WriterEnded \<Rightarrow> (False, last_activity, sv)
      | OwnershipTick \<Rightarrow>
          (if \<not> is_current pair_id role t (sv_relay sv) then (False, last_activity, sv)
           else if 3 * ping_interval \<le> now - last_activity then (False, last_activity, sv)
           else (True, last_activity, sv))
      | HeartbeatTick sent \<Rightarrow> (sent, last_activity, sv)
      | StreamEnd \<Rightarrow> (False, last_activity, sv)
      | TextMessage text \<Rightarrow>
          (case route_from now pair_id role t text (sv_relay sv) (sv_world sv) of
             (result, r, w) \<Rightarrow>
               let sv = sv\<lparr>sv_relay := r, sv_world := w\<rparr>
               in case result of
                    Delivered \<Rightarrow> (True, now, count_routed sv)
                  | Queued \<Rightarrow> (True, now, count_queued sv)
                  | Dropped \<Rightarrow> (True, now, count_dropped sv)
                  | NoSession \<Rightarrow> (True, now, count_dropped sv)
                  | TooLarge \<Rightarrow> (True, now, count_dropped sv)
                  | StaleConnection \<Rightarrow> (False, now, sv)
                  | RateLimited \<Rightarrow> (False, now, count_dropped sv))
      | PingMessage sent \<Rightarrow> (sent, now, sv)
      | CloseMessage \<Rightarrow> (False, now, sv)
      | StreamError \<Rightarrow> (False, now, sv)
      | OtherMessage \<Rightarrow> (True, now, sv))"

text \<open>The loop and the detaching after it; \<open>True\<close> when the events end before the loop does.\<close>

fun ws_loop ::
  "nat \<Rightarrow> string \<Rightarrow> role \<Rightarrow> tx \<Rightarrow> (instant \<times> ws_event) list \<Rightarrow> instant \<Rightarrow> server \<Rightarrow> bool \<times> server" where
  "ws_loop ping_interval pair_id role t [] last_activity sv = (True, sv)"
| "ws_loop ping_interval pair_id role t ((now, ev) # evs) last_activity sv =
     (case ws_turn ping_interval pair_id role t now ev last_activity sv of
        (True, last_activity', sv') \<Rightarrow> ws_loop ping_interval pair_id role t evs last_activity' sv'
      | (False, _, sv') \<Rightarrow> (False, sv'\<lparr>sv_relay := detach now pair_id role t (sv_relay sv')\<rparr>))"

section \<open>Configuration\<close>

record config =
  cf_bind :: string
  cf_tls_cert_path :: string
  cf_tls_key_path :: string
  cf_allow_plaintext :: bool
  cf_ping_interval_secs :: nat
  cf_pairing_ttl_secs :: nat
  cf_max_message_bytes :: nat
  cf_rate_limit_per_min :: nat
  cf_auth_store_path :: string
  cf_auth_token_secret :: "string option"
  cf_google_client_id :: "string option"
  cf_resend_api_key :: "string option"
  cf_otp_email_from :: "string option"

definition default_auth_store_path :: string where
  "default_auth_store_path = ''data/auth-users.json''"

text \<open>A setting of the file, else the variable of the environment when it is not blank.\<close>

definition or_env :: "(string \<Rightarrow> string option) \<Rightarrow> string \<Rightarrow> string option \<Rightarrow> string option" where
  "or_env env name setting =
     (case setting of
        Some v \<Rightarrow> Some v
      | None \<Rightarrow>
          (case env name of
             None \<Rightarrow> None
           | Some v \<Rightarrow> if trim v \<noteq> [] then Some v else None))"

definition config_load ::
  "(string \<Rightarrow> config option) \<Rightarrow> (string \<Rightarrow> string option) \<Rightarrow> string option \<Rightarrow> string + config" where
  "config_load from_toml env file =
     (case file of
        None \<Rightarrow> Inl ''read config''
      | Some text \<Rightarrow>
          (case from_toml text of
             None \<Rightarrow> Inl ''parse config toml''
           | Some cfg \<Rightarrow>
               let cfg = cfg
                 \<lparr>cf_auth_token_secret := or_env env ''FOCUSBRIDGE_AUTH_TOKEN_SECRET'' (cf_auth_token_secret cfg),
                  cf_google_client_id := or_env env ''FOCUSBRIDGE_GOOGLE_CLIENT_ID'' (cf_google_client_id cfg),
                  cf_resend_api_key := or_env env ''FOCUSBRIDGE_RESEND_API_KEY'' (cf_resend_api_key cfg),
                  cf_otp_email_from := or_env env ''FOCUSBRIDGE_OTP_EMAIL_FROM'' (cf_otp_email_from cfg)\<rparr>
               in if (case cf_auth_token_secret cfg of None \<Rightarrow> True | Some s \<Rightarrow> length (trim s) < 32)
                  then Inl ''auth_token_secret''
                  else if cf_ping_interval_secs cfg = 0 then Inl ''ping_interval_secs''
                  else if cf_pairing_ttl_secs cfg = 0 then Inl ''pairing_ttl_secs''
                  else if cf_max_message_bytes cfg = 0 then Inl ''max_message_bytes''
                  else if cf_rate_limit_per_min cfg = 0 then Inl ''rate_limit_per_min''
                  else Inr cfg))"

definition should_use_tls :: "config \<Rightarrow> bool \<Rightarrow> bool \<Rightarrow> string + bool" where
  "should_use_tls cfg cert_exists key_exists =
     (if cert_exists \<noteq> key_exists then Inl ''partial TLS configuration''
      else if \<not> cert_exists \<and> \<not> cf_allow_plaintext cfg then Inl ''plaintext not allowed''
      else Inr cert_exists)"

text \<open>
  The lines of a text: the newline ends a line, a carriage return before it goes with it, and
  a final newline starts no further line.
\<close>

definition strip_cr :: "string \<Rightarrow> string" where
  "strip_cr s = (if s \<noteq> [] \<and> last s = char_of (13 :: nat) then butlast s else s)"

definition text_lines :: "string \<Rightarrow> string list" where
  "text_lines s =
     (let parts = split_on (char_of (10 :: nat)) s
      in map strip_cr (butlast parts) @ (if last parts = [] then [] else [last parts]))"

definition trim_quotes :: "string \<Rightarrow> string" where
  "trim_quotes s = rev (dropWhile (\<lambda>c. c = CHR 0x22) (rev (dropWhile (\<lambda>c. c = CHR 0x22) s)))"

definition env_line :: "string \<Rightarrow> (string, string) store \<Rightarrow> (string, string) store" where
  "env_line line env =
     (let line = trim line
      in if line = [] \<or> hd line = CHR ''#'' then env
         else case split_once CHR ''='' line of
                None \<Rightarrow> env
              | Some (key, v) \<Rightarrow>
                  let key = trim key
                  in if key = [] \<or> store_get env key \<noteq> None then env
                     else store_put key (trim_quotes (trim v)) env)"

text \<open>The two files in order; \<open>None\<close> is one that cannot be read.\<close>

definition load_local_env_files ::
  "string option list \<Rightarrow> (string, string) store \<Rightarrow> (string, string) store" where
  "load_local_env_files files env =
     fold (\<lambda>file env. case file of
                         None \<Rightarrow> env
                       | Some text \<Rightarrow> fold env_line (text_lines text) env) files env"

text \<open>The part of \<open>main\<close> that decides whether and how the relay serves: with TLS or not.\<close>

definition relay_main ::
  "(string \<Rightarrow> config option) \<Rightarrow> (string \<Rightarrow> store_data option) \<Rightarrow> (string \<Rightarrow> string option)
     \<Rightarrow> string option \<Rightarrow> bool \<Rightarrow> disk \<Rightarrow> bool \<Rightarrow> bool \<Rightarrow> bool \<Rightarrow> string + bool \<times> server" where
  "relay_main from_toml from_json env file accounts_readable d cert_exists key_exists tls_loads =
     result_bind (config_load from_toml env file) (\<lambda>cfg.
     result_bind (ok_or (cf_auth_token_secret cfg) ''auth token secret required'') (\<lambda>secret.
     result_bind (case account_load from_json accounts_readable d of
                    Inl _ \<Rightarrow> Inl ''account store'' | Inr a \<Rightarrow> Inr a) (\<lambda>accounts.
     result_bind (should_use_tls cfg cert_exists key_exists) (\<lambda>tls.
     if tls \<and> \<not> tls_loads then Inl ''tls''
     else Inr (tls,
       \<lparr>sv_relay = relay_new (secs (cf_pairing_ttl_secs cfg)) (cf_max_message_bytes cfg)
                     (cf_rate_limit_per_min cfg),
        sv_world = \<lparr>w_dropped = [], w_log = []\<rparr>, sv_metrics = metrics_default,
        sv_registered = [], sv_accounts = accounts, sv_auth_token_secret = secret,
        sv_google_client_id = cf_google_client_id cfg, sv_resend_api_key = cf_resend_api_key cfg,
        sv_otp_email_from = cf_otp_email_from cfg, sv_pending_otps = []\<rparr>)))))"

section \<open>Keys of sessions\<close>

text \<open>Every session of the relay has the key its pair is registered with.\<close>

definition session_keys_ok :: "server \<Rightarrow> bool" where
  "session_keys_ok sv \<longleftrightarrow> store_valid (sv_pending_otps sv)
     \<and> (\<forall>p s. store_get (rl_sessions (sv_relay sv)) p = Some s \<longrightarrow>
          store_get (sv_registered sv) p = Some (rs_pairing_key s))"

lemma counters_same [simp]:
  "sv_relay (count_auth_failure sv) = sv_relay sv" "sv_world (count_auth_failure sv) = sv_world sv"
  "sv_registered (count_auth_failure sv) = sv_registered sv"
  "sv_relay (count_connection sv) = sv_relay sv" "sv_world (count_connection sv) = sv_world sv"
  "sv_registered (count_connection sv) = sv_registered sv"
  "sv_relay (count_routed sv) = sv_relay sv" "sv_relay (count_queued sv) = sv_relay sv"
  "sv_relay (count_dropped sv) = sv_relay sv"
  by (simp_all add: count_auth_failure_def count_connection_def count_routed_def count_queued_def
      count_dropped_def)

lemma attach_session_key:
  "attach_session ttl now key role t s w = (ok, s', w') \<Longrightarrow>
    rs_pairing_key s' = rs_pairing_key s \<and> ok = (rs_pairing_key s = key)"
  by (auto simp: attach_session_def Let_def split: if_splits prod.splits)

lemma attach_ok:
  assumes "\<forall>s. store_get (rl_sessions r) p = Some s \<longrightarrow> rs_pairing_key s = key"
  shows "fst (attach now p key role t r w)"
proof -
  define s where "s = (case store_get (rl_sessions r) p of None \<Rightarrow> rsession_new now key | Some s \<Rightarrow> s)"
  have "rs_pairing_key s = key"
    using assms by (auto simp: s_def rsession_new_def split: option.split)
  then show ?thesis
    using attach_session_key by (auto simp: attach_def s_def Let_def split: prod.splits)
qed

lemma env_line_keeps: "store_get env k = Some v \<Longrightarrow> store_get (env_line line env) k = Some v"
  by (auto simp: env_line_def Let_def kv.get_put split: option.splits)

lemma env_lines_keep: "store_get env k = Some v \<Longrightarrow> store_get (fold env_line ls env) k = Some v"
  by (induction ls arbitrary: env) (simp_all add: env_line_keeps)

lemma detach_not_current: "\<not> is_current p role t (detach now p role t r)"
  by (auto simp: is_current_def detach_def detach_session_def owns_session_def kv.get_put_same
      split: option.splits role.splits)

section \<open>Properties\<close>

text \<open>C17: a WebSocket request becomes a connection exactly when its role is known, its pair is
  registered and it shows the pair's key (which is not empty); every refusal leaves the
  sessions and channels of the relay as they were and is counted.\<close>

theorem ws_admission_exact:
  assumes "session_keys_ok sv" and "ws_handler now True pair_id role_name key t sv = (adm, sv')"
  shows "(\<exists>role. adm = Admitted role \<and> parse_role role_name = Inr role
            \<and> store_get (sv_registered sv) pair_id = Some key \<and> key \<noteq> []
            \<and> attach now pair_id key role t (sv_relay sv) (sv_world sv) = (True, sv_relay sv', sv_world sv'))
    \<or> (\<exists>status text. adm = Refused status text
        \<and> ((\<exists>e. parse_role role_name = Inl e) \<or> store_get (sv_registered sv) pair_id \<noteq> Some key \<or> key = [])
        \<and> sv' = count_auth_failure sv)"
proof (cases "parse_role role_name")
  case (Inl e)
  with assms(2) show ?thesis by (auto simp: ws_handler_def)
next
  case (Inr role)
  show ?thesis
  proof (cases "store_get (sv_registered sv) pair_id")
    case None
    with Inr assms(2) show ?thesis by (auto simp: ws_handler_def)
  next
    case (Some expected)
    show ?thesis
    proof (cases "key = expected \<and> key \<noteq> []")
      case True
      have keys: "\<forall>s. store_get (rl_sessions (sv_relay sv)) pair_id = Some s \<longrightarrow> rs_pairing_key s = key"
        using assms(1) Some True by (auto simp: session_keys_ok_def)
      obtain r w where a: "attach now pair_id key role t (sv_relay sv) (sv_world sv) = (True, r, w)"
        using attach_ok [OF keys, of now role t "sv_world sv"]
        by (cases "attach now pair_id key role t (sv_relay sv) (sv_world sv)") auto
      have v: "verify_pairing_key key expected = Inr ()"
        using True by (auto simp: verify_pairing_key_def byte_diff_zero)
      show ?thesis
        using assms(2) Inr Some True a v by (auto simp: ws_handler_def Let_def)
    next
      case False
      then have "\<exists>e. verify_pairing_key key expected = Inl e"
        by (auto simp: verify_pairing_key_def byte_diff_zero)
      with Inr Some False assms(2) show ?thesis by (auto simp: ws_handler_def)
    qed
  qed
qed

definition demo_server :: server where
  "demo_server = \<lparr>sv_relay = relay_new 10 100 120, sv_world = \<lparr>w_dropped = [], w_log = []\<rparr>,
     sv_metrics = metrics_default, sv_registered = [(''p'', ''key'')], sv_accounts = empty_store,
     sv_auth_token_secret = ''s'', sv_google_client_id = None, sv_resend_api_key = None,
     sv_otp_email_from = None,
     sv_pending_otps = [(''a@b.c'', \<lparr>po_password = ''correct horse'', po_code = ''000123'', po_expires_at = 600\<rparr>)]\<rparr>"

lemma demo_server_keys: "session_keys_ok demo_server"
  by (simp add: session_keys_ok_def demo_server_def relay_new_def store_valid_def)

theorem ws_admission_exact_witness:
  "fst (ws_handler 3 True ''p'' ''phone'' ''key'' 1 demo_server) = Admitted Android
   \<and> sv_relay (snd (ws_handler 3 True ''p'' ''phone'' ''kez'' 1 demo_server)) = sv_relay demo_server"
proof -
  obtain a1 s1 where 1: "ws_handler 3 True ''p'' ''phone'' ''key'' 1 demo_server = (a1, s1)"
    by (rule prod.exhaust)
  obtain a2 s2 where 2: "ws_handler 3 True ''p'' ''phone'' ''kez'' 1 demo_server = (a2, s2)"
    by (rule prod.exhaust)
  show ?thesis
    using ws_admission_exact [OF demo_server_keys 1] ws_admission_exact [OF demo_server_keys 2] 1 2
    by (auto simp: parse_role_def demo_server_def store_get_def)
qed

text \<open>When the reader's loop of a connection ends, for whatever reason, the connection is no
  longer the current one of its role.\<close>

theorem ended_connection_detached:
  assumes "ws_loop ping_interval pair_id role t evs last_activity sv = (False, sv')"
  shows "\<not> is_current pair_id role t (sv_relay sv')"
  using assms
proof (induction evs arbitrary: last_activity sv)
  case Nil
  then show ?case by simp
next
  case (Cons e evs)
  obtain now ev where e: "e = (now, ev)" by (cases e)
  obtain more last' sv1 where turn: "ws_turn ping_interval pair_id role t now ev last_activity sv
      = (more, last', sv1)" by (rule prod_cases3)
  show ?case
  proof (cases more)
    case True
    with Cons e turn show ?thesis by simp
  next
    case False
    then have "sv' = sv1\<lparr>sv_relay := detach now pair_id role t (sv_relay sv1)\<rparr>"
      using Cons.prems e turn by simp
    then show ?thesis by (simp add: detach_not_current)
  qed
qed

theorem ended_connection_detached_witness:
  "\<not> is_current ''p'' Android 1 (sv_relay (snd (ws_loop 30 ''p'' Android 1
      [(4, TextMessage ''a''), (5, CloseMessage)] 3
      (snd (ws_handler 3 True ''p'' ''phone'' ''key'' 1 demo_server)))))"
proof -
  let ?sv = "snd (ws_handler 3 True ''p'' ''phone'' ''key'' 1 demo_server)"
  obtain more sv' where l: "ws_loop 30 ''p'' Android 1 [(4, TextMessage ''a''), (5, CloseMessage)] 3 ?sv
      = (more, sv')" by (rule prod.exhaust)
  have "\<not> more" using l by (auto simp: ws_turn_def Let_def split: prod.splits route_result.splits bool.splits)
  with l have "ws_loop 30 ''p'' Android 1 [(4, TextMessage ''a''), (5, CloseMessage)] 3 ?sv = (False, sv')"
    by (cases more) simp_all
  from ended_connection_detached [OF this] show ?thesis unfolding l snd_conv .
qed

text \<open>C18: a one-time code is used up by the first attempt for its e-mail, right or wrong: the
  next one fails; and an attempt gets past it only with the pending password and code, not
  after its expiry.\<close>

theorem otp_is_one_shot:
  assumes "session_keys_ok sv" and "normalize_email email = Inr n"
    and "auth_otp_verify c to_json i now email password otp sv = (resp, sv')"
  shows "auth_otp_verify c to_json i' now' email password' otp' sv' = ((401, Text ''otp is missing or expired''), sv')
    \<and> (fst resp = 200 \<or> as_data (sv_accounts sv') \<noteq> as_data (sv_accounts sv) \<longrightarrow>
        (\<exists>p. store_get (sv_pending_otps sv) n = Some p \<and> po_password p = password
           \<and> po_code p = trim otp \<and> now \<le> po_expires_at p))"
proof -
  have gone: "store_get (sv_pending_otps sv') n = None"
  proof (cases "store_get (sv_pending_otps sv) n")
    case None
    with assms(2,3) show ?thesis by (auto simp: auth_otp_verify_def)
  next
    case (Some p)
    then have "sv_pending_otps sv' = store_del n (sv_pending_otps sv)"
      using assms(2,3) by (auto simp: auth_otp_verify_def Let_def split: if_splits prod.splits)
    with assms(1) show ?thesis by (simp add: session_keys_ok_def kv.get_del_same)
  qed
  have "\<exists>p. store_get (sv_pending_otps sv) n = Some p \<and> po_password p = password
           \<and> po_code p = trim otp \<and> now \<le> po_expires_at p"
    if "fst resp = 200 \<or> as_data (sv_accounts sv') \<noteq> as_data (sv_accounts sv)"
    using that assms(2,3)
    by (auto simp: auth_otp_verify_def Let_def not_less split: option.splits if_splits)
  then show ?thesis using gone assms(2) by (simp add: auth_otp_verify_def)
qed

theorem otp_is_one_shot_witness:
  "fst (fst (auth_otp_verify toy_crypto (\<lambda>_. ''json'') password_io 2 ''a@b.c'' ''correct horse'' ''000123''
     (snd (auth_otp_verify toy_crypto (\<lambda>_. ''json'') password_io 1 ''a@b.c'' ''guess'' ''000000'' demo_server))))
   = 401"
proof -
  note e = plain_email
  obtain resp sv' where r: "auth_otp_verify toy_crypto (\<lambda>_. ''json'') password_io 1 ''a@b.c'' ''guess''
      ''000000'' demo_server = (resp, sv')" by (rule prod.exhaust)
  show ?thesis using otp_is_one_shot [OF demo_server_keys e r] r by simp
qed

text \<open>Loading the local environment files never changes a variable that is set.\<close>

lemma env_files_never_override:
  assumes "store_get env k = Some v"
  shows "store_get (load_local_env_files files env) k = Some v"
  using assms unfolding load_local_env_files_def
  by (induction files arbitrary: env) (simp_all add: env_lines_keep split: option.split)

end
