(* ===== verification/Priority.thy ===== *)
theory Priority
  imports Rust_Strings
begin

text \<open>
  desktop/core/src/priority.rs and study_mode.rs: the score of a notification, detection of
  two-factor codes, and what study mode does with a notification. The two Unicode functions of
  the standard library, \<open>to_lowercase\<close> and \<open>contains(char::is_numeric)\<close>, are the fields of
  \<open>unicode\<close>. The score is the exact sum; \<open>raw_score_fits\<close> bounds it, so that the i32
  of the code does not overflow.
\<close>

record unicode =
  u_lowercase :: "string \<Rightarrow> string"
  u_has_numeric :: "string \<Rightarrow> bool"

fun contains :: "string \<Rightarrow> string \<Rightarrow> bool" where
  "contains [] k \<longleftrightarrow> k = []"
| "contains (c # s) k \<longleftrightarrow> take (length k) (c # s) = k \<or> contains s k"

definition eq_ignore_ascii_case :: "string \<Rightarrow> string \<Rightarrow> bool" where
  "eq_ignore_ascii_case a b \<longleftrightarrow> to_ascii_lowercase a = to_ascii_lowercase b"

record priority_config =
  favorite_contacts :: "string list"
  blocked_contacts :: "string list"
  priority_keywords :: "string list"
  urgent_keywords :: "string list"
  priority_apps :: "string list"
  blocked_apps :: "string list"

definition priority_config_default :: priority_config where
  "priority_config_default =
     \<lparr>favorite_contacts = [], blocked_contacts = [], priority_keywords = [],
      urgent_keywords = [], priority_apps = [], blocked_apps = []\<rparr>"

record score_input =
  si_package_name :: string
  si_sender :: "string option"
  si_message :: "string option"
  si_timestamp_epoch_secs :: int
  si_same_sender_msgs_last_5min :: nat

section \<open>Two-factor codes\<close>

definition digit_run_step :: "char \<Rightarrow> nat \<times> nat \<Rightarrow> nat \<times> nat" where
  "digit_run_step c = (\<lambda>(best, cur).
     if is_digit c then let cur' = cur + 1 in (max best cur', cur') else (best, 0))"

definition longest_digit_run :: "string \<Rightarrow> nat" where
  "longest_digit_run s = fst (fold digit_run_step s (0, 0))"

definition patterns :: "string list" where
  "patterns = [''code'', ''verify'', ''verification'', ''otp'', ''authentication'', ''pin'']"

definition detect_2fa :: "string \<Rightarrow> bool" where
  "detect_2fa lower_msg =
     (if \<not> list_ex is_digit lower_msg then False
      else let n = longest_digit_run lower_msg
           in list_ex (\<lambda>kw. contains lower_msg kw \<and> 4 \<le> n \<and> n \<le> 8) patterns)"

section \<open>The score\<close>

definition hour_of_day :: "int \<Rightarrow> int" where
  "hour_of_day ts_secs = (ts_secs mod 86400) div 3600 mod 24"

definition is_favorite :: "score_input \<Rightarrow> priority_config \<Rightarrow> bool" where
  "is_favorite input cfg =
     list_ex (eq_ignore_ascii_case (case_option [] id (si_sender input))) (favorite_contacts cfg)"

definition keyword_points :: "unicode \<Rightarrow> string \<Rightarrow> int \<Rightarrow> string list \<Rightarrow> int" where
  "keyword_points u msg points kws =
     fold (\<lambda>kw score. if contains msg (u_lowercase u kw) then score + points else score) kws 0"

definition raw_score :: "unicode \<Rightarrow> score_input \<Rightarrow> priority_config \<Rightarrow> int" where
  "raw_score u input cfg =
     (let msg = u_lowercase u (case_option [] id (si_message input));
          sender = case_option [] id (si_sender input);
          hour = hour_of_day (si_timestamp_epoch_secs input)
      in 30
       + (if is_favorite input cfg then 50 else 0)
       - (if list_ex (eq_ignore_ascii_case sender) (blocked_contacts cfg) then 10 else 0)
       + keyword_points u msg 30 (urgent_keywords cfg)
       + keyword_points u msg 20 (priority_keywords cfg)
       + (if detect_2fa msg then 100 else 0)
       + (if list_ex (\<lambda>p. p = si_package_name input) (priority_apps cfg) then 15 else 0)
       - (if list_ex (\<lambda>p. p = si_package_name input) (blocked_apps cfg) then 20 else 0)
       + (if is_favorite input cfg \<and> (22 \<le> hour \<or> hour \<le> 6) then 20 else 0)
       + (if 3 \<le> si_same_sender_msgs_last_5min input then 10 else 0)
       + (if 10 \<le> length (filter is_digit msg) \<and> u_has_numeric u msg then 15 else 0)
       + (if contains msg ''call me'' then 25 else 0))"

definition calculate_score :: "unicode \<Rightarrow> score_input \<Rightarrow> priority_config \<Rightarrow> int" where
  "calculate_score u input cfg = max 0 (min 100 (raw_score u input cfg))"

section \<open>Study mode\<close>

datatype study_mode_decision = ShowNormally | ShowImmediately | QueueForBatch

record study_mode_cfg =
  sm_enabled :: bool
  sm_emergency_override :: bool

definition decide ::
  "unicode \<Rightarrow> score_input \<Rightarrow> priority_config \<Rightarrow> study_mode_cfg \<Rightarrow> study_mode_decision \<times> int" where
  "decide u input priority_cfg study_cfg =
     (let score = calculate_score u input priority_cfg
      in if \<not> sm_enabled study_cfg then (ShowNormally, score)
         else if 81 \<le> score then (ShowImmediately, score)
         else if 51 \<le> score \<and> sm_emergency_override study_cfg then (ShowImmediately, score)
         else (QueueForBatch, score))"

section \<open>Bounds\<close>

lemma keyword_points_fold:
  assumes "0 \<le> points"
  shows "acc \<le> fold (\<lambda>kw score. if P kw then score + points else score) kws acc
    \<and> fold (\<lambda>kw score. if P kw then score + points else score) kws acc
        \<le> acc + points * int (length kws)"
proof (induction kws arbitrary: acc)
  case Nil
  then show ?case by simp
next
  case (Cons k kws)
  show ?case using Cons.IH [of "if P k then acc + points else acc"] assms
    by (auto simp: algebra_simps)
qed

lemma keyword_points_bounds:
  "0 \<le> points \<Longrightarrow> 0 \<le> keyword_points u msg points kws
     \<and> keyword_points u msg points kws \<le> points * int (length kws)"
  using keyword_points_fold [of points 0 "\<lambda>kw. contains msg (u_lowercase u kw)" kws]
  by (simp add: keyword_points_def)

lemma raw_score_bounds:
  "0 \<le> raw_score u input cfg
   \<and> raw_score u input cfg \<le>
       265 + 30 * int (length (urgent_keywords cfg)) + 20 * int (length (priority_keywords cfg))"
  using keyword_points_bounds [of 30 u _ "urgent_keywords cfg"]
    keyword_points_bounds [of 20 u _ "priority_keywords cfg"]
  unfolding raw_score_def Let_def by (smt (verit))

lemma raw_score_2fa:
  "detect_2fa (u_lowercase u (case_option [] id (si_message input))) \<Longrightarrow>
    100 \<le> raw_score u input cfg"
  using keyword_points_bounds [of 30 u _ "urgent_keywords cfg"]
    keyword_points_bounds [of 20 u _ "priority_keywords cfg"]
  unfolding raw_score_def Let_def by (smt (verit))


lemma calculate_score_range: "0 \<le> calculate_score u input cfg \<and> calculate_score u input cfg \<le> 100"
  by (simp add: calculate_score_def)

lemma contains_iff: "contains s k \<longleftrightarrow> (\<exists>a b. s = a @ k @ b)"
proof (induction s)
  case Nil
  then show ?case by auto
next
  case (Cons c s)
  have "take (length k) (c # s) = k \<longleftrightarrow> (\<exists>b. c # s = k @ b)"
    by (metis append_eq_conv_conj)
  moreover have "(\<exists>a b. s = a @ k @ b) \<longleftrightarrow> (\<exists>a b. c # s = (c # a) @ k @ b)" by simp
  moreover have "(\<exists>a b. c # s = a @ k @ b) \<longleftrightarrow>
      (\<exists>b. c # s = k @ b) \<or> (\<exists>a b. c # s = (c # a) @ k @ b)"
    by (metis append_Cons append_Nil list.inject neq_Nil_conv)
  ultimately show ?case using Cons by simp
qed

section \<open>Runs of digits\<close>

definition digit_run_in :: "string \<Rightarrow> string \<Rightarrow> bool" where
  "digit_run_in r s \<longleftrightarrow> (\<exists>a b. s = a @ r @ b) \<and> (\<forall>c\<in>set r. is_digit c)"

text \<open>After any prefix, \<open>cur\<close> is the length of its last run and \<open>best\<close> the longest of its runs.\<close>

definition last_run :: "string \<Rightarrow> nat" where
  "last_run s = length (takeWhile is_digit (rev s))"

lemma last_run_simps [simp]:
  "last_run [] = 0"
  "last_run (s @ [c]) = (if is_digit c then Suc (last_run s) else 0)"
  by (simp_all add: last_run_def)

lemma digit_run_fold_cur: "snd (fold digit_run_step s (0, 0)) = last_run s"
  by (induction s rule: rev_induct)
    (auto simp: digit_run_step_def Let_def split: prod.splits)

lemma longest_snoc:
  "longest_digit_run (s @ [c]) =
     (if is_digit c then max (longest_digit_run s) (Suc (last_run s)) else longest_digit_run s)"
  using digit_run_fold_cur [of s]
  by (auto simp: longest_digit_run_def digit_run_step_def Let_def split: prod.splits)

lemma last_run_suffix: "\<exists>a r. s = a @ r \<and> length r = last_run s \<and> (\<forall>c\<in>set r. is_digit c)"
proof -
  have "s = rev (dropWhile is_digit (rev s)) @ rev (takeWhile is_digit (rev s))"
    by (metis rev_append rev_rev_ident takeWhile_dropWhile_id)
  moreover have "\<forall>c\<in>set (rev (takeWhile is_digit (rev s))). is_digit c"
    by (auto dest: set_takeWhileD)
  ultimately show ?thesis unfolding last_run_def by (metis length_rev)
qed

lemma suffix_le_last_run:
  "\<forall>c\<in>set r. is_digit c \<Longrightarrow> length r \<le> last_run (a @ r)"
proof (induction r rule: rev_induct)
  case Nil
  then show ?case by simp
next
  case (snoc c r)
  then have "length r \<le> last_run (a @ r)" by simp
  moreover have "last_run (a @ r @ [c]) = Suc (last_run (a @ r))"
    using snoc.prems last_run_simps(2) [of "a @ r" c] by simp
  ultimately show ?case by simp
qed

lemma digit_run_in_snoc:
  "digit_run_in r (s @ [c]) \<longleftrightarrow>
     digit_run_in r s \<or> (\<exists>a. s @ [c] = a @ r) \<and> (\<forall>c\<in>set r. is_digit c)"
proof
  assume *: "digit_run_in r (s @ [c])"
  then obtain a b where ab: "s @ [c] = a @ r @ b" and d: "\<forall>c\<in>set r. is_digit c"
    by (auto simp: digit_run_in_def)
  show "digit_run_in r s \<or> (\<exists>a. s @ [c] = a @ r) \<and> (\<forall>c\<in>set r. is_digit c)"
  proof (cases b rule: rev_cases)
    case Nil
    with ab d show ?thesis by auto
  next
    case (snoc b' x)
    with ab have "s = a @ r @ b'" by simp
    with d show ?thesis by (auto simp: digit_run_in_def)
  qed
next
  assume "digit_run_in r s \<or> (\<exists>a. s @ [c] = a @ r) \<and> (\<forall>c\<in>set r. is_digit c)"
  then show "digit_run_in r (s @ [c])"
    unfolding digit_run_in_def by (metis append.assoc append_Nil2)
qed

lemma digit_run_in_le: "digit_run_in r s \<Longrightarrow> length r \<le> longest_digit_run s"
proof (induction s rule: rev_induct)
  case Nil
  then show ?case by (auto simp: digit_run_in_def)
next
  case (snoc c s)
  from snoc.prems consider "digit_run_in r s"
    | a where "s @ [c] = a @ r" "\<forall>c\<in>set r. is_digit c"
    by (auto simp: digit_run_in_snoc)
  then show ?case
  proof cases
    case 1
    then show ?thesis using snoc.IH by (auto simp: longest_snoc)
  next
    case 2
    then have "length r \<le> last_run (s @ [c])" using suffix_le_last_run by metis
    then show ?thesis by (auto simp: longest_snoc)
  qed
qed

lemma longest_digit_run_attained: "\<exists>r. digit_run_in r s \<and> length r = longest_digit_run s"
proof (induction s rule: rev_induct)
  case Nil
  have "digit_run_in [] []" by (simp add: digit_run_in_def)
  then show ?case by (auto simp: longest_digit_run_def)
next
  case (snoc c s)
  then obtain r where r: "digit_run_in r s" "length r = longest_digit_run s" by blast
  obtain a l where l: "s = a @ l" "length l = last_run s" "\<forall>c\<in>set l. is_digit c"
    using last_run_suffix by blast
  show ?case
  proof (cases "is_digit c \<and> longest_digit_run s < Suc (last_run s)")
    case True
    then have "digit_run_in (l @ [c]) (s @ [c])"
      using l unfolding digit_run_in_def
      by (intro conjI exI [of _ a] exI [of _ "[]"]) auto
    with True l(2) show ?thesis
      by (intro exI [of _ "l @ [c]"]) (auto simp: longest_snoc)
  next
    case False
    with r show ?thesis
      by (intro exI [of _ r]) (auto simp: longest_snoc digit_run_in_snoc)
  qed
qed

lemma longest_digit_run_eqI:
  assumes "digit_run_in r s" and "\<And>r'. digit_run_in r' s \<Longrightarrow> length r' \<le> n" and "length r = n"
  shows "longest_digit_run s = n"
  using digit_run_in_le [OF assms(1)] longest_digit_run_attained [of s] assms(2,3)
  by (metis le_antisym)

lemma detect_2fa_iff:
  "detect_2fa s \<longleftrightarrow>
     (\<exists>kw\<in>set patterns. \<exists>a b. s = a @ kw @ b)
     \<and> (\<exists>r. digit_run_in r s \<and> 4 \<le> length r) \<and> (\<forall>r. digit_run_in r s \<longrightarrow> length r \<le> 8)"
proof -
  let ?n = "longest_digit_run s"
  have lo: "4 \<le> ?n \<longleftrightarrow> (\<exists>r. digit_run_in r s \<and> 4 \<le> length r)"
    using digit_run_in_le longest_digit_run_attained by (metis order_trans)
  have hi: "?n \<le> 8 \<longleftrightarrow> (\<forall>r. digit_run_in r s \<longrightarrow> length r \<le> 8)"
    using digit_run_in_le longest_digit_run_attained by (metis order_trans)
  have some: "list_ex is_digit s" if run: "digit_run_in r s" "4 \<le> length r" for r
  proof -
    from run(2) have "hd r \<in> set r" by (cases r) auto
    with run(1) show ?thesis by (auto simp: digit_run_in_def list_ex_iff)
  qed
  show ?thesis
    unfolding lo [symmetric] hi [symmetric]
    using some lo by (auto simp: detect_2fa_def list_ex_iff contains_iff Let_def)
qed

section \<open>Property\<close>

text \<open>A message that, in lower case, contains one of the six words and whose longest run of
  digits has 4 to 8 digits always scores exactly 100, whoever sent it from whatever blocked
  application at whatever hour, and study mode never queues it; and every score lies
  between 0 and 100, from a sum that the i32 of the code can hold for up to a million keywords.\<close>

theorem two_factor_never_queued:
  assumes "length (urgent_keywords cfg) \<le> 1000000" and "length (priority_keywords cfg) \<le> 1000000"
    and "contains msg kw" and "kw \<in> set patterns"
    and "digit_run_in r msg" and "4 \<le> length r" and "\<forall>r'. digit_run_in r' msg \<longrightarrow> length r' \<le> 8"
    and "msg = u_lowercase u (case_option [] id (si_message input))"
  shows "calculate_score u input cfg = 100
    \<and> fst (decide u input cfg study) = (if sm_enabled study then ShowImmediately else ShowNormally)
    \<and> 0 \<le> raw_score u input cfg \<and> raw_score u input cfg < 2 ^ 31"
proof -
  have "detect_2fa (u_lowercase u (case_option [] id (si_message input)))"
    unfolding detect_2fa_iff using assms(3-7) contains_iff unfolding assms(8) by blast
  then have "calculate_score u input cfg = 100"
    using raw_score_2fa [of u input cfg] by (simp add: calculate_score_def)
  then show ?thesis
    using raw_score_bounds [of u input cfg] assms(1,2) by (simp add: decide_def Let_def)
qed

definition ascii_unicode :: unicode where
  "ascii_unicode = \<lparr>u_lowercase = to_ascii_lowercase, u_has_numeric = list_ex is_digit\<rparr>"

definition bank_message :: score_input where
  "bank_message =
     \<lparr>si_package_name = ''com.spam'', si_sender = Some ''Eve'', si_message = Some ''Your OTP: 123456'',
      si_timestamp_epoch_secs = 0, si_same_sender_msgs_last_5min = 0\<rparr>"

definition strict_config :: priority_config where
  "strict_config = priority_config_default
     \<lparr>blocked_contacts := [''eve''], blocked_apps := [''com.spam'']\<rparr>"

lemma bank_message_lower:
  "to_ascii_lowercase (case_option [] id (si_message bank_message)) = ''your otp: 123456''"
  by code_simp

lemma bank_message_run: "longest_digit_run ''your otp: 123456'' = 6"
  by code_simp

theorem two_factor_never_queued_witness:
  "calculate_score ascii_unicode bank_message strict_config = 100
   \<and> fst (decide ascii_unicode bank_message strict_config
       \<lparr>sm_enabled = True, sm_emergency_override = False\<rparr>) = ShowImmediately"
proof -
  have run: "digit_run_in ''123456'' ''your otp: 123456''"
    unfolding digit_run_in_def
    by (intro conjI exI [of _ "''your otp: ''"] exI [of _ "[]"]) (simp_all add: is_digit_def)
  have "contains ''your otp: 123456'' ''otp''" by simp
  moreover have "''otp'' \<in> set patterns" by (simp add: patterns_def)
  moreover have "\<forall>r'. digit_run_in r' ''your otp: 123456'' \<longrightarrow> length r' \<le> 8"
    using digit_run_in_le [of _ "''your otp: 123456''"] by (force simp: bank_message_run)
  moreover have "length (urgent_keywords strict_config) \<le> 1000000"
    "length (priority_keywords strict_config) \<le> 1000000"
    by (simp_all add: strict_config_def priority_config_default_def)
  moreover have "4 \<le> length ''123456''" by simp
  moreover have "''your otp: 123456'' =
      u_lowercase ascii_unicode (case_option [] id (si_message bank_message))"
    unfolding ascii_unicode_def using bank_message_lower by simp
  ultimately have "calculate_score ascii_unicode bank_message strict_config = 100
      \<and> fst (decide ascii_unicode bank_message strict_config
          \<lparr>sm_enabled = True, sm_emergency_override = False\<rparr>) =
        (if sm_enabled \<lparr>sm_enabled = True, sm_emergency_override = False\<rparr>
         then ShowImmediately else ShowNormally)"
    using two_factor_never_queued run by blast
  then show ?thesis by simp
qed

end
