(* ===== verification/Json.thy ===== *)
theory Json
  imports Rust_Strings Stores
begin

text \<open>
  JSON values as \<open>serde_json::Value\<close> has them, and the accessors the program uses. A number
  keeps the three representations of the library: unsigned, negative, and the bits of a
  float. An object is an association list; reading and printing JSON text are parameters of
  the components that do it.
\<close>

datatype number = PosInt nat | NegInt int | Float "64 word"

datatype json =
  JNull | JBool bool | JNumber number | JString string | JArray "json list"
| JObject "(string \<times> json) list"

fun json_get :: "string \<Rightarrow> json \<Rightarrow> json option" where
  "json_get k (JObject m) = map_of m k"
| "json_get k _ = None"

fun as_str :: "json \<Rightarrow> string option" where
  "as_str (JString s) = Some s"
| "as_str _ = None"

fun as_array :: "json \<Rightarrow> json list option" where
  "as_array (JArray xs) = Some xs"
| "as_array _ = None"

fun as_bool :: "json \<Rightarrow> bool option" where
  "as_bool (JBool b) = Some b"
| "as_bool _ = None"

fun as_i64 :: "json \<Rightarrow> int option" where
  "as_i64 (JNumber (PosInt n)) = (if n < 2 ^ 63 then Some (int n) else None)"
| "as_i64 (JNumber (NegInt i)) = Some i"
| "as_i64 _ = None"

fun as_u64 :: "json \<Rightarrow> nat option" where
  "as_u64 (JNumber (PosInt n)) = Some n"
| "as_u64 _ = None"

definition get_str :: "string \<Rightarrow> json \<Rightarrow> string option" where
  "get_str k v = Option.bind (json_get k v) as_str"

definition get_array :: "string \<Rightarrow> json \<Rightarrow> json list option" where
  "get_array k v = Option.bind (json_get k v) as_array"

definition get_bool :: "string \<Rightarrow> json \<Rightarrow> bool option" where
  "get_bool k v = Option.bind (json_get k v) as_bool"

definition get_i64 :: "string \<Rightarrow> json \<Rightarrow> int option" where
  "get_i64 k v = Option.bind (json_get k v) as_i64"

definition get_u64 :: "string \<Rightarrow> json \<Rightarrow> nat option" where
  "get_u64 k v = Option.bind (json_get k v) as_u64"

lemma as_str_Some [simp]: "as_str v = Some s \<longleftrightarrow> v = JString s"
  by (cases v) auto

lemma as_array_Some [simp]: "as_array v = Some xs \<longleftrightarrow> v = JArray xs"
  by (cases v) auto

lemma get_str_Some: "get_str k v = Some s \<longleftrightarrow> json_get k v = Some (JString s)"
  by (auto simp: get_str_def Option.bind_eq_Some_conv)

lemmas json_access = get_str_def get_array_def get_bool_def get_i64_def get_u64_def

fun list_filter_map :: "('a \<Rightarrow> 'b option) \<Rightarrow> 'a list \<Rightarrow> 'b list" where
  "list_filter_map f [] = []"
| "list_filter_map f (x # xs) =
     (case f x of None \<Rightarrow> list_filter_map f xs | Some y \<Rightarrow> y # list_filter_map f xs)"

lemma set_list_filter_map: "y \<in> set (list_filter_map f xs) \<longleftrightarrow> (\<exists>x\<in>set xs. f x = Some y)"
  by (induction xs) (auto split: option.splits)

text \<open>Printing and reading JSON text, as the library does it.\<close>

record json_text =
  jt_print :: "json \<Rightarrow> string"
  jt_parse :: "string \<Rightarrow> json option"

end
