(* ===== verification/Local_Db.thy ===== *)
theory Local_Db
  imports Priority Json "HOL-Library.Product_Lexorder" "HOL-Library.List_Lexorder"
    "HOL-Library.Char_ord"
begin

text \<open>
  desktop/src-tauri/src/db/store.rs and models.rs, with the schema of
  migrations/001_initial.sql: the desktop's tables and every statement on them. A table is the
  list of its rows in rowid order. Any statement, and opening the database, may fail: the
  state carries the outcomes of the statements to come, a failed statement changes nothing,
  and an operation stops at the first failure. Clocks and new row ids are arguments.
\<close>

section \<open>Tables\<close>

text \<open>
  A counter that SQLite adds past the 64-bit range becomes a float; it is kept as \<open>SqlReal\<close>,
  which stands for 2 to the 63, and cannot be read back as an integer.
\<close>

datatype sql_number = SqlInt int | SqlReal

fun sql_value :: "sql_number \<Rightarrow> int" where
  "sql_value (SqlInt i) = i"
| "sql_value SqlReal = 2 ^ 63"

definition sql_add :: "sql_number \<Rightarrow> int \<Rightarrow> sql_number" where
  "sql_add a n = (case a of SqlReal \<Rightarrow> SqlReal
     | SqlInt i \<Rightarrow> if i + n < 2 ^ 63 then SqlInt (i + n) else SqlReal)"

definition sql_max :: "sql_number \<Rightarrow> sql_number \<Rightarrow> sql_number" where
  "sql_max a b = (if sql_value a < sql_value b then b else a)"

record notification_row =
  nr_id :: string
  nr_app_name :: string
  nr_package_name :: string
  nr_sender :: string
  nr_message :: string
  nr_timestamp :: int
  nr_received_at :: int
  nr_status :: string
  nr_priority :: int
  nr_content_hidden :: int

record paired_device_row =
  pd_id :: int
  pd_device_name :: string
  pd_device_id :: string
  pd_pairing_key :: string
  pd_mode :: string
  pd_endpoint :: "string option"
  pd_cert_fingerprint :: "string option"
  pd_is_active :: int
  pd_created_at :: int
  pd_last_connected_at :: "int option"

record app_rule_row =
  ar_package_name :: string
  ar_label :: string
  ar_category :: string
  ar_icon_data_url :: string
  ar_notifications_seen :: int
  ar_last_seen_at :: int
  ar_muted :: int
  ar_priority :: int
  ar_study_safe :: int
  ar_updated_at :: int

text \<open>A stored rule: what is read back, its counter as stored, and its inventory membership.\<close>

record stored_rule =
  sr_rule :: app_rule_row
  sr_seen :: sql_number
  sr_inventory_present :: bool

record tables =
  tb_notifications :: "notification_row list"
  tb_settings :: "(string, string) store"
  tb_devices :: "paired_device_row list"
  tb_rules :: "stored_rule list"
  tb_rule_columns :: "string list"

record db =
  db_tables :: tables
  db_faults :: "bool list"

section \<open>Statements\<close>

type_synonym 'a db_op = "db \<Rightarrow> (string + 'a) \<times> db"

definition db_return :: "'a \<Rightarrow> 'a db_op" where
  "db_return x d = (Inr x, d)"

definition db_fail :: "string \<Rightarrow> 'a db_op" where
  "db_fail e d = (Inl e, d)"

definition db_bind :: "'a db_op \<Rightarrow> ('a \<Rightarrow> 'b db_op) \<Rightarrow> 'b db_op" where
  "db_bind m f d = (case m d of (Inl e, d') \<Rightarrow> (Inl e, d') | (Inr x, d') \<Rightarrow> f x d')"

definition db_exec :: "string \<Rightarrow> (tables \<Rightarrow> 'a \<times> tables) \<Rightarrow> 'a db_op" where
  "db_exec ctx f d =
     (case db_faults d of
        False # fs \<Rightarrow> (Inl ctx, d\<lparr>db_faults := fs\<rparr>)
      | fs \<Rightarrow> (case f (db_tables d) of
                 (x, t) \<Rightarrow> (Inr x, \<lparr>db_tables = t, db_faults = tl fs\<rparr>)))"

definition db_open :: "unit db_op" where
  "db_open = db_exec ''open'' (\<lambda>t. ((), t))"

definition db_query :: "string \<Rightarrow> (tables \<Rightarrow> 'a) \<Rightarrow> 'a db_op" where
  "db_query ctx f = db_exec ctx (\<lambda>t. (f t, t))"

definition db_update :: "string \<Rightarrow> (tables \<Rightarrow> tables) \<Rightarrow> unit db_op" where
  "db_update ctx f = db_exec ctx (\<lambda>t. ((), f t))"

text \<open>
  A transaction: unless its body and its commit succeed, the tables are those from before.
\<close>

definition db_transaction :: "'a db_op \<Rightarrow> 'a db_op" where
  "db_transaction body d =
     (case db_bind (db_update ''begin app inventory snapshot'' (\<lambda>t. t)) (\<lambda>_.
             db_bind body (\<lambda>x.
               db_bind (db_update ''commit app inventory snapshot'' (\<lambda>t. t)) (\<lambda>_. db_return x))) d of
        (Inl e, d') \<Rightarrow> (Inl e, d'\<lparr>db_tables := db_tables d\<rparr>)
      | (Inr x, d') \<Rightarrow> (Inr x, d'))"

fun db_each :: "('a \<Rightarrow> unit db_op) \<Rightarrow> 'a list \<Rightarrow> unit db_op" where
  "db_each f [] = db_return ()"
| "db_each f (x # xs) = db_bind (f x) (\<lambda>_. db_each f xs)"

section \<open>Fields of a payload\<close>

definition string_field :: "json \<Rightarrow> string \<Rightarrow> string \<Rightarrow> string" where
  "string_field payload key def = (case get_str key payload of None \<Rightarrow> def | Some s \<Rightarrow> s)"

definition nullable_string_field :: "json \<Rightarrow> string \<Rightarrow> string" where
  "nullable_string_field payload key = (case get_str key payload of None \<Rightarrow> [] | Some s \<Rightarrow> s)"

fun priority_score :: "json option \<Rightarrow> int" where
  "priority_score (Some (JNumber n)) =
     max 0 (min 100 (case as_i64 (JNumber n) of None \<Rightarrow> 30 | Some i \<Rightarrow> i))"
| "priority_score (Some (JString s)) =
     (if s = ''URGENT'' then 100 else if s = ''HIGH'' then 80 else if s = ''LOW'' then 10 else 30)"
| "priority_score _ = 30"

definition contains_any :: "string \<Rightarrow> string list \<Rightarrow> bool" where
  "contains_any text needles = list_ex (contains text) needles"

definition app_categories :: "(string \<times> string list) list" where
  "app_categories =
     [(''messaging'', [''whatsapp'', ''telegram'', ''signal'', ''messenger'', ''messages'', ''sms'',
        ''discord'', ''slack'', ''viber'', ''wechat'', ''line'']),
      (''email'', [''gmail'', ''outlook'', ''mail'', ''proton'', ''yahoo'']),
      (''learning'', [''duolingo'', ''khan'', ''coursera'', ''udemy'', ''quizlet'', ''classroom'',
        ''canvas'', ''moodle'', ''blackboard'']),
      (''school_work'', [''calendar'', ''meet'', ''zoom'', ''teams'', ''notion'', ''todoist'', ''trello'']),
      (''finance'', [''bank'', ''paypal'', ''pay'', ''wallet'', ''finance'']),
      (''social'', [''instagram'', ''tiktok'', ''snapchat'', ''facebook'', ''twitter'', ''threads'',
        ''x.'', ''linkedin'', ''pinterest'', ''reddit'']),
      (''shopping'', [''amazon'', ''shop'', ''store'', ''ebay'', ''walmart'']),
      (''media'', [''youtube'', ''spotify'', ''netflix'', ''music'', ''video'']),
      (''system'', [''android'', ''system'', ''settings'', ''google play''])]"

definition categorize_app :: "unicode \<Rightarrow> string \<Rightarrow> string \<Rightarrow> string" where
  "categorize_app u package_name label =
     (let txt = u_lowercase u (package_name @ '' '' @ label)
      in case find (\<lambda>(category, needles). contains_any txt needles) app_categories of
           None \<Rightarrow> ''other''
         | Some (category, _) \<Rightarrow> category)"

definition show_int :: "int \<Rightarrow> string" where
  "show_int i = (if i < 0 then CHR ''-'' # decimal (nat (- i)) else decimal (nat i))"

definition notification_from_payload :: "int \<Rightarrow> json \<Rightarrow> notification_row" where
  "notification_from_payload now payload =
     \<lparr>nr_id = string_field payload ''id'' (''notification-'' @ show_int now),
      nr_app_name = string_field payload ''appName'' ''Unknown'',
      nr_package_name = string_field payload ''packageName'' ''unknown'',
      nr_sender = nullable_string_field payload ''sender'',
      nr_message = nullable_string_field payload ''message'',
      nr_timestamp = (case get_i64 ''timestamp'' payload of None \<Rightarrow> now | Some t \<Rightarrow> t),
      nr_received_at = now,
      nr_status = ''NEW'',
      nr_priority = priority_score (json_get ''priority'' payload),
      nr_content_hidden = (if get_bool ''contentHidden'' payload = Some True then 1 else 0)\<rparr>"

section \<open>Rows by key\<close>

text \<open>Update of the row with a key, or insertion of a new last row.\<close>

fun upsert_row :: "('r \<Rightarrow> 'k) \<Rightarrow> 'k \<Rightarrow> ('r \<Rightarrow> 'r) \<Rightarrow> 'r \<Rightarrow> 'r list \<Rightarrow> 'r list" where
  "upsert_row key k f new [] = [new]"
| "upsert_row key k f new (r # rs) =
     (if key r = k then f r # rs else r # upsert_row key k f new rs)"

definition update_rows :: "('r \<Rightarrow> bool) \<Rightarrow> ('r \<Rightarrow> 'r) \<Rightarrow> 'r list \<Rightarrow> 'r list" where
  "update_rows P f rs = map (\<lambda>r. if P r then f r else r) rs"

definition find_row :: "('r \<Rightarrow> 'k) \<Rightarrow> 'k \<Rightarrow> 'r list \<Rightarrow> 'r option" where
  "find_row key k rs = find (\<lambda>r. key r = k) rs"

section \<open>Notifications\<close>

definition set_notifications :: "(notification_row list \<Rightarrow> notification_row list) \<Rightarrow> tables \<Rightarrow> tables" where
  "set_notifications f t = t\<lparr>tb_notifications := f (tb_notifications t)\<rparr>"

definition set_rules :: "(stored_rule list \<Rightarrow> stored_rule list) \<Rightarrow> tables \<Rightarrow> tables" where
  "set_rules f t = t\<lparr>tb_rules := f (tb_rules t)\<rparr>"

definition set_devices :: "(paired_device_row list \<Rightarrow> paired_device_row list) \<Rightarrow> tables \<Rightarrow> tables" where
  "set_devices f t = t\<lparr>tb_devices := f (tb_devices t)\<rparr>"

definition rule_key :: "stored_rule \<Rightarrow> string" where
  "rule_key r = ar_package_name (sr_rule r)"

definition upsert_app_seen ::
  "string \<Rightarrow> string \<Rightarrow> string \<Rightarrow> int \<Rightarrow> int \<Rightarrow> unit db_op" where
  "upsert_app_seen package_name label category seen_at now =
     db_update ''upsert app seen'' (\<lambda>t.
       set_rules (upsert_row rule_key package_name
         (\<lambda>r. r\<lparr>sr_rule := (sr_rule r)\<lparr>ar_label := label, ar_category := category,
                  ar_last_seen_at := max (ar_last_seen_at (sr_rule r)) seen_at\<rparr>,
                sr_seen := sql_add (sr_seen r) 1\<rparr>)
         \<lparr>sr_rule = \<lparr>ar_package_name = package_name, ar_label = label, ar_category = category,
                       ar_icon_data_url = [], ar_notifications_seen = 1, ar_last_seen_at = seen_at,
                       ar_muted = 0, ar_priority = 0, ar_study_safe = 0, ar_updated_at = now\<rparr>,
          sr_seen = SqlInt 1,
          sr_inventory_present = (store_get (tb_settings t) ''app_inventory_received'' = None)\<rparr>) t)"

definition keep_notification :: "notification_row \<Rightarrow> notification_row \<Rightarrow> notification_row" where
  "keep_notification new old =
     old\<lparr>nr_app_name := nr_app_name new, nr_package_name := nr_package_name new,
         nr_sender := nr_sender new, nr_message := nr_message new,
         nr_timestamp := nr_timestamp new, nr_priority := nr_priority new,
         nr_content_hidden := nr_content_hidden new\<rparr>"

definition upsert_notification :: "unicode \<Rightarrow> int \<Rightarrow> int \<Rightarrow> json \<Rightarrow> notification_row db_op" where
  "upsert_notification u now now2 payload =
     (let row = notification_from_payload now payload
      in db_bind db_open (\<lambda>_.
         db_bind (upsert_app_seen (nr_package_name row) (nr_app_name row)
                    (categorize_app u (nr_package_name row) (nr_app_name row))
                    (max (nr_timestamp row) (nr_received_at row)) now2) (\<lambda>_.
         db_bind (db_update ''upsert notification''
                    (set_notifications (upsert_row nr_id (nr_id row) (keep_notification row) row))) (\<lambda>_.
         db_return row))))"

definition notification_exists :: "string \<Rightarrow> bool db_op" where
  "notification_exists i =
     db_bind db_open (\<lambda>_. db_query ''check notification exists''
       (\<lambda>t. find_row nr_id i (tb_notifications t) \<noteq> None))"

definition equivalent_notification :: "int \<Rightarrow> json \<Rightarrow> string option db_op" where
  "equivalent_notification now payload =
     (let row = notification_from_payload now payload
      in if trim (nr_message row) = [] then db_return None
         else db_bind db_open (\<lambda>_. db_query ''look for an equivalent notification''
           (\<lambda>t. map_option nr_id (find (\<lambda>r. nr_package_name r = nr_package_name row
                \<and> nr_sender r = nr_sender row \<and> nr_message r = nr_message row
                \<and> nr_timestamp r = nr_timestamp row \<and> nr_id r \<noteq> nr_id row) (tb_notifications t)))))"

definition mark_status :: "string \<Rightarrow> string \<Rightarrow> unit db_op" where
  "mark_status i status =
     db_bind db_open (\<lambda>_. db_update ''update notification status''
       (set_notifications (update_rows (\<lambda>r. nr_id r = i) (\<lambda>r. r\<lparr>nr_status := status\<rparr>))))"

definition dismiss_notification :: "string \<Rightarrow> unit db_op" where
  "dismiss_notification i = mark_status i ''READ''"

text \<open>A delete returns the number of rows it removed.\<close>

definition delete_notifications :: "string \<Rightarrow> (notification_row \<Rightarrow> bool) \<Rightarrow> nat db_op" where
  "delete_notifications ctx P =
     db_bind db_open (\<lambda>_. db_exec ctx
       (\<lambda>t. (length (filter P (tb_notifications t)), set_notifications (filter (\<lambda>r. \<not> P r)) t)))"

definition delete_notification :: "string \<Rightarrow> nat db_op" where
  "delete_notification i = delete_notifications ''delete notification'' (\<lambda>r. nr_id r = i)"

definition clear_notifications_between :: "int \<Rightarrow> int \<Rightarrow> nat db_op" where
  "clear_notifications_between start_ms end_ms =
     delete_notifications ''clear notification section''
       (\<lambda>r. let m = min (nr_timestamp r) (nr_received_at r) in start_ms \<le> m \<and> m < end_ms)"

definition clear_notifications_older_than :: "int \<Rightarrow> nat db_op" where
  "clear_notifications_older_than cutoff_ms =
     delete_notifications ''clear old notifications''
       (\<lambda>r. min (nr_timestamp r) (nr_received_at r) < cutoff_ms)"

definition clear_all_notifications :: "nat db_op" where
  "clear_all_notifications = delete_notifications ''clear all notifications'' (\<lambda>r. True)"

definition list_notifications :: "int \<Rightarrow> notification_row list db_op" where
  "list_notifications limit =
     db_bind db_open (\<lambda>_. db_query ''query notifications'' (\<lambda>t.
       take (nat (max 1 (min 500 limit)))
         (sort_key (\<lambda>r. (- nr_timestamp r, - nr_received_at r))
           (filter (\<lambda>r. nr_status r \<noteq> ''READ'') (tb_notifications t)))))"

section \<open>App rules\<close>

text \<open>Reading a row back fails when its counter is no longer an integer.\<close>

definition app_rule_from_row :: "stored_rule \<Rightarrow> app_rule_row option" where
  "app_rule_from_row r =
     (case sr_seen r of SqlReal \<Rightarrow> None
      | SqlInt i \<Rightarrow> Some ((sr_rule r)\<lparr>ar_notifications_seen := i\<rparr>))"

definition collect_rows :: "string \<Rightarrow> 'a option list \<Rightarrow> 'a list db_op" where
  "collect_rows ctx rs =
     (case those rs of None \<Rightarrow> db_fail ctx | Some xs \<Rightarrow> db_return xs)"

definition rule_order :: "stored_rule \<Rightarrow> int \<times> int \<times> int \<times> string" where
  "rule_order r = (ar_muted (sr_rule r), - ar_priority (sr_rule r), - sql_value (sr_seen r),
     to_ascii_lowercase (ar_label (sr_rule r)))"

definition list_app_rules :: "app_rule_row list db_op" where
  "list_app_rules =
     db_bind db_open (\<lambda>_.
     db_bind (db_query ''query app rules''
                (\<lambda>t. sort_key rule_order (filter sr_inventory_present (tb_rules t)))) (\<lambda>rows.
     collect_rows ''collect app rules'' (map app_rule_from_row rows)))"

definition get_app_rule :: "string \<Rightarrow> app_rule_row db_op" where
  "get_app_rule package_name =
     db_bind (db_query ''get app rule'' (\<lambda>t. find_row rule_key package_name (tb_rules t))) (\<lambda>row.
       case Option.bind row app_rule_from_row of
         None \<Rightarrow> db_fail ''get app rule''
       | Some r \<Rightarrow> db_return r)"

definition fresh_rule :: "string \<Rightarrow> int \<Rightarrow> stored_rule" where
  "fresh_rule package_name now =
     \<lparr>sr_rule = \<lparr>ar_package_name = package_name, ar_label = package_name, ar_category = ''other'',
         ar_icon_data_url = [], ar_notifications_seen = 0, ar_last_seen_at = 0, ar_muted = 0,
         ar_priority = 0, ar_study_safe = 0, ar_updated_at = now\<rparr>,
      sr_seen = SqlInt 0, sr_inventory_present = True\<rparr>"

definition set_flag :: "string \<Rightarrow> int \<Rightarrow> int \<Rightarrow> stored_rule \<Rightarrow> stored_rule" where
  "set_flag column v now r =
     (let rule = (sr_rule r)\<lparr>ar_updated_at := now\<rparr>
      in r\<lparr>sr_rule := (if column = ''muted'' then rule\<lparr>ar_muted := v\<rparr>
                       else if column = ''priority'' then rule\<lparr>ar_priority := v\<rparr>
                       else rule\<lparr>ar_study_safe := v\<rparr>)\<rparr>)"

definition set_app_rule_flag ::
  "int \<Rightarrow> int \<Rightarrow> string \<Rightarrow> string \<Rightarrow> bool \<Rightarrow> app_rule_row db_op" where
  "set_app_rule_flag now now2 package_name flag enabled =
     (if flag \<notin> {''muted'', ''priority'', ''study_safe''}
      then db_fail (''unsupported app rule flag: '' @ flag)
      else
        db_bind db_open (\<lambda>_.
        db_bind (db_update ''ensure app rule row''
                   (set_rules (upsert_row rule_key package_name id (fresh_rule package_name now)))) (\<lambda>_.
        db_bind (db_update ''update app rule flag''
                   (set_rules (update_rows (\<lambda>r. rule_key r = package_name)
                      (set_flag flag (if enabled then 1 else 0) now2)))) (\<lambda>_.
        get_app_rule package_name))))"

section \<open>Settings\<close>

definition set_setting :: "string \<Rightarrow> string \<Rightarrow> unit db_op" where
  "set_setting key v =
     db_bind db_open (\<lambda>_. db_update ''set setting''
       (\<lambda>t. t\<lparr>tb_settings := store_put key v (tb_settings t)\<rparr>))"

definition get_setting :: "string \<Rightarrow> string option db_op" where
  "get_setting key =
     db_bind db_open (\<lambda>_. db_query ''get setting'' (\<lambda>t. store_get (tb_settings t) key))"

definition csv_values :: "string \<Rightarrow> string list" where
  "csv_values v =
     filter (\<lambda>s. s \<noteq> []) (map trim (split_on CHR '','' (map (\<lambda>c. if c = CHR 0x0A then CHR '','' else c) v)))"

definition csv_setting :: "string \<Rightarrow> string list db_op" where
  "csv_setting key =
     db_bind (get_setting key) (\<lambda>v. db_return (csv_values (case v of None \<Rightarrow> [] | Some s \<Rightarrow> s)))"

definition rule_json :: "app_rule_row \<Rightarrow> json" where
  "rule_json r = JObject
     [(''packageName'', JString (ar_package_name r)), (''muted'', JBool (ar_muted r \<noteq> 0)),
      (''priority'', JBool (ar_priority r \<noteq> 0)), (''studySafe'', JBool (ar_study_safe r \<noteq> 0))]"

definition rules_update_envelope :: "(json \<Rightarrow> string) \<Rightarrow> string db_op" where
  "rules_update_envelope print_json =
     db_bind list_app_rules (\<lambda>rules.
     db_bind (csv_setting ''priority_keywords'') (\<lambda>pk.
     db_bind (csv_setting ''blocked_keywords'') (\<lambda>bk.
     db_bind (csv_setting ''favorite_contacts'') (\<lambda>fc.
     db_return (print_json (JObject
       [(''version'', JNumber (PosInt 1)), (''type'', JString ''RULES_UPDATE''),
        (''payload'', JObject
          [(''version'', JNumber (PosInt 1)), (''appRules'', JArray (map rule_json rules)),
           (''priorityKeywords'', JArray (map JString pk)),
           (''blockedKeywords'', JArray (map JString bk)),
           (''favoriteContacts'', JArray (map JString fc))])]))))))"

section \<open>The app inventory\<close>

text \<open>\<open>char::is_control\<close>: the C0 and C1 controls and DEL, in UTF-8.\<close>

definition has_control :: "string \<Rightarrow> bool" where
  "has_control s \<longleftrightarrow> list_ex (\<lambda>c. (of_char c :: nat) < 32 \<or> (of_char c :: nat) = 127) s
     \<or> (\<exists>i\<in>set [0..<length s]. (of_char (s ! i) :: nat) = 0xC2
          \<and> i + 1 < length s \<and> 0x80 \<le> (of_char (s ! (i + 1)) :: nat)
          \<and> (of_char (s ! (i + 1)) :: nat) \<le> 0x9F)"

definition text_field_ok :: "json \<Rightarrow> string \<Rightarrow> bool" where
  "text_field_ok app field =
     (case json_get field app of
        None \<Rightarrow> True
      | Some (JString _) \<Rightarrow> True
      | Some JNull \<Rightarrow> field = ''iconDataUrl''
      | Some _ \<Rightarrow> False)"

definition count_field_ok :: "json \<Rightarrow> string \<Rightarrow> bool" where
  "count_field_ok app field =
     (case json_get field app of
        None \<Rightarrow> True
      | Some v \<Rightarrow> (case as_i64 v of None \<Rightarrow> False | Some i \<Rightarrow> 0 \<le> i))"

text \<open>The validation loop over the whole snapshot, with the packages seen so far.\<close>

fun validate_inventory :: "string list \<Rightarrow> json list \<Rightarrow> string + unit" where
  "validate_inventory seen [] = Inr ()"
| "validate_inventory seen (app # apps) =
     (case get_str ''packageName'' app of
        None \<Rightarrow> Inl ''inventory app must have a string packageName''
      | Some package \<Rightarrow>
          if package = [] \<or> has_whitespace package \<or> has_control package
            then Inl ''invalid inventory packageName''
          else if package \<in> set seen then Inl ''duplicate inventory packageName''
          else if \<not> list_all (text_field_ok app) [''label'', ''category'', ''iconDataUrl'']
            then Inl ''invalid inventory field''
          else if \<not> list_all (count_field_ok app) [''notificationsSeen'', ''lastSeenAt'']
            then Inl ''invalid inventory field''
          else validate_inventory (package # seen) apps)"

definition inventory_row :: "unicode \<Rightarrow> int \<Rightarrow> int \<Rightarrow> json \<Rightarrow> stored_rule" where
  "inventory_row u now now2 app =
     (let package_name = string_field app ''packageName'' [];
          label = string_field app ''label'' package_name;
          seen = (case get_i64 ''notificationsSeen'' app of None \<Rightarrow> 0 | Some i \<Rightarrow> i)
      in \<lparr>sr_rule =
            \<lparr>ar_package_name = package_name, ar_label = label,
             ar_category = string_field app ''category'' (categorize_app u package_name label),
             ar_icon_data_url = string_field app ''iconDataUrl'' [],
             ar_notifications_seen = seen,
             ar_last_seen_at = (case get_i64 ''lastSeenAt'' app of None \<Rightarrow> now | Some i \<Rightarrow> i),
             ar_muted = 0, ar_priority = 0, ar_study_safe = 0, ar_updated_at = now2\<rparr>,
          sr_seen = SqlInt seen, sr_inventory_present = True\<rparr>)"

definition merge_rule :: "stored_rule \<Rightarrow> stored_rule \<Rightarrow> stored_rule" where
  "merge_rule new old =
     (let n = sr_rule new; r = sr_rule old
      in old\<lparr>sr_inventory_present := True,
             sr_seen := sql_max (sr_seen old) (sr_seen new),
             sr_rule := r\<lparr>ar_label := ar_label n, ar_category := ar_category n,
               ar_icon_data_url := (if ar_icon_data_url n \<noteq> [] then ar_icon_data_url n
                                    else ar_icon_data_url r),
               ar_last_seen_at := max (ar_last_seen_at r) (ar_last_seen_at n)\<rparr>\<rparr>)"

definition save_inventory_row :: "unicode \<Rightarrow> int \<Rightarrow> int \<Rightarrow> json \<Rightarrow> unit db_op" where
  "save_inventory_row u now now2 app =
     (let row = inventory_row u now now2 app
      in db_update ''save app inventory row''
           (set_rules (upsert_row rule_key (rule_key row) (merge_rule row) row)))"

definition inventory_changes :: "unicode \<Rightarrow> int \<Rightarrow> int \<Rightarrow> json list \<Rightarrow> unit db_op" where
  "inventory_changes u now now2 apps =
     db_bind (db_update ''reset app inventory membership''
                (set_rules (map (\<lambda>r. r\<lparr>sr_inventory_present := False\<rparr>)))) (\<lambda>_.
     db_bind (db_update ''record authoritative app inventory''
                (\<lambda>t. t\<lparr>tb_settings := store_put ''app_inventory_received'' ''1'' (tb_settings t)\<rparr>)) (\<lambda>_.
     db_each (save_inventory_row u now now2) apps))"

definition save_app_inventory :: "unicode \<Rightarrow> int \<Rightarrow> int \<Rightarrow> json \<Rightarrow> app_rule_row list db_op" where
  "save_app_inventory u now now2 payload =
     (case get_array ''apps'' payload of
        None \<Rightarrow> db_fail ''app inventory must contain an apps array''
      | Some apps \<Rightarrow>
          (case validate_inventory [] apps of
             Inl e \<Rightarrow> db_fail e
           | Inr _ \<Rightarrow>
               db_bind db_open (\<lambda>_.
               db_bind (db_transaction (inventory_changes u now now2 apps)) (\<lambda>_.
               list_app_rules))))"

section \<open>Paired devices\<close>

definition deactivate_all :: "string \<Rightarrow> unit db_op" where
  "deactivate_all ctx =
     db_update ctx (set_devices (map (\<lambda>r. r\<lparr>pd_is_active := 0\<rparr>)))"

definition new_device ::
  "int \<Rightarrow> string \<Rightarrow> string \<Rightarrow> string \<Rightarrow> string \<Rightarrow> string \<Rightarrow> int \<Rightarrow> int option \<Rightarrow> paired_device_row" where
  "new_device rowid device_name device_id pairing_key endpoint cert_fingerprint now connected =
     \<lparr>pd_id = rowid, pd_device_name = device_name, pd_device_id = device_id,
      pd_pairing_key = pairing_key, pd_mode = ''LOCAL'', pd_endpoint = Some endpoint,
      pd_cert_fingerprint = Some cert_fingerprint, pd_is_active = 1, pd_created_at = now,
      pd_last_connected_at = connected\<rparr>"

definition save_pairing ::
  "int \<Rightarrow> int \<Rightarrow> string \<Rightarrow> string \<Rightarrow> string \<Rightarrow> string \<Rightarrow> string \<Rightarrow> unit db_op" where
  "save_pairing rowid now device_name device_id pairing_key endpoint cert_fingerprint =
     db_bind db_open (\<lambda>_.
     db_bind (deactivate_all ''deactivate previous pairings'') (\<lambda>_.
     db_update ''save pairing'' (set_devices (upsert_row pd_device_id device_id
       (\<lambda>r. r\<lparr>pd_pairing_key := pairing_key, pd_endpoint := Some endpoint,
              pd_cert_fingerprint := Some cert_fingerprint, pd_is_active := 1\<rparr>)
       (new_device rowid device_name device_id pairing_key endpoint cert_fingerprint now None)))))"

definition saved_pairing_key_for_device :: "string \<Rightarrow> string \<Rightarrow> string option db_op" where
  "saved_pairing_key_for_device device_id presented_pairing_key =
     db_bind db_open (\<lambda>_. db_query ''lookup saved pairing key'' (\<lambda>t.
       map_option pd_pairing_key (find (\<lambda>r. pd_device_id r = device_id
         \<and> pd_pairing_key r = presented_pairing_key) (tb_devices t))))"

definition mark_pairing_connected ::
  "int \<Rightarrow> int \<Rightarrow> string \<Rightarrow> string \<Rightarrow> string \<Rightarrow> string \<Rightarrow> string \<Rightarrow> unit db_op" where
  "mark_pairing_connected rowid now device_name device_id pairing_key endpoint cert_fingerprint =
     db_bind db_open (\<lambda>_.
     db_bind (deactivate_all ''deactivate previous pairings'') (\<lambda>_.
     db_bind (db_update ''dedupe legacy paired device rows'' (set_devices (filter (\<lambda>r.
                \<not> (pd_device_id r \<noteq> device_id \<and> pd_endpoint r = Some endpoint
                   \<and> to_ascii_lowercase (pd_device_name r) = to_ascii_lowercase device_name))))) (\<lambda>_.
     db_update ''mark pairing connected'' (set_devices (upsert_row pd_device_id device_id
       (\<lambda>r. r\<lparr>pd_device_name := device_name, pd_pairing_key := pairing_key,
              pd_endpoint := Some endpoint, pd_cert_fingerprint := Some cert_fingerprint,
              pd_is_active := 1, pd_last_connected_at := Some now\<rparr>)
       (new_device rowid device_name device_id pairing_key endpoint cert_fingerprint now (Some now)))))))"

definition mark_pairings_disconnected :: "unit db_op" where
  "mark_pairings_disconnected =
     db_bind db_open (\<lambda>_. deactivate_all ''mark paired devices disconnected'')"

definition list_paired_devices :: "paired_device_row list db_op" where
  "list_paired_devices =
     db_bind db_open (\<lambda>_. db_query ''query paired devices'' (\<lambda>t.
       sort_key (\<lambda>r. - (case pd_last_connected_at r of None \<Rightarrow> pd_created_at r | Some l \<Rightarrow> l))
         (tb_devices t)))"

definition delete_paired_device :: "string \<Rightarrow> nat db_op" where
  "delete_paired_device device_id =
     db_bind db_open (\<lambda>_. db_exec ''delete paired device'' (\<lambda>t.
       (length (filter (\<lambda>r. pd_device_id r = device_id) (tb_devices t)),
        set_devices (filter (\<lambda>r. pd_device_id r \<noteq> device_id)) t)))"

section \<open>Opening for the first time\<close>

definition rule_columns :: "string list" where
  "rule_columns = [''package_name'', ''label'', ''category'', ''icon_data_url'',
     ''notifications_seen'', ''last_seen_at'', ''muted'', ''priority'', ''study_safe'', ''updated_at'']"

text \<open>The schema creates what is missing and leaves an older table as it is.\<close>

definition apply_schema :: "tables \<Rightarrow> tables" where
  "apply_schema t = (if tb_rule_columns t = [] then t\<lparr>tb_rule_columns := rule_columns\<rparr> else t)"

definition ensure_rule_column ::
  "string \<Rightarrow> (stored_rule \<Rightarrow> stored_rule) \<Rightarrow> string \<Rightarrow> unit db_op" where
  "ensure_rule_column column def ctx =
     db_bind (db_query ''table info'' tb_rule_columns) (\<lambda>columns.
       if column \<in> set columns then db_return ()
       else db_update ctx (\<lambda>t.
         t\<lparr>tb_rule_columns := tb_rule_columns t @ [column], tb_rules := map def (tb_rules t)\<rparr>))"

definition ensure_app_rule_icon_column :: "unit db_op" where
  "ensure_app_rule_icon_column =
     ensure_rule_column ''icon_data_url''
       (\<lambda>r. r\<lparr>sr_rule := (sr_rule r)\<lparr>ar_icon_data_url := []\<rparr>\<rparr>) ''add app rule icon column''"

definition ensure_app_rule_inventory_column :: "unit db_op" where
  "ensure_app_rule_inventory_column =
     ensure_rule_column ''inventory_present'' (\<lambda>r. r\<lparr>sr_inventory_present := True\<rparr>)
       ''add app inventory membership column''"

definition db_init :: "unit db_op" where
  "db_init =
     db_bind db_open (\<lambda>_.
     db_bind (db_update ''apply desktop sqlite schema'' apply_schema) (\<lambda>_.
     db_bind ensure_app_rule_icon_column (\<lambda>_. ensure_app_rule_inventory_column)))"

end
