(* ===== verification/Local_Db_Facts.thy ===== *)
theory Local_Db_Facts
  imports Local_Db
begin

text \<open>
  What the operations of Local_Db keep. A relation between tables that is reflexive and
  transitive holds across an operation as soon as it holds across each of its statements,
  whichever of them fails: the locale states this once, and its interpretations are the
  consistency of the tables, the user's choices for an app, and what a notification keeps.
\<close>

section \<open>Operations and relations between tables\<close>

definition db_rel :: "(tables \<Rightarrow> tables \<Rightarrow> bool) \<Rightarrow> 'a db_op \<Rightarrow> bool" where
  "db_rel R m \<longleftrightarrow> (\<forall>d. R (db_tables d) (db_tables (snd (m d))))"

lemma db_relD: "db_rel R m \<Longrightarrow> m d = (r, d') \<Longrightarrow> R (db_tables d) (db_tables d')"
  by (auto simp: db_rel_def dest: spec [of _ d])

lemma db_exec_tables:
  "db_tables (snd (db_exec ctx f d)) = db_tables d
   \<or> db_tables (snd (db_exec ctx f d)) = snd (f (db_tables d))"
  by (auto simp: db_exec_def split: list.splits bool.splits prod.splits)

locale table_order =
  fixes R :: "tables \<Rightarrow> tables \<Rightarrow> bool"
  assumes refl: "R t t"
    and trans: "R a b \<Longrightarrow> R b c \<Longrightarrow> R a c"
begin

lemma return: "db_rel R (db_return x)"
  by (simp add: db_rel_def db_return_def refl)

lemma fail: "db_rel R (db_fail e)"
  by (simp add: db_rel_def db_fail_def refl)

lemma exec: "(\<And>t. R t (snd (f t))) \<Longrightarrow> db_rel R (db_exec ctx f)"
  unfolding db_rel_def using db_exec_tables [of ctx f] refl by metis

lemma query: "db_rel R (db_query ctx f)"
  unfolding db_query_def by (rule exec) (simp add: refl)

lemma opened: "db_rel R db_open"
  unfolding db_open_def by (rule exec) (simp add: refl)

lemma update: "(\<And>t. R t (f t)) \<Longrightarrow> db_rel R (db_update ctx f)"
  unfolding db_update_def by (rule exec) simp

lemma bind:
  assumes "db_rel R m" and "\<And>x. db_rel R (f x)"
  shows "db_rel R (db_bind m f)"
  unfolding db_rel_def
proof
  fix d
  obtain r d' where m: "m d = (r, d')" by (cases "m d")
  have one: "R (db_tables d) (db_tables d')" using assms(1) m by (rule db_relD)
  show "R (db_tables d) (db_tables (snd (db_bind m f d)))"
  proof (cases r)
    case (Inl e)
    then show ?thesis using m one by (simp add: db_bind_def)
  next
    case (Inr x)
    have "R (db_tables d') (db_tables (snd (f x d')))" using assms(2) by (simp add: db_rel_def)
    with one show ?thesis using m Inr by (simp add: db_bind_def trans [OF one])
  qed
qed

lemma each: "(\<And>x. x \<in> set xs \<Longrightarrow> db_rel R (f x)) \<Longrightarrow> db_rel R (db_each f xs)"
  by (induction xs) (simp_all add: return bind)

lemma collect: "db_rel R (collect_rows ctx rs)"
  by (auto simp: collect_rows_def intro: return fail split: option.splits)

lemma transaction:
  assumes "db_rel R body"
  shows "db_rel R (db_transaction body)"
proof -
  let ?all = "db_bind (db_update ''begin app inventory snapshot'' (\<lambda>t. t)) (\<lambda>_.
      db_bind body (\<lambda>x. db_bind (db_update ''commit app inventory snapshot'' (\<lambda>t. t)) (\<lambda>_. db_return x)))"
  have all: "db_rel R ?all" by (intro bind update refl assms return)
  show ?thesis
    unfolding db_rel_def
  proof
    fix d
    obtain r d' where run: "?all d = (r, d')" by fastforce
    show "R (db_tables d) (db_tables (snd (db_transaction body d)))"
      using db_relD [OF all run] run refl by (cases r) (simp_all add: db_transaction_def)
  qed
qed

lemmas rules = bind opened query return fail each collect transaction

end

section \<open>Rows by key\<close>

lemma find_row_Nil [simp]: "find_row key k [] = None"
  by (simp add: find_row_def)

lemma find_row_Cons [simp]:
  "find_row key k (r # rs) = (if key r = k then Some r else find_row key k rs)"
  by (simp add: find_row_def)

lemma find_row_None: "find_row key k rs = None \<longleftrightarrow> k \<notin> key ` set rs"
  by (induction rs) auto

lemma find_row_SomeD: "find_row key k rs = Some r \<Longrightarrow> r \<in> set rs \<and> key r = k"
  by (induction rs) (auto split: if_splits)

lemma find_row_in: "distinct (map key rs) \<Longrightarrow> r \<in> set rs \<Longrightarrow> find_row key (key r) rs = Some r"
  by (induction rs) auto

lemma find_row_map: "(\<And>r. key (f r) = key r) \<Longrightarrow> find_row key k (map f rs) = map_option f (find_row key k rs)"
  by (induction rs) auto

lemma find_row_upsert:
  assumes "\<And>r. key (f r) = key r" and "key new = k"
  shows "find_row key k' (upsert_row key k f new rs) =
    (if k' = k then Some (case find_row key k rs of None \<Rightarrow> new | Some r \<Rightarrow> f r)
     else find_row key k' rs)"
  using assms by (induction rs) auto

lemma upsert_row_keys:
  assumes "\<And>r. key (f r) = key r" and "key new = k"
  shows "map key (upsert_row key k f new rs) =
    (if k \<in> key ` set rs then map key rs else map key rs @ [k])"
  using assms by (induction rs) auto

lemma upsert_row_distinct:
  assumes "\<And>r. key (f r) = key r" and "key new = k" and "distinct (map key rs)"
  shows "distinct (map key (upsert_row key k f new rs))"
  using assms by (simp add: upsert_row_keys)

lemma update_rows_keys: "(\<And>r. key (f r) = key r) \<Longrightarrow> map key (update_rows P f rs) = map key rs"
  by (simp add: update_rows_def)

lemma distinct_map_filter_keys: "distinct (map key rs) \<Longrightarrow> distinct (map key (filter P rs))"
  by (induction rs) auto

section \<open>Consistency of the tables\<close>

text \<open>Keys are unique and at most one paired device is active.\<close>

definition tables_ok :: "tables \<Rightarrow> bool" where
  "tables_ok t \<longleftrightarrow> distinct (map nr_id (tb_notifications t))
     \<and> distinct (map rule_key (tb_rules t))
     \<and> distinct (map pd_device_id (tb_devices t))
     \<and> store_valid (tb_settings t)
     \<and> length (filter (\<lambda>r. pd_is_active r \<noteq> 0) (tb_devices t)) \<le> 1"

definition stays_ok :: "tables \<Rightarrow> tables \<Rightarrow> bool" where
  "stays_ok t t' \<longleftrightarrow> (tables_ok t \<longrightarrow> tables_ok t')"

interpretation ok: table_order stays_ok
  by unfold_locales (auto simp: stays_ok_def)

lemma ok_notifications:
  "(\<And>rs. distinct (map nr_id rs) \<Longrightarrow> distinct (map nr_id (f rs))) \<Longrightarrow>
    stays_ok t (set_notifications f t)"
  by (simp add: stays_ok_def tables_ok_def set_notifications_def)

lemma ok_rules:
  "(\<And>rs. distinct (map rule_key rs) \<Longrightarrow> distinct (map rule_key (f rs))) \<Longrightarrow>
    stays_ok t (set_rules f t)"
  by (simp add: stays_ok_def tables_ok_def set_rules_def)

lemma ok_settings: "stays_ok t (t\<lparr>tb_settings := store_put k v (tb_settings t)\<rparr>)"
  by (simp add: stays_ok_def tables_ok_def kv.valid_put)

lemma rule_key_updates [simp]:
  "rule_key (set_flag c v n r) = rule_key r" "rule_key (merge_rule new r) = rule_key r"
  "rule_key (fresh_rule k n) = k" "rule_key (r\<lparr>sr_inventory_present := b\<rparr>) = rule_key r"
  by (simp_all add: rule_key_def set_flag_def merge_rule_def fresh_rule_def Let_def)

lemma ok_upsert_app_seen: "db_rel stays_ok (upsert_app_seen p l c s n)"
  unfolding upsert_app_seen_def
  by (rule ok.update, rule ok_rules, rule upsert_row_distinct) (simp_all add: rule_key_def)

lemma ok_upsert_notification: "db_rel stays_ok (upsert_notification u n n2 payload)"
  unfolding upsert_notification_def Let_def
  by (intro ok.rules ok_upsert_app_seen ok.update ok_notifications upsert_row_distinct)
    (simp_all add: keep_notification_def)

lemma ok_mark_status: "db_rel stays_ok (mark_status i s)"
  unfolding mark_status_def
  by (intro ok.rules ok.update ok_notifications) (simp add: update_rows_keys)

lemma ok_delete_notifications: "db_rel stays_ok (delete_notifications ctx P)"
  unfolding delete_notifications_def
  by (intro ok.rules ok.exec) (simp add: ok_notifications distinct_map_filter_keys)

lemma ok_get_app_rule: "db_rel stays_ok (get_app_rule p)"
  unfolding get_app_rule_def by (auto intro!: ok.rules split: option.splits)

lemma ok_set_app_rule_flag: "db_rel stays_ok (set_app_rule_flag n n2 p f e)"
proof -
  have "db_rel stays_ok (db_update ''update app rule flag''
      (set_rules (update_rows (\<lambda>r. rule_key r = p) (set_flag f v n2))))" for v
    by (intro ok.update ok_rules) (simp add: update_rows_keys)
  moreover have "db_rel stays_ok (db_update ''ensure app rule row''
      (set_rules (upsert_row rule_key p id (fresh_rule p n))))"
    by (intro ok.update ok_rules upsert_row_distinct) simp_all
  ultimately have "db_rel stays_ok (db_bind db_open (\<lambda>_.
        db_bind (db_update ''ensure app rule row''
                   (set_rules (upsert_row rule_key p id (fresh_rule p n)))) (\<lambda>_.
        db_bind (db_update ''update app rule flag''
                   (set_rules (update_rows (\<lambda>r. rule_key r = p)
                      (set_flag f (if e then 1 else 0) n2)))) (\<lambda>_.
        get_app_rule p))))"
    by (intro ok.rules ok_get_app_rule)
  then show ?thesis unfolding set_app_rule_flag_def by (simp add: ok.fail)
qed

lemma ok_list_app_rules: "db_rel stays_ok list_app_rules"
  unfolding list_app_rules_def by (intro ok.rules)

lemma ok_set_setting: "db_rel stays_ok (set_setting k v)"
  unfolding set_setting_def by (intro ok.rules ok.update ok_settings)

lemma rule_key_inventory_row: "rule_key (inventory_row u n n2 app) = string_field app ''packageName'' []"
  by (simp add: rule_key_def inventory_row_def Let_def)

lemma ok_inventory_changes: "db_rel stays_ok (inventory_changes u n n2 apps)"
  unfolding inventory_changes_def save_inventory_row_def Let_def
  by (intro ok.rules ok.update ok_rules ok_settings upsert_row_distinct) (simp_all add: o_def)

lemma ok_save_app_inventory: "db_rel stays_ok (save_app_inventory u n n2 payload)"
  unfolding save_app_inventory_def
  by (auto intro!: ok.rules ok_inventory_changes ok_list_app_rules split: option.splits sum.splits)

section \<open>Paired devices\<close>

definition inactive :: "paired_device_row list \<Rightarrow> bool" where
  "inactive rs \<longleftrightarrow> (\<forall>r\<in>set rs. pd_is_active r = 0)"

lemma active_le_upsert:
  assumes "inactive rs" and "\<And>r. pd_device_id (f r) = pd_device_id r" and "distinct (map pd_device_id rs)"
  shows "length (filter (\<lambda>r. pd_is_active r \<noteq> 0) (upsert_row pd_device_id k f new rs)) \<le> 1"
  using assms by (induction rs) (auto simp: inactive_def)

text \<open>
  Activating a device follows deactivating all: if the first statement fails nothing happened,
  if a later one fails no device is active.
\<close>

definition activates :: "unit db_op \<Rightarrow> bool" where
  "activates m \<longleftrightarrow> (\<forall>d. tables_ok (db_tables d) \<and> inactive (tb_devices (db_tables d)) \<longrightarrow>
     tables_ok (db_tables (snd (m d))))"

lemma deactivate_tables:
  "tables_ok t \<Longrightarrow> tables_ok (set_devices (map (\<lambda>r. r\<lparr>pd_is_active := 0\<rparr>)) t)
    \<and> inactive (tb_devices (set_devices (map (\<lambda>r. r\<lparr>pd_is_active := 0\<rparr>)) t))"
  by (simp add: tables_ok_def set_devices_def inactive_def o_def filter_map)

lemma ok_deactivate: "db_rel stays_ok (deactivate_all ctx)"
  unfolding deactivate_all_def
  by (intro ok.update) (simp add: stays_ok_def deactivate_tables)

lemma db_exec_cases:
  obtains d' where "db_exec ctx f d = (Inl ctx, d')" "db_tables d' = db_tables d"
  | x d' where "db_exec ctx f d = (Inr x, d')" "f (db_tables d) = (x, db_tables d')"
proof (cases "\<exists>fs. db_faults d = False # fs")
  case True
  then show ?thesis using that(1) by (auto simp: db_exec_def)
next
  case False
  obtain x t where f: "f (db_tables d) = (x, t)" by (cases "f (db_tables d)")
  have "db_exec ctx f d = (Inr x, \<lparr>db_tables = t, db_faults = tl (db_faults d)\<rparr>)"
    using False f by (auto simp: db_exec_def split: list.splits bool.splits)
  then show ?thesis
    by (intro that(2) [of x "\<lparr>db_tables = t, db_faults = tl (db_faults d)\<rparr>"]) (simp_all add: f)
qed

lemma db_update_cases:
  obtains d' where "db_update ctx f d = (Inl ctx, d')" "db_tables d' = db_tables d"
  | d' where "db_update ctx f d = (Inr (), d')" "db_tables d' = f (db_tables d)"
  using db_exec_cases [of ctx "\<lambda>t. ((), f t)" d] that unfolding db_update_def by fastforce

lemma db_open_cases:
  obtains d' where "db_open d = (Inl ''open'', d')" "db_tables d' = db_tables d"
  | d' where "db_open d = (Inr (), d')" "db_tables d' = db_tables d"
  using db_exec_cases [of "''open''" "\<lambda>t. ((), t)" d] that unfolding db_open_def by fastforce

lemma ok_activation:
  assumes "activates m"
  shows "db_rel stays_ok (db_bind db_open (\<lambda>_. db_bind (deactivate_all ctx) (\<lambda>_. m)))"
proof (rule ok.bind [OF ok.opened])
  fix x :: unit
  show "db_rel stays_ok (db_bind (deactivate_all ctx) (\<lambda>_. m))"
    unfolding db_rel_def
  proof
    fix d
    show "stays_ok (db_tables d) (db_tables (snd (db_bind (deactivate_all ctx) (\<lambda>_. m) d)))"
      unfolding deactivate_all_def
    proof (cases rule: db_update_cases [of ctx "set_devices (map (\<lambda>r. r\<lparr>pd_is_active := 0\<rparr>))" d])
      case (1 d')
      then show "stays_ok (db_tables d) (db_tables (snd (db_bind (db_update ctx
          (set_devices (map (\<lambda>r. r\<lparr>pd_is_active := 0\<rparr>)))) (\<lambda>_. m) d)))"
        by (simp add: db_bind_def ok.refl)
    next
      case (2 d')
      then show "stays_ok (db_tables d) (db_tables (snd (db_bind (db_update ctx
          (set_devices (map (\<lambda>r. r\<lparr>pd_is_active := 0\<rparr>)))) (\<lambda>_. m) d)))"
        using assms deactivate_tables [of "db_tables d"]
        by (simp add: db_bind_def activates_def stays_ok_def)
    qed
  qed
qed

lemma device_upsert_ok:
  assumes "tables_ok t" and "inactive (tb_devices t)"
    and "\<And>r. pd_device_id (f r) = pd_device_id r" and "pd_device_id new = k"
  shows "tables_ok (set_devices (upsert_row pd_device_id k f new) t)"
  using assms active_le_upsert [of "tb_devices t" f k new]
  by (simp add: tables_ok_def set_devices_def upsert_row_distinct)

lemma activates_update:
  assumes "\<And>r. pd_device_id (f r) = pd_device_id r" and "pd_device_id new = k"
  shows "activates (db_update ctx (set_devices (upsert_row pd_device_id k f new)))"
  unfolding activates_def
proof (intro allI impI)
  fix d :: db assume "tables_ok (db_tables d) \<and> inactive (tb_devices (db_tables d))"
  then show "tables_ok (db_tables (snd (db_update ctx (set_devices (upsert_row pd_device_id k f new)) d)))"
    by (cases rule: db_update_cases [of ctx "set_devices (upsert_row pd_device_id k f new)" d])
      (simp_all add: device_upsert_ok assms)
qed

lemma activates_filter:
  assumes "activates m"
  shows "activates (db_bind (db_update ctx (set_devices (filter P))) (\<lambda>_. m))"
  unfolding activates_def
proof (intro allI impI)
  fix d :: db assume ok: "tables_ok (db_tables d) \<and> inactive (tb_devices (db_tables d))"
  have less: "tables_ok (set_devices (filter P) (db_tables d))"
    "inactive (tb_devices (set_devices (filter P) (db_tables d)))"
    using ok by (auto simp: tables_ok_def set_devices_def inactive_def distinct_map_filter_keys
        filter_empty_conv)
  show "tables_ok (db_tables (snd (db_bind (db_update ctx (set_devices (filter P))) (\<lambda>_. m) d)))"
    using assms ok less
    by (cases rule: db_update_cases [of ctx "set_devices (filter P)" d])
      (simp_all add: db_bind_def activates_def)
qed

lemma ok_save_pairing: "db_rel stays_ok (save_pairing rid n dn di pk ep cf)"
  unfolding save_pairing_def
  by (intro ok_activation activates_update) (simp_all add: new_device_def)

lemma ok_mark_pairing_connected: "db_rel stays_ok (mark_pairing_connected rid n dn di pk ep cf)"
  unfolding mark_pairing_connected_def
  by (intro ok_activation activates_filter activates_update) (simp_all add: new_device_def)

lemma ok_mark_pairings_disconnected: "db_rel stays_ok mark_pairings_disconnected"
  unfolding mark_pairings_disconnected_def by (intro ok.rules ok_deactivate)

lemma ok_delete_paired_device: "db_rel stays_ok (delete_paired_device k)"
proof -
  have "stays_ok t (set_devices (filter (\<lambda>r. pd_device_id r \<noteq> k)) t)" for t
  proof -
    have "length (filter (\<lambda>r. pd_is_active r \<noteq> 0) (filter (\<lambda>r. pd_device_id r \<noteq> k) rs))
        \<le> length (filter (\<lambda>r. pd_is_active r \<noteq> 0) rs)" for rs
      by (induction rs) auto
    from le_trans [OF this [of "tb_devices t"]] show ?thesis
      by (simp add: stays_ok_def tables_ok_def set_devices_def distinct_map_filter_keys)
  qed
  then show ?thesis
    unfolding delete_paired_device_def by (intro ok.rules ok.exec) simp
qed

lemma ok_init: "db_rel stays_ok db_init"
proof -
  have cols: "db_rel stays_ok (ensure_rule_column c f ctx)" if "\<And>r. rule_key (f r) = rule_key r" for c f ctx
  proof -
    have "stays_ok t (t\<lparr>tb_rule_columns := x, tb_rules := map f (tb_rules t)\<rparr>)" for t x
      by (simp add: stays_ok_def tables_ok_def o_def that)
    then show ?thesis
      unfolding ensure_rule_column_def by (auto intro!: ok.rules ok.update)
  qed
  have "stays_ok t (apply_schema t)" for t
    by (simp add: stays_ok_def tables_ok_def apply_schema_def)
  then show ?thesis
    unfolding db_init_def ensure_app_rule_icon_column_def ensure_app_rule_inventory_column_def
    by (intro ok.rules ok.update cols) (simp_all add: rule_key_def)
qed

section \<open>What an operation leaves alone\<close>

text \<open>The user's choices for an app: a rule once there stays there with its flags.\<close>

definition choices :: "stored_rule \<Rightarrow> int \<times> int \<times> int \<times> int" where
  "choices r = (ar_muted (sr_rule r), ar_priority (sr_rule r), ar_study_safe (sr_rule r),
     ar_updated_at (sr_rule r))"

definition keeps_choices :: "tables \<Rightarrow> tables \<Rightarrow> bool" where
  "keeps_choices t t' \<longleftrightarrow> tb_notifications t' = tb_notifications t \<and> tb_devices t' = tb_devices t
     \<and> (\<forall>k r. find_row rule_key k (tb_rules t) = Some r \<longrightarrow>
          (\<exists>r'. find_row rule_key k (tb_rules t') = Some r' \<and> choices r' = choices r))"

interpretation choice: table_order keeps_choices
proof
  show "keeps_choices t t" for t by (simp add: keeps_choices_def)
  show "keeps_choices a c" if "keeps_choices a b" "keeps_choices b c" for a b c
    using that unfolding keeps_choices_def by metis
qed

lemma choices_updates [simp]:
  "choices (r\<lparr>sr_inventory_present := b\<rparr>) = choices r" "choices (merge_rule new r) = choices r"
  by (simp_all add: choices_def merge_rule_def Let_def)

lemma choice_upsert:
  assumes "\<And>r. rule_key (f r) = rule_key r" and "\<And>r. choices (f r) = choices r" and "rule_key new = k"
  shows "keeps_choices t (set_rules (upsert_row rule_key k f new) t)"
  using assms by (auto simp: keeps_choices_def set_rules_def find_row_upsert)

lemma choice_inventory_changes: "db_rel keeps_choices (inventory_changes u n n2 apps)"
proof -
  have "keeps_choices t (set_rules (map (\<lambda>r. r\<lparr>sr_inventory_present := False\<rparr>)) t)" for t
    by (auto simp: keeps_choices_def set_rules_def find_row_map)
  moreover have "keeps_choices t (t\<lparr>tb_settings := x\<rparr>)" for t x
    by (simp add: keeps_choices_def)
  ultimately show ?thesis
    unfolding inventory_changes_def save_inventory_row_def Let_def
    by (intro choice.rules choice.update choice_upsert) simp_all
qed

text \<open>Reading changes no table.\<close>

interpretation same: table_order "\<lambda>t t'. t' = t"
  by unfold_locales auto

lemma same_list_app_rules: "db_rel (\<lambda>t t'. t' = t) list_app_rules"
  unfolding list_app_rules_def by (intro same.rules)

section \<open>Success and failure of a transaction\<close>

lemma db_bind_InrD:
  "db_bind m f d = (Inr y, d') \<Longrightarrow> \<exists>x d1. m d = (Inr x, d1) \<and> f x d1 = (Inr y, d')"
  by (auto simp: db_bind_def split: prod.splits sum.splits)

lemma db_update_InrD: "db_update ctx f d = (Inr x, d') \<Longrightarrow> db_tables d' = f (db_tables d)"
  by (cases rule: db_update_cases [of ctx f d]) auto

lemma db_open_InrD: "db_open d = (Inr x, d') \<Longrightarrow> db_tables d' = db_tables d"
  by (auto simp: db_open_def db_exec_def split: list.splits bool.splits)

lemma db_query_InrD: "db_query ctx f d = (Inr x, d') \<Longrightarrow> x = f (db_tables d) \<and> db_tables d' = db_tables d"
  by (auto simp: db_query_def db_exec_def split: list.splits bool.splits)

lemma get_setting_InrD:
  assumes "get_setting key d = (Inr v, d')"
  shows "v = store_get (tb_settings (db_tables d)) key \<and> db_tables d' = db_tables d"
proof -
  obtain x d1 where "db_open d = (Inr x, d1)"
    "db_query ''get setting'' (\<lambda>t. store_get (tb_settings t) key) d1 = (Inr v, d')"
    using db_bind_InrD [OF assms [unfolded get_setting_def]] by blast
  then show ?thesis using db_open_InrD db_query_InrD by fastforce
qed

lemma get_setting_reads:
  "get_setting key d = (Inr v, d') \<Longrightarrow> v = store_get (tb_settings (db_tables d)) key"
  by (simp add: get_setting_InrD)

lemma set_setting_InrD:
  assumes "set_setting k v d = (Inr u, d')"
  shows "db_tables d' = (db_tables d)\<lparr>tb_settings := store_put k v (tb_settings (db_tables d))\<rparr>"
proof -
  obtain x d1 where "db_open d = (Inr x, d1)" "db_update ''set setting''
      (\<lambda>t. t\<lparr>tb_settings := store_put k v (tb_settings t)\<rparr>) d1 = (Inr u, d')"
    using db_bind_InrD [OF assms [unfolded set_setting_def]] by blast
  then show ?thesis using db_open_InrD db_update_InrD by fastforce
qed

lemma db_each_update_InrD:
  "db_each (\<lambda>x. db_update ctx (g x)) xs d = (Inr y, d') \<Longrightarrow> db_tables d' = fold g xs (db_tables d)"
proof (induction xs arbitrary: d)
  case Nil
  then show ?case by (simp add: db_return_def)
next
  case (Cons x xs)
  from db_bind_InrD [OF Cons.prems [unfolded db_each.simps]] obtain v d1 where
    one: "db_update ctx (g x) d = (Inr v, d1)"
    and rest: "db_each (\<lambda>x. db_update ctx (g x)) xs d1 = (Inr y, d')"
    by blast
  show ?case using Cons.IH [OF rest] db_update_InrD [OF one] by simp
qed

lemma db_transaction_InlD: "db_transaction body d = (Inl e, d') \<Longrightarrow> db_tables d' = db_tables d"
  by (auto simp: db_transaction_def split: prod.splits sum.splits)

lemma db_transaction_InrD:
  assumes "db_transaction body d = (Inr x, d')"
  shows "\<exists>d1 d2. db_tables d1 = db_tables d \<and> body d1 = (Inr x, d2) \<and> db_tables d' = db_tables d2"
proof -
  let ?start = "db_update ''begin app inventory snapshot'' (\<lambda>t. t)"
  let ?commit = "db_update ''commit app inventory snapshot'' (\<lambda>t. t)"
  have "db_bind ?start (\<lambda>_. db_bind body (\<lambda>x. db_bind ?commit (\<lambda>_. db_return x))) d = (Inr x, d')"
    using assms by (auto simp: db_transaction_def split: prod.splits sum.splits)
  from db_bind_InrD [OF this] obtain u d1 where one: "?start d = (Inr u, d1)"
    and rest: "db_bind body (\<lambda>x. db_bind ?commit (\<lambda>_. db_return x)) d1 = (Inr x, d')" by blast
  from db_bind_InrD [OF rest] obtain y d2 where two: "body d1 = (Inr y, d2)"
    and rest2: "db_bind ?commit (\<lambda>_. db_return y) d2 = (Inr x, d')" by blast
  from db_bind_InrD [OF rest2] obtain v d3 where three: "?commit d2 = (Inr v, d3)"
    and four: "db_return y d3 = (Inr x, d')" by blast
  have "y = x" "d' = d3" using four by (simp_all add: db_return_def)
  with db_update_InrD [OF one] two db_update_InrD [OF three] show ?thesis by metis
qed

section \<open>Membership after a snapshot\<close>

definition present :: "string \<Rightarrow> stored_rule list \<Rightarrow> bool" where
  "present k rs \<longleftrightarrow> (\<exists>r. find_row rule_key k rs = Some r \<and> sr_inventory_present r)"

lemma present_absent: "\<not> present k (map (\<lambda>r. r\<lparr>sr_inventory_present := False\<rparr>) rs)"
  by (auto simp: present_def find_row_map)

lemma merge_rule_present: "sr_inventory_present (merge_rule new r)"
  by (simp add: merge_rule_def Let_def)

lemma present_upsert:
  assumes "rule_key new = k" and "sr_inventory_present new"
  shows "present k' (upsert_row rule_key k (merge_rule new) new rs) \<longleftrightarrow> k' = k \<or> present k' rs"
  using assms by (auto simp: present_def find_row_upsert merge_rule_present split: option.splits)

definition package_of :: "json \<Rightarrow> string" where
  "package_of app = string_field app ''packageName'' []"

lemma present_fold:
  "present k (tb_rules (fold (\<lambda>app. set_rules (upsert_row rule_key (rule_key (inventory_row u n n2 app))
      (merge_rule (inventory_row u n n2 app)) (inventory_row u n n2 app))) apps t))
   \<longleftrightarrow> k \<in> package_of ` set apps \<or> present k (tb_rules t)"
proof (induction apps arbitrary: t)
  case Nil
  then show ?case by simp
next
  case (Cons app apps)
  have "sr_inventory_present (inventory_row u n n2 app)" by (simp add: inventory_row_def Let_def)
  then show ?case
    using Cons.IH by (simp add: set_rules_def present_upsert rule_key_inventory_row package_of_def)
      blast
qed

lemma inventory_changes_present:
  assumes "inventory_changes u n n2 apps d = (Inr x, d')"
  shows "present k (tb_rules (db_tables d')) \<longleftrightarrow> k \<in> package_of ` set apps"
proof -
  let ?off = "set_rules (map (\<lambda>r. r\<lparr>sr_inventory_present := False\<rparr>))"
  obtain u1 d1 u2 d2 where
    one: "db_update ''reset app inventory membership'' ?off d = (Inr u1, d1)"
    and two: "db_update ''record authoritative app inventory''
      (\<lambda>t. t\<lparr>tb_settings := store_put ''app_inventory_received'' ''1'' (tb_settings t)\<rparr>) d1 = (Inr u2, d2)"
    and three: "db_each (save_inventory_row u n n2) apps d2 = (Inr x, d')"
  proof -
    from db_bind_InrD [OF assms [unfolded inventory_changes_def]] obtain u1 d1 where
      one: "db_update ''reset app inventory membership'' ?off d = (Inr u1, d1)"
      and rest: "db_bind (db_update ''record authoritative app inventory''
        (\<lambda>t. t\<lparr>tb_settings := store_put ''app_inventory_received'' ''1'' (tb_settings t)\<rparr>))
        (\<lambda>_. db_each (save_inventory_row u n n2) apps) d1 = (Inr x, d')" by blast
    from db_bind_InrD [OF rest] one that show thesis by blast
  qed
  have rules: "tb_rules (db_tables d2) = map (\<lambda>r. r\<lparr>sr_inventory_present := False\<rparr>) (tb_rules (db_tables d))"
    using db_update_InrD [OF one] db_update_InrD [OF two] by (simp add: set_rules_def)
  have "db_tables d' = fold (\<lambda>app. set_rules (upsert_row rule_key (rule_key (inventory_row u n n2 app))
      (merge_rule (inventory_row u n n2 app)) (inventory_row u n n2 app))) apps (db_tables d2)"
    using three unfolding save_inventory_row_def Let_def by (rule db_each_update_InrD)
  then show ?thesis by (simp add: present_fold rules present_absent)
qed

section \<open>Any sequence of operations\<close>

datatype db_call =
  CallInit
| CallNotification int int json
| CallStatus string string
| CallDismiss string
| CallDeleteNotification string
| CallClearBetween int int
| CallClearOlder int
| CallClearAll
| CallFlag int int string string bool
| CallSetting string string
| CallInventory int int json
| CallSavePairing int int string string string string string
| CallConnected int int string string string string string
| CallDisconnected
| CallDeleteDevice string

text \<open>The database after a call, whatever it returned.\<close>

fun db_perform :: "unicode \<Rightarrow> db_call \<Rightarrow> db \<Rightarrow> db" where
  "db_perform u CallInit d = snd (db_init d)"
| "db_perform u (CallNotification n n2 payload) d = snd (upsert_notification u n n2 payload d)"
| "db_perform u (CallStatus i s) d = snd (mark_status i s d)"
| "db_perform u (CallDismiss i) d = snd (dismiss_notification i d)"
| "db_perform u (CallDeleteNotification i) d = snd (delete_notification i d)"
| "db_perform u (CallClearBetween a b) d = snd (clear_notifications_between a b d)"
| "db_perform u (CallClearOlder a) d = snd (clear_notifications_older_than a d)"
| "db_perform u CallClearAll d = snd (clear_all_notifications d)"
| "db_perform u (CallFlag n n2 p f e) d = snd (set_app_rule_flag n n2 p f e d)"
| "db_perform u (CallSetting k v) d = snd (set_setting k v d)"
| "db_perform u (CallInventory n n2 payload) d = snd (save_app_inventory u n n2 payload d)"
| "db_perform u (CallSavePairing i n dn di pk ep cf) d = snd (save_pairing i n dn di pk ep cf d)"
| "db_perform u (CallConnected i n dn di pk ep cf) d = snd (mark_pairing_connected i n dn di pk ep cf d)"
| "db_perform u CallDisconnected d = snd (mark_pairings_disconnected d)"
| "db_perform u (CallDeleteDevice k) d = snd (delete_paired_device k d)"

lemma db_call_ok: "tables_ok (db_tables d) \<Longrightarrow> tables_ok (db_tables (db_perform u c d))"
proof -
  assume ok: "tables_ok (db_tables d)"
  have step: "tables_ok (db_tables (snd (m d)))" if "db_rel stays_ok m" for m :: "'a db_op"
    using that ok by (simp add: db_rel_def stays_ok_def)
  show ?thesis
    by (cases c)
      (simp_all add: step ok_init ok_upsert_notification ok_mark_status dismiss_notification_def
        delete_notification_def clear_notifications_between_def clear_notifications_older_than_def
        clear_all_notifications_def ok_delete_notifications ok_set_app_rule_flag ok_set_setting
        ok_save_app_inventory ok_save_pairing ok_mark_pairing_connected
        ok_mark_pairings_disconnected ok_delete_paired_device)
qed

lemma db_calls_ok: "tables_ok (db_tables d) \<Longrightarrow> tables_ok (db_tables (fold (db_perform u) cs d))"
  by (induction cs arbitrary: d) (simp_all add: db_call_ok)

section \<open>Properties\<close>

definition empty_db :: "bool list \<Rightarrow> db" where
  "empty_db faults = \<lparr>db_tables = \<lparr>tb_notifications = [], tb_settings = [], tb_devices = [], tb_rules = [],
     tb_rule_columns = []\<rparr>, db_faults = faults\<rparr>"

lemma empty_db_ok: "tables_ok (db_tables (empty_db fs))"
  by (simp add: tables_ok_def empty_db_def)

text \<open>C25: over any sequence of database operations and whichever statements fail, a new
  database keeps one row per notification, per app and per paired device, and never more than
  one paired device marked active.\<close>

theorem tables_stay_consistent:
  "(let t = db_tables (fold (db_perform u) cs (empty_db faults))
    in distinct (map nr_id (tb_notifications t))
       \<and> distinct (map rule_key (tb_rules t))
       \<and> distinct (map pd_device_id (tb_devices t))
       \<and> length (filter (\<lambda>r. pd_is_active r \<noteq> 0) (tb_devices t)) \<le> 1)"
  using db_calls_ok [OF empty_db_ok, of u cs faults] by (simp add: tables_ok_def Let_def)

definition inventory_applied :: "json list \<Rightarrow> tables \<Rightarrow> bool" where
  "inventory_applied apps t \<longleftrightarrow> (\<forall>k. present k (tb_rules t) \<longleftrightarrow> k \<in> package_of ` set apps)"

lemma inventory_transaction:
  assumes "db_transaction (inventory_changes u n n2 apps) d = (r, d')"
  shows "db_tables d' = db_tables d \<and> isl r \<or> inventory_applied apps (db_tables d')"
proof (cases r)
  case (Inl e)
  show ?thesis
    using db_transaction_InlD [OF assms [unfolded Inl]] Inl by simp
next
  case (Inr x)
  obtain d3 d4 where changes: "inventory_changes u n n2 apps d3 = (Inr x, d4)"
    and same: "db_tables d' = db_tables d4"
    using db_transaction_InrD [OF assms [unfolded Inr]] by blast
  then show ?thesis
    using inventory_changes_present [OF changes] by (simp add: inventory_applied_def)
qed

lemma inventory_run:
  assumes "db_bind db_open (\<lambda>_. db_bind (db_transaction (inventory_changes u n n2 apps))
    (\<lambda>_. list_app_rules)) d = (r, d')"
  shows "db_tables d' = db_tables d \<and> isl r \<or> inventory_applied apps (db_tables d')"
proof (cases rule: db_open_cases [of d])
  case (1 d1)
  then show ?thesis using assms by (auto simp: db_bind_def)
next
  case (2 d1)
  obtain r2 d2 where tx: "db_transaction (inventory_changes u n n2 apps) d1 = (r2, d2)" by fastforce
  show ?thesis
  proof (cases r2)
    case (Inl e)
    then show ?thesis
      using assms 2 tx inventory_transaction [OF tx] by (auto simp: db_bind_def)
  next
    case (Inr x)
    then have list: "list_app_rules d2 = (r, d')" using assms 2 tx by (simp add: db_bind_def)
    have "db_tables d' = db_tables d2" using same_list_app_rules list by (rule db_relD)
    then show ?thesis using inventory_transaction [OF tx] Inr by simp
  qed
qed

lemma inventory_keeps_choices:
  "db_rel keeps_choices (db_bind db_open (\<lambda>_. db_bind (db_transaction (inventory_changes u n n2 apps))
    (\<lambda>_. list_app_rules)))"
  unfolding list_app_rules_def by (intro choice.rules choice_inventory_changes)

text \<open>C26: a snapshot of the phone's apps, valid or not and whichever statement fails, is applied
  as a whole or not at all: either the tables are those from before and the phone's snapshot
  is refused, or exactly the apps of the snapshot are listed as present; in both cases no rule
  is lost and every mute, priority and study-safe choice of the user is what it was.\<close>

theorem inventory_all_or_nothing:
  assumes "save_app_inventory u n n2 payload d = (r, d')"
  shows "(db_tables d' = db_tables d \<and> isl r
       \<or> (\<exists>apps. get_array ''apps'' payload = Some apps
            \<and> (\<forall>k. present k (tb_rules (db_tables d')) \<longleftrightarrow> k \<in> package_of ` set apps)))
    \<and> keeps_choices (db_tables d) (db_tables d')"
proof (cases "\<exists>apps. get_array ''apps'' payload = Some apps \<and> validate_inventory [] apps = Inr ()")
  case False
  then have "d' = d \<and> isl r"
    using assms by (auto simp: save_app_inventory_def db_fail_def split: option.splits sum.splits)
  then show ?thesis by (simp add: choice.refl)
next
  case True
  then obtain apps where apps: "get_array ''apps'' payload = Some apps"
    and run: "db_bind db_open (\<lambda>_. db_bind (db_transaction (inventory_changes u n n2 apps))
      (\<lambda>_. list_app_rules)) d = (r, d')"
    using assms by (auto simp: save_app_inventory_def)
  show ?thesis
    using inventory_run [OF run] apps db_relD [OF inventory_keeps_choices run]
    by (auto simp: inventory_applied_def)
qed

definition one_app :: json where
  "one_app = JObject [(''apps'', JArray [JObject [(''packageName'', JString ''p'')]])]"

lemma one_app_valid:
  "get_array ''apps'' one_app = Some [JObject [(''packageName'', JString ''p'')]]"
  "validate_inventory [] [JObject [(''packageName'', JString ''p'')]] = Inr ()"
proof -
  have "\<not> has_whitespace ''p''" "\<not> has_control ''p''" by code_simp+
  then show "validate_inventory [] [JObject [(''packageName'', JString ''p'')]] = Inr ()"
    by (simp add: get_str_def text_field_ok_def count_field_ok_def)
qed (simp add: one_app_def get_array_def)

lemma one_app_saved:
  "\<not> isl (fst (save_app_inventory ascii_unicode 1 1 one_app (empty_db [])))"
proof -
  let ?apps = "[JObject [(''packageName'', JString ''p'')]]"
  have "save_app_inventory ascii_unicode 1 1 one_app = db_bind db_open (\<lambda>_.
      db_bind (db_transaction (inventory_changes ascii_unicode 1 1 ?apps)) (\<lambda>_. list_app_rules))"
    by (simp only: save_app_inventory_def one_app_valid option.case sum.case)
  then show ?thesis
    by (simp add: db_bind_def db_open_def db_exec_def empty_db_def
        db_transaction_def db_update_def db_query_def inventory_changes_def save_inventory_row_def
        db_return_def list_app_rules_def collect_rows_def set_rules_def inventory_row_def
        app_rule_from_row_def Let_def get_i64_def sort_key_def)
qed

theorem inventory_all_or_nothing_witness:
  "\<forall>k. present k (tb_rules (db_tables (snd (save_app_inventory ascii_unicode 1 1 one_app (empty_db [])))))
     \<longleftrightarrow> k = ''p''"
proof
  fix k
  obtain r d' where run: "save_app_inventory ascii_unicode 1 1 one_app (empty_db []) = (r, d')"
    by (cases "save_app_inventory ascii_unicode 1 1 one_app (empty_db [])")
  then have "\<not> isl r" using one_app_saved by simp
  then have "present k (tb_rules (db_tables d')) \<longleftrightarrow>
      k \<in> package_of ` set [JObject [(''packageName'', JString ''p'')]]"
    using inventory_all_or_nothing [OF run] one_app_valid(1) by auto
  also have "\<dots> \<longleftrightarrow> k = ''p''" by (auto simp: package_of_def string_field_def get_str_def)
  finally show "present k (tb_rules (db_tables (snd (save_app_inventory ascii_unicode 1 1 one_app (empty_db [])))))
     \<longleftrightarrow> k = ''p''" using run by simp
qed

text \<open>
  A counter the phone reports at the top of the 64-bit range becomes a float at the next
  notification of that app; the list of rules, and with it every later snapshot and rules
  message, then fails.
\<close>

lemma counter_overflow_blocks_rules:
  assumes "sr_seen r = SqlInt (2 ^ 63 - 1)" and "sr_inventory_present r" and "rule_key r = p"
    and "tb_rules (db_tables d) = [r]" and "db_faults d = []"
  shows "fst (list_app_rules (snd (upsert_app_seen p l c s n d))) = Inl ''collect app rules''"
proof -
  let ?d = "snd (upsert_app_seen p l c s n d)"
  have ok: "db_faults ?d = []"
    using assms(5) by (simp add: upsert_app_seen_def db_update_def db_exec_def)
  obtain r' where r': "tb_rules (db_tables ?d) = [r']" "sr_seen r' = SqlReal" "sr_inventory_present r'"
    using assms(2-5)
    by (simp add: upsert_app_seen_def db_update_def db_exec_def set_rules_def assms(1) sql_add_def)
  then show ?thesis
    using ok by (simp add: list_app_rules_def db_bind_def db_open_def db_exec_def db_query_def
        collect_rows_def db_fail_def app_rule_from_row_def)
qed

end
