(* ===== verification/Protocol.thy ===== *)
theory Protocol
  imports Json
begin

text \<open>
  desktop/core/src/protocol.rs, handler.rs and attach.rs: the messages between phone and
  desktop, what the desktop decides on each of them, and which phone may attach.
\<close>

datatype message_type =
  Auth | AuthOk | AuthFailed | Notification | NotificationAck | NotificationBatch | Dismissal
| DismissalBatch | Ping | Pong | Status | AppInventory | RulesUpdate | RulesAck
| DesktopAction | Unpair | Encrypted

text \<open>The names of the message types on the wire (\<open>SCREAMING_SNAKE_CASE\<close>).\<close>

definition message_names :: "(string \<times> message_type) list" where
  "message_names =
     [(''AUTH'', Auth), (''AUTH_OK'', AuthOk), (''AUTH_FAILED'', AuthFailed),
      (''NOTIFICATION'', Notification), (''NOTIFICATION_ACK'', NotificationAck),
      (''NOTIFICATION_BATCH'', NotificationBatch), (''DISMISSAL'', Dismissal),
      (''DISMISSAL_BATCH'', DismissalBatch), (''PING'', Ping), (''PONG'', Pong),
      (''STATUS'', Status), (''APP_INVENTORY'', AppInventory), (''RULES_UPDATE'', RulesUpdate),
      (''RULES_ACK'', RulesAck), (''DESKTOP_ACTION'', DesktopAction), (''UNPAIR'', Unpair),
      (''ENCRYPTED'', Encrypted)]"

record envelope =
  env_version :: nat
  env_type :: message_type
  env_payload :: json

text \<open>
  A unit variant is read from its name, or from an object whose only key it is, with null.
\<close>

fun message_type_of_json :: "json \<Rightarrow> message_type option" where
  "message_type_of_json (JString s) = map_of message_names s"
| "message_type_of_json (JObject [(s, JNull)]) = map_of message_names s"
| "message_type_of_json _ = None"

text \<open>
  \<open>envelope_of_json\<close> is the derived \<open>Deserialize\<close> on a parsed value: all three fields must be
  there, the version an unsigned 32-bit number, the type a known name; other fields are ignored.
\<close>

definition envelope_of_json :: "json \<Rightarrow> envelope option" where
  "envelope_of_json v =
     Option.bind (get_u64 ''version'' v) (\<lambda>n.
       Option.bind (Option.bind (json_get ''type'' v) message_type_of_json) (\<lambda>t.
         Option.bind (json_get ''payload'' v) (\<lambda>p.
           if n < 2 ^ 32 then Some \<lparr>env_version = n, env_type = t, env_payload = p\<rparr> else None)))"

section \<open>Decisions\<close>

datatype incoming_decision =
  DAuthAccepted | DAuthFailed string | DStoreNotification json | DStoreBatch json
| DRemoveNotification string | DRemoveBatch "string list" | DPingReceived | DStatusUpdate json
| DAppInventory json | DRulesAck json | DManualDisconnect | DUnknown

definition handle_envelope :: "envelope \<Rightarrow> string \<Rightarrow> incoming_decision" where
  "handle_envelope env expected_pairing_key =
     (if env_version env \<noteq> 1 \<or> expected_pairing_key = []
      then DAuthFailed ''unsupported version or missing session key''
      else case env_type env of
        Auth \<Rightarrow>
          (case get_str ''pairingKey'' (env_payload env) of
             None \<Rightarrow> DAuthFailed ''missing pairingKey''
           | Some key \<Rightarrow>
               if key = expected_pairing_key then DAuthAccepted
               else DAuthFailed ''invalid pairing key'')
      | Notification \<Rightarrow> DStoreNotification (env_payload env)
      | NotificationBatch \<Rightarrow> DStoreBatch (env_payload env)
      | Dismissal \<Rightarrow>
          (case get_str ''id'' (env_payload env) of
             None \<Rightarrow> DUnknown
           | Some i \<Rightarrow> DRemoveNotification i)
      | DismissalBatch \<Rightarrow>
          (let ids = (case get_array ''ids'' (env_payload env) of
                        None \<Rightarrow> []
                      | Some arr \<Rightarrow> list_filter_map as_str arr)
           in DRemoveBatch ids)
      | Ping \<Rightarrow> DPingReceived
      | Status \<Rightarrow> DStatusUpdate (env_payload env)
      | AppInventory \<Rightarrow> DAppInventory (env_payload env)
      | RulesAck \<Rightarrow> DRulesAck (env_payload env)
      | Unpair \<Rightarrow> DManualDisconnect
      | _ \<Rightarrow> DUnknown)"

definition envelope_ok :: "envelope \<Rightarrow> string \<Rightarrow> bool" where
  "envelope_ok env key \<longleftrightarrow> env_version env = 1 \<and> key \<noteq> []"

lemma handle_envelope_refused:
  "\<not> envelope_ok env key \<Longrightarrow>
    handle_envelope env key = DAuthFailed ''unsupported version or missing session key''"
  by (auto simp: handle_envelope_def envelope_ok_def)

lemma handle_envelope_accepted_iff:
  "handle_envelope env key = DAuthAccepted \<longleftrightarrow>
     envelope_ok env key \<and> env_type env = Auth \<and> get_str ''pairingKey'' (env_payload env) = Some key"
  by (auto simp: handle_envelope_def envelope_ok_def Let_def split: message_type.splits option.splits)

lemma handle_envelope_failed_iff:
  "(\<exists>why. handle_envelope env key = DAuthFailed why) \<longleftrightarrow>
     \<not> envelope_ok env key
     \<or> env_type env = Auth \<and> get_str ''pairingKey'' (env_payload env) \<noteq> Some key"
  by (auto simp: handle_envelope_def envelope_ok_def Let_def split: message_type.splits option.splits)

section \<open>Which phone may attach\<close>

text \<open>
  \<open>take_allowance\<close> is called at most once; it reads and changes the state of its owner, which
  is passed through. It is only evaluated where the short-circuit operators reach it.
\<close>

definition may_attach ::
  "bool \<Rightarrow> bool \<Rightarrow> bool \<Rightarrow> bool \<Rightarrow> ('s \<Rightarrow> bool \<times> 's) \<Rightarrow> 's \<Rightarrow> bool \<times> 's" where
  "may_attach paused auto_first_connection holds_the_code_on_screen
       resuming_the_users_connection take_allowance s =
     (if paused then
        if holds_the_code_on_screen then (True, s) else take_allowance s
      else if auto_first_connection \<or> holds_the_code_on_screen \<or> resuming_the_users_connection
        then (True, s)
      else take_allowance s)"

lemma may_attach_unspent:
  "code \<or> \<not> paused \<and> (auto \<or> resuming) \<Longrightarrow>
    may_attach paused auto code resuming grab s = (True, s)"
  by (auto simp: may_attach_def)

lemma may_attach_needs_allowance:
  "\<not> (code \<or> \<not> paused \<and> (auto \<or> resuming)) \<Longrightarrow>
    may_attach paused auto code resuming grab s = grab s"
  by (auto simp: may_attach_def)

section \<open>Property\<close>

text \<open>A message authenticates the phone exactly when it is a version 1 AUTH carrying the
  expected, non-empty pairing key as a string; with another version or no expected key every
  message is refused, and a correctly keyed AUTH is the only AUTH not refused.\<close>

theorem auth_decision_exact:
  "(handle_envelope env key = DAuthAccepted \<longleftrightarrow>
      env_version env = 1 \<and> key \<noteq> [] \<and> env_type env = Auth
      \<and> json_get ''pairingKey'' (env_payload env) = Some (JString key))
   \<and> ((\<exists>why. handle_envelope env key = DAuthFailed why) \<longleftrightarrow>
        \<not> (env_version env = 1 \<and> key \<noteq> []
           \<and> (if env_type env = Auth then json_get ''pairingKey'' (env_payload env) = Some (JString key)
              else True)))"
  unfolding handle_envelope_accepted_iff handle_envelope_failed_iff envelope_ok_def
  by (auto simp flip: get_str_Some)

end
