(* ===== verification/App_State.thy ===== *)
theory App_State
  imports Local_Db_Facts Protocol
begin

text \<open>
  desktop/src-tauri/src/state.rs and pairing/device_store.rs: the state every part of the
  desktop shares. Atomics and mutexes are fields, each operation one step on them. A channel is
  a number; the open channels hold the messages not yet received, and a send succeeds while
  the receiver exists. A \<open>Notify\<close> is the permit it may hold. The database behind \<open>db_path\<close> is
  a field. Instants of the wall clock are milliseconds, given as arguments.
\<close>

definition PAIRING_SESSION_SETTING :: string where
  "PAIRING_SESSION_SETTING = ''pairing.session.v1''"

definition RECONNECT_GRACE_MS :: int where "RECONNECT_GRACE_MS = 90000"

record pairing_session =
  ps_device_id :: string
  ps_pairing_key :: string
  ps_cert_fingerprint :: string
  ps_expires_at :: int

record connection_diagnostics =
  cd_connected :: bool
  cd_connected_at :: "int option"
  cd_active_transport :: string
  cd_last_heartbeat_at :: "int option"
  cd_last_auth_failure :: "string option"
  cd_last_disconnect_reason :: "string option"

definition diagnostics_default :: connection_diagnostics where
  "diagnostics_default =
     \<lparr>cd_connected = False, cd_connected_at = None, cd_active_transport = ''none'',
      cd_last_heartbeat_at = None, cd_last_auth_failure = None, cd_last_disconnect_reason = None\<rparr>"

record app_state =
  as_db :: db
  as_cert_fingerprint :: string
  as_pairing :: "pairing_session option"
  as_phone_sender :: "nat option"
  as_channels :: "(nat, string list) store"
  as_diagnostics :: connection_diagnostics
  as_relay_requested :: bool
  as_relay_wake :: bool
  as_connection_announced :: bool
  as_connection_lost_at :: int
  as_relay_rejoin :: bool
  as_relay_rejoin_wake :: bool
  as_relay_idle_reason :: "string option"
  as_enrollment_armed :: bool
  as_known_phone_allowed :: bool
  as_paused :: bool
  as_vault_unlocked :: bool
  as_known_phone_refused :: bool
  as_desktop_notifications_enabled :: bool
  as_approved_phone :: "string option"
  as_awaiting_request_after_refusal :: bool

definition app_new :: "db \<Rightarrow> string \<Rightarrow> app_state" where
  "app_new d cert =
     \<lparr>as_db = d, as_cert_fingerprint = cert, as_pairing = None, as_phone_sender = None,
      as_channels = [], as_diagnostics = diagnostics_default, as_relay_requested = False,
      as_relay_wake = False, as_connection_announced = False, as_connection_lost_at = 0,
      as_relay_rejoin = False, as_relay_rejoin_wake = False, as_relay_idle_reason = None,
      as_enrollment_armed = False, as_known_phone_allowed = False, as_paused = False,
      as_vault_unlocked = False, as_known_phone_refused = False,
      as_desktop_notifications_enabled = True, as_approved_phone = None,
      as_awaiting_request_after_refusal = False\<rparr>"

text \<open>An operation on the database behind the state.\<close>

definition app_db :: "'a db_op \<Rightarrow> app_state \<Rightarrow> (string + 'a) \<times> app_state" where
  "app_db m s = (case m (as_db s) of (r, d) \<Rightarrow> (r, s\<lparr>as_db := d\<rparr>))"

section \<open>The phone of this run\<close>

definition approve_phone_for_this_run :: "string \<Rightarrow> app_state \<Rightarrow> app_state" where
  "approve_phone_for_this_run device_id s =
     s\<lparr>as_awaiting_request_after_refusal := False,
       as_approved_phone := (if as_approved_phone s \<noteq> Some device_id then Some device_id
                             else as_approved_phone s)\<rparr>"

definition is_approved_for_this_run :: "string \<Rightarrow> app_state \<Rightarrow> bool" where
  "is_approved_for_this_run device_id s \<longleftrightarrow> as_approved_phone s = Some device_id"

definition forget_approved_phone :: "app_state \<Rightarrow> app_state" where
  "forget_approved_phone s = s\<lparr>as_approved_phone := None\<rparr>"

definition set_desktop_notifications_enabled :: "bool \<Rightarrow> app_state \<Rightarrow> app_state" where
  "set_desktop_notifications_enabled on s = s\<lparr>as_desktop_notifications_enabled := on\<rparr>"

definition note_known_phone_refused :: "app_state \<Rightarrow> app_state" where
  "note_known_phone_refused s =
     s\<lparr>as_known_phone_refused := True, as_awaiting_request_after_refusal := True\<rparr>"

definition take_known_phone_refusal :: "app_state \<Rightarrow> bool \<times> app_state" where
  "take_known_phone_refusal s = (as_known_phone_refused s, s\<lparr>as_known_phone_refused := False\<rparr>)"

definition unlock_vault :: "app_state \<Rightarrow> app_state" where
  "unlock_vault s = s\<lparr>as_vault_unlocked := True\<rparr>"

definition lock_vault :: "app_state \<Rightarrow> app_state" where
  "lock_vault s = s\<lparr>as_vault_unlocked := False\<rparr>"

definition resume :: "app_state \<Rightarrow> app_state" where
  "resume s = s\<lparr>as_paused := False\<rparr>"

definition allow_known_phone :: "app_state \<Rightarrow> app_state" where
  "allow_known_phone s = s\<lparr>as_known_phone_refused := False, as_known_phone_allowed := True\<rparr>"

definition take_known_phone_allowance :: "app_state \<Rightarrow> bool \<times> app_state" where
  "take_known_phone_allowance s = (as_known_phone_allowed s, s\<lparr>as_known_phone_allowed := False\<rparr>)"

definition arm_enrollment :: "app_state \<Rightarrow> app_state" where
  "arm_enrollment s = s\<lparr>as_enrollment_armed := True\<rparr>"

definition disarm_enrollment :: "app_state \<Rightarrow> app_state" where
  "disarm_enrollment s = s\<lparr>as_enrollment_armed := False\<rparr>"

section \<open>The relay supervisor\<close>

definition note_relay_idle :: "string \<Rightarrow> app_state \<Rightarrow> bool \<times> app_state" where
  "note_relay_idle reason s =
     (if as_relay_idle_reason s = Some reason then (False, s)
      else (True, s\<lparr>as_relay_idle_reason := Some reason\<rparr>))"

definition request_relay_connection :: "app_state \<Rightarrow> app_state" where
  "request_relay_connection s =
     s\<lparr>as_relay_idle_reason := None, as_relay_requested := True,
       as_awaiting_request_after_refusal := False, as_relay_wake := True\<rparr>"

definition request_relay_rejoin :: "app_state \<Rightarrow> app_state" where
  "request_relay_rejoin s = s\<lparr>as_relay_rejoin := True, as_relay_rejoin_wake := True\<rparr>"

text \<open>
  One poll of \<open>relay_rejoin_requested\<close>: it returns once a rejoin was asked for; otherwise it
  waits on the permit, and with the permit of an old request it goes round once more.
\<close>

definition relay_rejoin_requested :: "app_state \<Rightarrow> bool \<times> app_state" where
  "relay_rejoin_requested s =
     (if as_relay_rejoin s then (True, s\<lparr>as_relay_rejoin := False\<rparr>)
      else (False, s\<lparr>as_relay_rejoin_wake := False\<rparr>))"

definition clear_relay_rejoin :: "app_state \<Rightarrow> app_state" where
  "clear_relay_rejoin s = s\<lparr>as_relay_rejoin := False\<rparr>"

definition take_relay_request :: "app_state \<Rightarrow> bool \<times> app_state" where
  "take_relay_request s = (as_relay_requested s, s\<lparr>as_relay_requested := False\<rparr>)"

text \<open>The wait ends with the permit or after thirty seconds; a permit is used up.\<close>

definition await_relay_request :: "app_state \<Rightarrow> app_state" where
  "await_relay_request s = s\<lparr>as_relay_wake := False\<rparr>"

section \<open>What the user has been told\<close>

definition announce_connected :: "app_state \<Rightarrow> bool \<times> app_state" where
  "announce_connected s =
     (\<not> as_connection_announced s,
      s\<lparr>as_connection_lost_at := 0, as_connection_announced := True\<rparr>)"

definition begin_reconnect_grace :: "int \<Rightarrow> app_state \<Rightarrow> int \<times> app_state" where
  "begin_reconnect_grace now_ms s =
     (let since = max now_ms 1 in (since, s\<lparr>as_connection_lost_at := since\<rparr>))"

definition reconnecting_since :: "int \<Rightarrow> app_state \<Rightarrow> int option" where
  "reconnecting_since now_ms s =
     (let since = as_connection_lost_at s
      in if since \<noteq> 0 \<and> \<not> as_paused s \<and> now_ms - since < RECONNECT_GRACE_MS
         then Some since else None)"

definition end_reconnect_grace :: "int \<Rightarrow> app_state \<Rightarrow> bool option \<times> app_state" where
  "end_reconnect_grace since s =
     (if as_connection_lost_at s = since
      then (Some (as_connection_announced s),
            s\<lparr>as_connection_lost_at := 0, as_connection_announced := False\<rparr>)
      else (None, s))"

definition announce_disconnected :: "app_state \<Rightarrow> bool \<times> app_state" where
  "announce_disconnected s =
     (as_connection_announced s,
      s\<lparr>as_connection_lost_at := 0, as_connection_announced := False\<rparr>)"

section \<open>The pairing code\<close>

definition pairing_session_json :: "pairing_session \<Rightarrow> json" where
  "pairing_session_json p = JObject
     [(''deviceId'', JString (ps_device_id p)), (''pairingKey'', JString (ps_pairing_key p)),
      (''certFingerprint'', JString (ps_cert_fingerprint p)),
      (''expiresAt'', JNumber (if 0 \<le> ps_expires_at p then PosInt (nat (ps_expires_at p))
                              else NegInt (ps_expires_at p)))]"

definition set_pairing :: "json_text \<Rightarrow> pairing_session \<Rightarrow> app_state \<Rightarrow> app_state" where
  "set_pairing jt session s =
     (case app_db (set_setting PAIRING_SESSION_SETTING (jt_print jt (pairing_session_json session))) s of
        (_, s') \<Rightarrow> s'\<lparr>as_pairing := Some session\<rparr>)"

definition pairing_session_of_json :: "json \<Rightarrow> pairing_session option" where
  "pairing_session_of_json v =
     Option.bind (get_str ''deviceId'' v) (\<lambda>d.
     Option.bind (get_str ''pairingKey'' v) (\<lambda>k.
     Option.bind (get_str ''certFingerprint'' v) (\<lambda>c.
     Option.bind (get_i64 ''expiresAt'' v) (\<lambda>e.
       Some \<lparr>ps_device_id = d, ps_pairing_key = k, ps_cert_fingerprint = c, ps_expires_at = e\<rparr>))))"

definition load_pairing_session ::
  "json_text \<Rightarrow> int \<Rightarrow> app_state \<Rightarrow> pairing_session option \<times> app_state" where
  "load_pairing_session jt now s =
     (case app_db (get_setting PAIRING_SESSION_SETTING) s of
        (Inr (Some stored), s') \<Rightarrow>
          (if trim stored = [] then None
           else Option.bind (Option.bind (jt_parse jt stored) pairing_session_of_json)
                  (\<lambda>session. if now < ps_expires_at session then Some session else None), s')
      | (_, s') \<Rightarrow> (None, s'))"

definition current_pairing ::
  "json_text \<Rightarrow> int \<Rightarrow> app_state \<Rightarrow> pairing_session option \<times> app_state" where
  "current_pairing jt now s =
     (case as_pairing s of
        Some session \<Rightarrow> (Some session, s)
      | None \<Rightarrow>
          (case load_pairing_session jt now s of (held, s') \<Rightarrow> (held, s'\<lparr>as_pairing := held\<rparr>)))"

definition pairing_code_is_live :: "json_text \<Rightarrow> int \<Rightarrow> app_state \<Rightarrow> bool \<times> app_state" where
  "pairing_code_is_live jt now s =
     (case current_pairing jt now s of
        (None, s') \<Rightarrow> (False, s')
      | (Some session, s') \<Rightarrow> (now < ps_expires_at session, s'))"

definition clear_pairing_session :: "app_state \<Rightarrow> app_state" where
  "clear_pairing_session s =
     snd (app_db (set_setting PAIRING_SESSION_SETTING []) (s\<lparr>as_pairing := None\<rparr>))"

section \<open>The phone's channel\<close>

definition update_diagnostics ::
  "(connection_diagnostics \<Rightarrow> connection_diagnostics) \<Rightarrow> app_state \<Rightarrow> app_state" where
  "update_diagnostics f s = s\<lparr>as_diagnostics := f (as_diagnostics s)\<rparr>"

definition disconnected_diagnostics :: "string \<Rightarrow> connection_diagnostics \<Rightarrow> connection_diagnostics" where
  "disconnected_diagnostics reason d =
     d\<lparr>cd_connected := False, cd_connected_at := None, cd_active_transport := ''none'',
       cd_last_disconnect_reason := Some reason\<rparr>"

definition set_phone_sender :: "nat \<Rightarrow> int \<Rightarrow> app_state \<Rightarrow> app_state" where
  "set_phone_sender ch now s =
     update_diagnostics (\<lambda>d. d\<lparr>cd_connected := True, cd_connected_at := Some now,
         cd_last_heartbeat_at := None, cd_last_auth_failure := None,
         cd_last_disconnect_reason := None\<rparr>)
       (s\<lparr>as_phone_sender := Some ch\<rparr>)"

definition clear_phone_sender :: "app_state \<Rightarrow> app_state" where
  "clear_phone_sender s = s\<lparr>as_phone_sender := None\<rparr>"

definition is_current_phone_sender :: "nat \<Rightarrow> app_state \<Rightarrow> bool" where
  "is_current_phone_sender ch s \<longleftrightarrow> as_phone_sender s = Some ch"

definition mark_manual_disconnect :: "app_state \<Rightarrow> app_state" where
  "mark_manual_disconnect s =
     (let s1 = clear_pairing_session (s\<lparr>as_paused := True\<rparr>);
          s2 = forget_approved_phone (s1\<lparr>as_known_phone_allowed := False\<rparr>);
          s3 = s2\<lparr>as_relay_requested := False, as_connection_lost_at := 0,
                  as_connection_announced := False\<rparr>
      in update_diagnostics (disconnected_diagnostics ''manual disconnect'') (clear_phone_sender s3))"

definition clear_phone_sender_if_current_with_reason ::
  "nat \<Rightarrow> string \<Rightarrow> app_state \<Rightarrow> bool \<times> app_state" where
  "clear_phone_sender_if_current_with_reason ch reason s =
     (if as_phone_sender s = Some ch
      then (True, update_diagnostics (disconnected_diagnostics reason) (clear_phone_sender s))
      else (False, s))"

definition clear_phone_sender_if_current :: "nat \<Rightarrow> app_state \<Rightarrow> bool \<times> app_state" where
  "clear_phone_sender_if_current ch = clear_phone_sender_if_current_with_reason ch ''socket closed''"

text \<open>Sending on a channel: it fails when the receiver is gone.\<close>

definition channel_send :: "nat \<Rightarrow> string \<Rightarrow> app_state \<Rightarrow> bool \<times> app_state" where
  "channel_send ch message s =
     (case store_get (as_channels s) ch of
        None \<Rightarrow> (False, s)
      | Some queue \<Rightarrow> (True, s\<lparr>as_channels := store_put ch (queue @ [message]) (as_channels s)\<rparr>))"

definition send_to_phone :: "string \<Rightarrow> app_state \<Rightarrow> bool \<times> app_state" where
  "send_to_phone message s =
     (case as_phone_sender s of None \<Rightarrow> (False, s) | Some ch \<Rightarrow> channel_send ch message s)"

definition mark_transport :: "string \<Rightarrow> app_state \<Rightarrow> app_state" where
  "mark_transport transport =
     update_diagnostics (\<lambda>d. d\<lparr>cd_active_transport := transport, cd_last_disconnect_reason := None\<rparr>)"

definition mark_heartbeat :: "int \<Rightarrow> app_state \<Rightarrow> app_state" where
  "mark_heartbeat at = update_diagnostics (\<lambda>d. d\<lparr>cd_last_heartbeat_at := Some at\<rparr>)"

definition mark_auth_failed :: "string \<Rightarrow> app_state \<Rightarrow> app_state" where
  "mark_auth_failed reason =
     update_diagnostics (\<lambda>d. d\<lparr>cd_connected := False, cd_connected_at := None,
       cd_last_auth_failure := Some reason,
       cd_last_disconnect_reason := Some ''authentication failed''\<rparr>)"

definition mark_stale_connection :: "string \<Rightarrow> app_state \<Rightarrow> app_state" where
  "mark_stale_connection reason = update_diagnostics (disconnected_diagnostics reason)"

end
