(* ===== verification/Desktop_Host.thy ===== *)
theory Desktop_Host
  imports App_State
begin

text \<open>
  The desktop as the tasks of it see it: the shared state, what has been shown to the user, and
  the permit of the work item in flight (\<open>WorkPermit\<close> of server/ws_server.rs). Tasks interleave
  at every point where one of them touches shared state: \<open>others k\<close> is what the rest of the
  program does before the k-th such point of the operation at hand, and may be any function.
\<close>

section \<open>The host\<close>

datatype ui_event =
  UiConnection string | UiStatus string | UiNotification notification_row | UiDismissal string
| UiPhoneStatus json | UiRulesAck json | UiAppRules "app_rule_row list"
| PopupConnection bool | PopupNotification notification_row

record host =
  h_app :: app_state
  h_shown :: "ui_event list"
  h_emit_faults :: "bool list"
  h_permit :: bool

type_synonym 'a host_op = "host \<Rightarrow> (string + 'a) \<times> host"

definition host_return :: "'a \<Rightarrow> 'a host_op" where
  "host_return x h = (Inr x, h)"

definition host_bind :: "'a host_op \<Rightarrow> ('a \<Rightarrow> 'b host_op) \<Rightarrow> 'b host_op" where
  "host_bind m f h = (case m h of (Inl e, h') \<Rightarrow> (Inl e, h') | (Inr x, h') \<Rightarrow> f x h')"

definition on_app :: "(app_state \<Rightarrow> app_state) \<Rightarrow> host \<Rightarrow> host" where
  "on_app f h = h\<lparr>h_app := f (h_app h)\<rparr>"

text \<open>Reading or changing the shared state once the others have had their turn.\<close>

definition ask :: "(host \<Rightarrow> host) \<Rightarrow> (host \<Rightarrow> 'a) \<Rightarrow> 'a host_op" where
  "ask rest f h = (let h' = rest h in (Inr (f h'), h'))"

definition act :: "(host \<Rightarrow> host) \<Rightarrow> (app_state \<Rightarrow> app_state) \<Rightarrow> unit host_op" where
  "act rest f h = (Inr (), on_app f (rest h))"

definition query_db :: "(host \<Rightarrow> host) \<Rightarrow> 'a db_op \<Rightarrow> 'a host_op" where
  "query_db rest m h =
     (let h' = rest h in case app_db m (h_app h') of (r, s) \<Rightarrow> (r, h'\<lparr>h_app := s\<rparr>))"

text \<open>
  An event for the window may fail to be emitted; a popup is shown without an answer.
\<close>

definition emit :: "ui_event \<Rightarrow> unit host_op" where
  "emit e h =
     (case h_emit_faults h of
        False # fs \<Rightarrow> (Inl ''emit'', h\<lparr>h_emit_faults := fs\<rparr>)
      | fs \<Rightarrow> (Inr (), h\<lparr>h_emit_faults := tl fs, h_shown := h_shown h @ [e]\<rparr>))"

definition popup :: "ui_event \<Rightarrow> unit host_op" where
  "popup e h = (Inr (), h\<lparr>h_shown := h_shown h @ [e]\<rparr>)"

definition host_when :: "bool \<Rightarrow> unit host_op \<Rightarrow> unit host_op" where
  "host_when b m = (if b then m else host_return ())"

text \<open>An operation whose failure its caller ignores.\<close>

definition host_try :: "'a host_op \<Rightarrow> unit host_op" where
  "host_try m h = (Inr (), snd (m h))"

section \<open>Relations every step keeps\<close>

definition host_rel :: "(host \<Rightarrow> host \<Rightarrow> bool) \<Rightarrow> 'a host_op \<Rightarrow> bool" where
  "host_rel R m \<longleftrightarrow> (\<forall>h. R h (snd (m h)))"

lemma host_relD: "host_rel R m \<Longrightarrow> m h = (r, h') \<Longrightarrow> R h h'"
  by (auto simp: host_rel_def dest: spec [of _ h])

definition quiet :: "(host \<Rightarrow> host \<Rightarrow> bool) \<Rightarrow> (nat \<Rightarrow> host \<Rightarrow> host) \<Rightarrow> bool" where
  "quiet R others \<longleftrightarrow> (\<forall>k h. R h (others k h))"

locale host_order =
  fixes R :: "host \<Rightarrow> host \<Rightarrow> bool"
  assumes refl: "R h h"
    and trans: "R a b \<Longrightarrow> R b c \<Longrightarrow> R a c"
    and shown: "R h (h\<lparr>h_shown := x\<rparr>)"
    and faults: "R h (h\<lparr>h_emit_faults := fs\<rparr>)"
begin

lemma return: "host_rel R (host_return x)"
  by (simp add: host_rel_def host_return_def refl)

lemma bind:
  assumes "host_rel R m" and "\<And>x. host_rel R (f x)"
  shows "host_rel R (host_bind m f)"
  unfolding host_rel_def
proof
  fix h
  obtain r h' where m: "m h = (r, h')" by fastforce
  have one: "R h h'" using assms(1) m by (rule host_relD)
  show "R h (snd (host_bind m f h))"
  proof (cases r)
    case (Inl e)
    then show ?thesis using m one by (simp add: host_bind_def)
  next
    case (Inr x)
    have "R h' (snd (f x h'))" using assms(2) by (simp add: host_rel_def)
    then show ?thesis using m Inr by (simp add: host_bind_def trans [OF one])
  qed
qed

lemma asked: "quiet R others \<Longrightarrow> host_rel R (ask (others k) f)"
  by (simp add: host_rel_def ask_def Let_def quiet_def)

lemma acted:
  assumes "quiet R others" and "\<And>h. R h (on_app f h)"
  shows "host_rel R (act (others k) f)"
  unfolding host_rel_def act_def snd_conv using assms trans unfolding quiet_def by blast

lemma queried:
  assumes "quiet R others" and "\<And>h s r. app_db m (h_app h) = (r, s) \<Longrightarrow> R h (h\<lparr>h_app := s\<rparr>)"
  shows "host_rel R (query_db (others k) m)"
  unfolding host_rel_def
proof
  fix h
  obtain r s where run: "app_db m (h_app (others k h)) = (r, s)" by fastforce
  have "R (others k h) ((others k h)\<lparr>h_app := s\<rparr>)" using run by (rule assms(2))
  moreover have "R h (others k h)" using assms(1) by (simp add: quiet_def)
  ultimately have "R h ((others k h)\<lparr>h_app := s\<rparr>)" using trans by blast
  then show "R h (snd (query_db (others k) m h))" by (simp add: query_db_def Let_def run)
qed

lemma emitted: "host_rel R (emit e)"
proof -
  have "R h (h\<lparr>h_emit_faults := fs, h_shown := x\<rparr>)" for h fs x
    using trans [OF faults [of h fs] shown [of "h\<lparr>h_emit_faults := fs\<rparr>" x]] by simp
  then show ?thesis
    by (auto simp: host_rel_def emit_def faults split: list.splits bool.splits)
qed

lemma popped: "host_rel R (popup e)"
  by (simp add: host_rel_def popup_def shown)

lemma whenever: "host_rel R m \<Longrightarrow> host_rel R (host_when b m)"
  by (simp add: host_when_def return)

lemma tried: "host_rel R m \<Longrightarrow> host_rel R (host_try m)"
  by (simp add: host_rel_def host_try_def)

lemmas rules = return bind asked emitted popped whenever tried

end

section \<open>Results of composed operations\<close>

lemma host_bind_InrE:
  assumes "host_bind m f h = (Inr y, h')"
  obtains x h1 where "m h = (Inr x, h1)" "f x h1 = (Inr y, h')"
  using assms by (auto simp: host_bind_def split: prod.splits sum.splits)

lemma query_db_InrE:
  assumes "query_db rest m h = (Inr x, h')"
  obtains d where "m (as_db (h_app (rest h))) = (Inr x, d)"
    "h' = (rest h)\<lparr>h_app := (h_app (rest h))\<lparr>as_db := d\<rparr>\<rparr>"
  using assms by (auto simp: query_db_def app_db_def Let_def split: prod.splits)

end
