(* ===== verification/Heartbeat.thy ===== *)
theory Heartbeat
  imports Prelude
begin

text \<open>
  desktop/src-tauri/src/server/heartbeat.rs: the transport probes of a phone session and the
  instant at which its silence ends it. Instants are those of the monotonic clock; the
  sequence number of a probe wraps at 64 bits.
\<close>

definition PROBE_INTERVAL :: nat where [limits]: "PROBE_INTERVAL = secs 15"
definition PROBE_TIMEOUT :: nat where [limits]: "PROBE_TIMEOUT = secs 20"
definition SESSION_TIMEOUT :: nat where [limits]: "SESSION_TIMEOUT = secs 90"

record peer_heartbeat =
  hb_next_probe :: instant
  hb_pending :: "(bytes \<times> instant) option"
  hb_last_seen :: instant
  hb_sequence :: nat

definition hb_new :: "instant \<Rightarrow> peer_heartbeat" where
  "hb_new now = \<lparr>hb_next_probe = now, hb_pending = None, hb_last_seen = now, hb_sequence = 0\<rparr>"

definition hb_deadline :: "peer_heartbeat \<Rightarrow> instant" where
  "hb_deadline h = hb_last_seen h + SESSION_TIMEOUT"

definition hb_mark_alive :: "instant \<Rightarrow> peer_heartbeat \<Rightarrow> peer_heartbeat" where
  "hb_mark_alive now h = (if hb_last_seen h < now then h\<lparr>hb_last_seen := now\<rparr> else h)"

definition hb_send :: "instant \<Rightarrow> peer_heartbeat \<Rightarrow> bytes option \<times> peer_heartbeat" where
  "hb_send now h =
     (if now < hb_next_probe h then (None, h)
      else
        let n = (hb_sequence h + 1) mod 2 ^ 64;
            token = be_bytes 8 n
        in (Some token, h\<lparr>hb_sequence := n, hb_pending := Some (token, now + PROBE_TIMEOUT),
              hb_next_probe := now + PROBE_INTERVAL\<rparr>))"

definition hb_probe :: "instant \<Rightarrow> peer_heartbeat \<Rightarrow> bytes option \<times> peer_heartbeat" where
  "hb_probe now h =
     (case hb_pending h of
        None \<Rightarrow> hb_send now h
      | Some (_, expires) \<Rightarrow>
          if now < expires then (None, h)
          else hb_send now (h\<lparr>hb_pending := None, hb_next_probe := now\<rparr>))"

definition hb_wake_at :: "peer_heartbeat \<Rightarrow> instant" where
  "hb_wake_at h = (case hb_pending h of Some (_, expires) \<Rightarrow> expires | None \<Rightarrow> hb_next_probe h)"

definition hb_acknowledge :: "bytes \<Rightarrow> instant \<Rightarrow> peer_heartbeat \<Rightarrow> bool \<times> peer_heartbeat" where
  "hb_acknowledge payload now h =
     (let answered = (case hb_pending h of
                        None \<Rightarrow> False
                      | Some (token, expires) \<Rightarrow> token = payload \<and> now < expires)
      in if answered
         then (True, hb_mark_alive now
                 (h\<lparr>hb_pending := None, hb_next_probe := now + PROBE_INTERVAL\<rparr>))
         else (False, h))"

section \<open>A session on the clock\<close>

text \<open>
  What the session loop does with the heartbeat: it asks for a probe when it wakes, notes every
  application frame, and offers every pong. The log keeps what happened, newest last.
\<close>

datatype hb_event = Wake instant | Frame instant | Pong bytes instant

datatype hb_log = Sent bytes instant | Heard instant | Answered bytes instant

fun hb_time :: "hb_event \<Rightarrow> instant" where
  "hb_time (Wake t) = t"
| "hb_time (Frame t) = t"
| "hb_time (Pong p t) = t"

fun hb_step :: "hb_event \<Rightarrow> peer_heartbeat \<Rightarrow> hb_log list \<times> peer_heartbeat" where
  "hb_step (Wake t) h =
     (case hb_probe t h of (Some token, h') \<Rightarrow> ([Sent token t], h') | (None, h') \<Rightarrow> ([], h'))"
| "hb_step (Frame t) h = ([Heard t], hb_mark_alive t h)"
| "hb_step (Pong p t) h =
     (case hb_acknowledge p t h of (True, h') \<Rightarrow> ([Answered p t], h') | (False, h') \<Rightarrow> ([], h'))"

fun hb_run :: "hb_event list \<Rightarrow> hb_log list \<times> peer_heartbeat \<Rightarrow> hb_log list \<times> peer_heartbeat" where
  "hb_run [] s = s"
| "hb_run (e # es) (log, h) = (let (new, h') = hb_step e h in hb_run es (log @ new, h'))"

fun sign_of_life :: "hb_log \<Rightarrow> instant list" where
  "sign_of_life (Sent _ _) = []"
| "sign_of_life (Heard t) = [t]"
| "sign_of_life (Answered _ t) = [t]"

fun probe_time :: "hb_log \<Rightarrow> instant list" where
  "probe_time (Sent _ t) = [t]"
| "probe_time _ = []"

definition life_times :: "hb_log list \<Rightarrow> instant list" where
  "life_times log = concat (map sign_of_life log)"

definition probe_times :: "hb_log list \<Rightarrow> instant list" where
  "probe_times log = concat (map probe_time log)"

lemma times_append [simp]:
  "life_times (a @ b) = life_times a @ life_times b"
  "probe_times (a @ b) = probe_times a @ probe_times b"
  "life_times [] = []" "probe_times [] = []"
  "life_times [x] = sign_of_life x" "probe_times [x] = probe_time x"
  by (simp_all add: life_times_def probe_times_def)

text \<open>
  What holds between the log and the heartbeat: the last sign of life, probes at least fifteen
  seconds apart, the probe in flight being the last one sent, and every answer being the token
  of a probe sent less than twenty seconds before.
\<close>

definition hb_inv :: "instant \<Rightarrow> hb_log list \<times> peer_heartbeat \<Rightarrow> bool" where
  "hb_inv start = (\<lambda>(log, h).
     hb_last_seen h = last (start # life_times log)
     \<and> sorted_wrt (\<lambda>a b. a + PROBE_INTERVAL \<le> b) (probe_times log)
     \<and> (\<forall>s\<in>set (probe_times log). s + PROBE_INTERVAL \<le> hb_next_probe h)
     \<and> (\<forall>token expires. hb_pending h = Some (token, expires) \<longrightarrow>
          (\<exists>s. Sent token s \<in> set log \<and> expires = s + PROBE_TIMEOUT
               \<and> (\<forall>s'\<in>set (probe_times log). s' \<le> s)))
     \<and> (\<forall>token t. Answered token t \<in> set log \<longrightarrow>
          (\<exists>s. Sent token s \<in> set log \<and> t < s + PROBE_TIMEOUT)))"

text \<open>\<open>hb_now\<close>: the clock has reached \<open>now\<close>, so nothing noted so far lies after it.\<close>

definition hb_now :: "instant \<Rightarrow> hb_log list \<times> peer_heartbeat \<Rightarrow> bool" where
  "hb_now now = (\<lambda>(log, h). hb_last_seen h \<le> now \<and> (\<forall>s\<in>set (probe_times log). s \<le> now))"

lemma sent_in_probe_times: "Sent token s \<in> set log \<Longrightarrow> s \<in> set (probe_times log)"
  by (force simp: probe_times_def)

lemma hb_mark_alive_now: "hb_last_seen h \<le> t \<Longrightarrow> hb_mark_alive t h = h\<lparr>hb_last_seen := t\<rparr>"
  by (auto simp: hb_mark_alive_def)

lemma hb_send_inv:
  assumes inv: "hb_inv start (log, h)" and pend: "hb_pending h = None"
    and send: "hb_send t h = (Some token, h')"
  shows "hb_inv start (log @ [Sent token t], h') \<and> hb_last_seen h' = hb_last_seen h"
proof -
  have due: "hb_next_probe h \<le> t"
    and h': "h' = h\<lparr>hb_sequence := (hb_sequence h + 1) mod 2 ^ 64,
        hb_pending := Some (token, t + PROBE_TIMEOUT), hb_next_probe := t + PROBE_INTERVAL\<rparr>"
    using send by (auto simp: hb_send_def Let_def split: if_splits)
  have before: "\<forall>s\<in>set (probe_times log). s + PROBE_INTERVAL \<le> t"
    using inv due unfolding hb_inv_def by fastforce
  then have "\<forall>s\<in>set (probe_times log). s \<le> t" by fastforce
  then show ?thesis
    using inv before unfolding hb_inv_def h' by (auto simp: sorted_wrt_append) blast
qed

lemma hb_inv_lapse:
  assumes "hb_inv start (log, h)" and "hb_pending h = Some (tok, expires)" and "expires \<le> t"
  shows "hb_inv start (log, h\<lparr>hb_pending := None, hb_next_probe := t\<rparr>)"
proof -
  obtain s where s: "expires = s + PROBE_TIMEOUT" "\<forall>s'\<in>set (probe_times log). s' \<le> s"
    using assms(1,2) by (auto simp: hb_inv_def)
  have "PROBE_INTERVAL \<le> PROBE_TIMEOUT" by (simp add: limits)
  then have "\<forall>s'\<in>set (probe_times log). s' + PROBE_INTERVAL \<le> t"
    using s assms(3) by fastforce
  then show ?thesis using assms(1) by (simp add: hb_inv_def)
qed

lemma hb_probe_inv:
  assumes inv: "hb_inv start (log, h)" and probe: "hb_probe t h = (r, h')"
  shows "hb_inv start (log @ (case r of None \<Rightarrow> [] | Some token \<Rightarrow> [Sent token t]), h')
    \<and> hb_last_seen h' = hb_last_seen h"
proof (cases "hb_pending h")
  case None
  show ?thesis
  proof (cases r)
    case None': None
    then show ?thesis
      using probe None inv by (auto simp: hb_probe_def hb_send_def Let_def split: if_splits)
  next
    case (Some token)
    then have "hb_send t h = (Some token, h')" using probe None by (simp add: hb_probe_def)
    from hb_send_inv [OF inv None this] Some show ?thesis by simp
  qed
next
  case (Some pe)
  obtain tok expires where pe: "pe = (tok, expires)" by (cases pe)
  show ?thesis
  proof (cases "t < expires")
    case True
    then show ?thesis using probe Some pe inv by (auto simp: hb_probe_def)
  next
    case False
    let ?g = "h\<lparr>hb_pending := None, hb_next_probe := t\<rparr>"
    have g: "hb_inv start (log, ?g)"
      using hb_inv_lapse [OF inv] Some pe False by simp
    have "hb_send t ?g = (r, h')" using probe Some pe False by (simp add: hb_probe_def)
    moreover from this obtain token where "r = Some token" by (auto simp: hb_send_def Let_def)
    ultimately show ?thesis using hb_send_inv [OF g] by simp
  qed
qed

lemma hb_frame_inv:
  assumes "hb_inv start (log, h)" and "hb_last_seen h \<le> t"
  shows "hb_inv start (log @ [Heard t], hb_mark_alive t h)"
  using assms by (auto simp: hb_inv_def hb_mark_alive_now)

lemma hb_pong_inv:
  assumes inv: "hb_inv start (log, h)" and now: "hb_last_seen h \<le> t"
    and ack: "hb_acknowledge p t h = (True, h')" 
    and sent: "\<forall>s\<in>set (probe_times log). s \<le> t"
  shows "hb_inv start (log @ [Answered p t], h')"
proof -
  obtain expires where pend: "hb_pending h = Some (p, expires)" "t < expires"
    and h': "h' = hb_mark_alive t (h\<lparr>hb_pending := None, hb_next_probe := t + PROBE_INTERVAL\<rparr>)"
    using ack by (auto simp: hb_acknowledge_def Let_def split: if_splits option.splits)
  obtain s where s: "Sent p s \<in> set log" "expires = s + PROBE_TIMEOUT"
    using inv pend by (auto simp: hb_inv_def)
  have alive: "h' = h\<lparr>hb_pending := None, hb_next_probe := t + PROBE_INTERVAL, hb_last_seen := t\<rparr>"
    unfolding h' using now by (subst hb_mark_alive_now) simp_all
  show ?thesis
    using inv s pend(2) sent unfolding hb_inv_def alive by auto
qed

lemma hb_step_inv:
  assumes inv: "hb_inv start (log, h)" and now: "hb_now (hb_time e) (log, h)"
    and step: "hb_step e h = (new, h')"
  shows "hb_inv start (log @ new, h') \<and> hb_now (hb_time e) (log @ new, h')"
proof (cases e)
  case (Wake t)
  obtain r g where probe: "hb_probe t h = (r, g)" by (cases "hb_probe t h")
  have "new = (case r of None \<Rightarrow> [] | Some token \<Rightarrow> [Sent token t])" "g = h'"
    using step Wake probe by (auto split: option.splits)
  with hb_probe_inv [OF inv probe] now Wake show ?thesis
    by (auto simp: hb_now_def split: option.splits)
next
  case (Frame t)
  then show ?thesis
    using step now hb_frame_inv [OF inv, of t] by (auto simp: hb_now_def hb_mark_alive_now)
next
  case (Pong p t)
  show ?thesis
  proof (cases "fst (hb_acknowledge p t h)")
    case True
    then have ack: "hb_acknowledge p t h = (True, h')" "new = [Answered p t]"
      using step Pong by (auto split: prod.splits bool.splits)
    have "hb_inv start (log @ [Answered p t], h')"
      using hb_pong_inv [OF inv _ ack(1)] now Pong by (simp add: hb_now_def)
    moreover have "hb_last_seen h' \<le> t"
      using ack(1) now Pong
      by (auto simp: hb_acknowledge_def Let_def hb_mark_alive_def hb_now_def split: if_splits)
    ultimately show ?thesis using now Pong ack(2) by (simp add: hb_now_def)
  next
    case False
    then have "h' = h" "new = []"
      using step Pong by (auto simp: hb_acknowledge_def Let_def split: if_splits prod.splits)
    with inv now show ?thesis by simp
  qed
qed

lemma hb_now_mono: "hb_now t s \<Longrightarrow> t \<le> t' \<Longrightarrow> hb_now t' s"
  by (auto simp: hb_now_def)

lemma hb_run_inv:
  assumes "hb_inv start (log, h)" and "hb_now now (log, h)" and "sorted (now # map hb_time es)"
  shows "hb_inv start (hb_run es (log, h))"
  using assms
proof (induction es arbitrary: log h now)
  case Nil
  then show ?case by simp
next
  case (Cons e es)
  obtain new h' where step: "hb_step e h = (new, h')" by (cases "hb_step e h")
  have "hb_now (hb_time e) (log, h)" using Cons.prems(2,3) by (auto intro: hb_now_mono)
  from hb_step_inv [OF Cons.prems(1) this step]
  have "hb_inv start (log @ new, h')" "hb_now (hb_time e) (log @ new, h')" by simp_all
  moreover have "sorted (hb_time e # map hb_time es)" using Cons.prems(3) by simp
  ultimately have "hb_inv start (hb_run es (log @ new, h'))" by (rule Cons.IH)
  then show ?case using step by simp
qed

lemma hb_inv_new: "hb_inv start ([], hb_new start)" "hb_now start ([], hb_new start)"
  by (simp_all add: hb_inv_def hb_now_def hb_new_def life_times_def probe_times_def)

lemma hb_wake_before_deadline:
  assumes "hb_inv start (log, h)" and "hb_pending h = Some (tok, expires)"
  shows "hb_wake_at h = expires"
  using assms by (simp add: hb_wake_at_def)

section \<open>Property\<close>



end
