(* ===== verification/Socket_Io.thy ===== *)
theory Socket_Io
  imports Heartbeat
begin

text \<open>
  desktop/src-tauri/src/server/socket_io.rs: the queue of messages that wait while one piece of
  application work runs, and the loop that keeps the socket and the heartbeat alive meanwhile.
  Messages are those of the WebSocket library. The socket is the list of what the peer will
  deliver, and a turn of the loop is given by the clock and by which branch of its select is
  taken: every choice the scheduler has is an argument.
\<close>

datatype ws_message =
  TextM string | BinaryM bytes | PingM bytes | PongM bytes | CloseM "(nat \<times> string) option" | FrameM bytes

fun message_len :: "ws_message \<Rightarrow> nat" where
  "message_len (TextM s) = length s"
| "message_len (BinaryM b) = length b"
| "message_len (PingM b) = length b"
| "message_len (PongM b) = length b"
| "message_len (CloseM r) = (case r of None \<Rightarrow> 0 | Some (_, s) \<Rightarrow> length s)"
| "message_len (FrameM b) = length b"

fun is_text :: "ws_message \<Rightarrow> bool" where
  "is_text (TextM s) = True"
| "is_text _ = False"

section \<open>The queue\<close>

definition MAX_PENDING_MESSAGES :: nat where [limits]: "MAX_PENDING_MESSAGES = 64"
definition MAX_PENDING_BYTES :: nat where [limits]: "MAX_PENDING_BYTES = 8 * 1024 * 1024"
definition LARGEST_RECORD :: nat where [limits]: "LARGEST_RECORD = 1024 * 1024"

record pending_messages =
  pm_messages :: "ws_message list"
  pm_bytes :: nat

definition pending_default :: pending_messages where
  "pending_default = \<lparr>pm_messages = [], pm_bytes = 0\<rparr>"

definition pop_front :: "pending_messages \<Rightarrow> ws_message option \<times> pending_messages" where
  "pop_front p =
     (case pm_messages p of
        [] \<Rightarrow> (None, p)
      | frame # rest \<Rightarrow>
          (Some frame, p\<lparr>pm_messages := rest, pm_bytes := pm_bytes p - message_len frame\<rparr>))"

definition push_back :: "ws_message \<Rightarrow> pending_messages \<Rightarrow> (string + unit) \<times> pending_messages" where
  "push_back frame p =
     (if length (pm_messages p) < MAX_PENDING_MESSAGES
         \<and> message_len frame \<le> MAX_PENDING_BYTES - pm_bytes p
      then (Inr (), p\<lparr>pm_bytes := pm_bytes p + message_len frame,
              pm_messages := pm_messages p @ [frame]\<rparr>)
      else (Inl ''pending websocket work limit exceeded'', p))"

definition pending_clear :: "pending_messages \<Rightarrow> pending_messages" where
  "pending_clear p = p\<lparr>pm_messages := [], pm_bytes := 0\<rparr>"

definition is_full :: "pending_messages \<Rightarrow> bool" where
  "is_full p \<longleftrightarrow> MAX_PENDING_MESSAGES \<le> length (pm_messages p)
     \<or> MAX_PENDING_BYTES < pm_bytes p + LARGEST_RECORD"

definition pending_inv :: "pending_messages \<Rightarrow> bool" where
  "pending_inv p \<longleftrightarrow> pm_bytes p = sum_list (map message_len (pm_messages p))
     \<and> length (pm_messages p) \<le> MAX_PENDING_MESSAGES \<and> pm_bytes p \<le> MAX_PENDING_BYTES"

lemma pending_inv_default: "pending_inv pending_default"
  by (simp add: pending_inv_def pending_default_def)

lemma pending_inv_clear: "pending_inv (pending_clear p)" "pm_messages (pending_clear p) = []"
  by (simp_all add: pending_inv_def pending_clear_def)

lemma pending_inv_pop: "pending_inv p \<Longrightarrow> pending_inv (snd (pop_front p))"
  by (auto simp: pending_inv_def pop_front_def split: list.splits)

lemma pending_inv_push: "pending_inv p \<Longrightarrow> pending_inv (snd (push_back f p))"
  by (auto simp: pending_inv_def push_back_def)

text \<open>A queue that is not full has room for any record the protocol allows.\<close>

lemma push_back_room:
  "\<not> is_full p \<Longrightarrow> message_len f \<le> LARGEST_RECORD \<Longrightarrow>
    push_back f p = (Inr (), p\<lparr>pm_bytes := pm_bytes p + message_len f,
      pm_messages := pm_messages p @ [f]\<rparr>)"
  by (auto simp: push_back_def is_full_def)

section \<open>Writing a frame\<close>

text \<open>
  \<open>sent\<close> is what the write did within \<open>min deadline (now + 10 s)\<close>: \<open>None\<close> when it did not
  finish in time, otherwise its result; \<open>after\<close> is the clock when it finished.
\<close>

definition send_frame_before ::
  "instant \<Rightarrow> (string + unit) option \<Rightarrow> instant \<Rightarrow> instant \<Rightarrow> string + unit" where
  "send_frame_before now sent after deadline =
     (if \<not> now < deadline then Inl ''websocket write timeout''
      else case sent of
             None \<Rightarrow> Inl ''websocket write timeout''
           | Some (Inl e) \<Rightarrow> Inl ''send websocket message''
           | Some (Inr _) \<Rightarrow>
               if after < deadline then Inr () else Inl ''websocket write timeout'')"

section \<open>Serving the socket while work runs\<close>

datatype socket_item = Item ws_message | ReadError

text \<open>\<open>accept_during_work\<close> also returns whether the pong callback ran.\<close>

definition accept_during_work ::
  "socket_item option \<Rightarrow> instant \<Rightarrow> peer_heartbeat \<Rightarrow> pending_messages
    \<Rightarrow> (string + unit) \<times> peer_heartbeat \<times> pending_messages \<times> bool" where
  "accept_during_work frame now h p =
     (case frame of
        None \<Rightarrow> (Inl ''socket closed'', h, p, False)
      | Some ReadError \<Rightarrow> (Inl ''read websocket during work'', h, p, False)
      | Some (Item (CloseM _)) \<Rightarrow> (Inl ''socket closed'', h, p, False)
      | Some (Item (PongM payload)) \<Rightarrow>
          (case hb_acknowledge payload now h of (answered, h') \<Rightarrow> (Inr (), h', p, answered))
      | Some (Item (TextM s)) \<Rightarrow>
          (case push_back (TextM s) p of (r, p') \<Rightarrow> (r, hb_mark_alive now h, p', False))
      | Some (Item _) \<Rightarrow> (Inr (), h, p, False))"

datatype 'a selected =
  SelDeadline | SelOwnership | SelWake | SelWork "string + 'a" bool | SelFrame bool

record 'a turn =
  tn_current :: bool
  tn_start :: instant
  tn_ready :: bool
  tn_read_at :: instant
  tn_probe_at :: instant
  tn_ping :: "(string + unit) option"
  tn_ping_done :: instant
  tn_selected :: "'a selected"
  tn_select_at :: instant

record service =
  sv_socket :: "socket_item list"
  sv_heartbeat :: peer_heartbeat
  sv_pending :: pending_messages
  sv_pongs :: nat

definition next_item :: "socket_item list \<Rightarrow> socket_item option \<times> socket_item list" where
  "next_item input = (case input of [] \<Rightarrow> (None, []) | x # xs \<Rightarrow> (Some x, xs))"

definition take_frame :: "instant \<Rightarrow> service \<Rightarrow> (string + unit) \<times> service" where
  "take_frame now s =
     (case next_item (sv_socket s) of (frame, rest) \<Rightarrow>
        (case accept_during_work frame now (sv_heartbeat s) (sv_pending s) of (r, h, p, ponged) \<Rightarrow>
           (r, s\<lparr>sv_socket := rest, sv_heartbeat := h, sv_pending := p,
                  sv_pongs := sv_pongs s + (if ponged then 1 else 0)\<rparr>)))"

definition send_probe :: "'a turn \<Rightarrow> service \<Rightarrow> (string + unit) \<times> service" where
  "send_probe t s =
     (case hb_probe (tn_probe_at t) (sv_heartbeat s) of
        (None, h) \<Rightarrow> (Inr (), s\<lparr>sv_heartbeat := h\<rparr>)
      | (Some token, h) \<Rightarrow>
          (send_frame_before (tn_probe_at t) (tn_ping t) (tn_ping_done t) (hb_deadline h),
           s\<lparr>sv_heartbeat := h\<rparr>))"

text \<open>
  One pass of the loop: \<open>None\<close> goes round again. A frame can be selected only when there was room
  for it just before; otherwise that branch is disabled and the pass waits for another.
\<close>

definition select_branch ::
  "'a turn \<Rightarrow> service \<Rightarrow> (string + 'a) option \<times> service" where
  "select_branch t s =
     (case tn_selected t of
        SelDeadline \<Rightarrow> (Some (Inl ''phone heartbeat timed out''), s)
      | SelOwnership \<Rightarrow> (None, s)
      | SelWake \<Rightarrow> (None, s)
      | SelWork result still \<Rightarrow>
          (if \<not> still then (Some (Inl ''socket ownership changed''), s) else (Some result, s))
      | SelFrame still \<Rightarrow>
          (if is_full (sv_pending s) then (None, s)
           else if \<not> still
             then (Some (Inl ''socket ownership changed''), s\<lparr>sv_socket := snd (next_item (sv_socket s))\<rparr>)
           else case take_frame (tn_select_at t) s of
                  (Inl e, s') \<Rightarrow> (Some (Inl e), s')
                | (Inr _, s') \<Rightarrow> (None, s')))"

definition service_turn :: "'a turn \<Rightarrow> service \<Rightarrow> (string + 'a) option \<times> service" where
  "service_turn t s =
     (if \<not> tn_current t then (Some (Inl ''socket ownership changed''), s)
      else if \<not> tn_start t < hb_deadline (sv_heartbeat s)
        then (Some (Inl ''phone heartbeat timed out''), s)
      else case (if \<not> is_full (sv_pending s) \<and> tn_ready t then take_frame (tn_read_at t) s
                 else (Inr (), s)) of
             (Inl e, s1) \<Rightarrow> (Some (Inl e), s1)
           | (Inr _, s1) \<Rightarrow>
               (case send_probe t s1 of
                  (Inl e, s2) \<Rightarrow> (Some (Inl e), s2)
                | (Inr _, s2) \<Rightarrow> select_branch t s2))"

text \<open>The loop over the turns given; \<open>None\<close> when it is still running after the last of them.\<close>

fun service_loop :: "'a turn list \<Rightarrow> service \<Rightarrow> (string + 'a) option \<times> service" where
  "service_loop [] s = (None, s)"
| "service_loop (t # ts) s =
     (case service_turn t s of (Some r, s') \<Rightarrow> (Some r, s') | (None, s') \<Rightarrow> service_loop ts s')"

definition service_while :: "'a turn list \<Rightarrow> service \<Rightarrow> (string + 'a) option \<times> service" where
  "service_while ts s =
     (case service_loop ts s of
        (Some (Inl e), s') \<Rightarrow> (Some (Inl e), s'\<lparr>sv_pending := pending_clear (sv_pending s')\<rparr>)
      | (r, s') \<Rightarrow> (r, s'))"

section \<open>What the loop keeps\<close>

text \<open>
  \<open>served s s'\<close>: what was read off the socket between the two states is exactly what the queue
  gained, in order, as far as it is text.
\<close>

definition item_text :: "socket_item \<Rightarrow> ws_message list" where
  "item_text i = (case i of Item m \<Rightarrow> (if is_text m then [m] else []) | ReadError \<Rightarrow> [])"

definition served :: "service \<Rightarrow> service \<Rightarrow> bool" where
  "served s s' \<longleftrightarrow> (\<exists>taken. sv_socket s = taken @ sv_socket s'
     \<and> pm_messages (sv_pending s') = pm_messages (sv_pending s) @ concat (map item_text taken))"

lemma served_refl: "served s s"
  by (auto simp: served_def)

lemma served_trans:
  assumes "served a b" and "served b c"
  shows "served a c"
proof -
  from assms obtain x y where
    "sv_socket a = x @ sv_socket b"
    "pm_messages (sv_pending b) = pm_messages (sv_pending a) @ concat (map item_text x)"
    "sv_socket b = y @ sv_socket c"
    "pm_messages (sv_pending c) = pm_messages (sv_pending b) @ concat (map item_text y)"
    unfolding served_def by blast
  then show ?thesis unfolding served_def by (intro exI [of _ "x @ y"]) simp
qed

definition small_items :: "service \<Rightarrow> bool" where
  "small_items s \<longleftrightarrow> (\<forall>m. Item m \<in> set (sv_socket s) \<longrightarrow> message_len m \<le> LARGEST_RECORD)"

lemma take_frame_kept:
  assumes "take_frame now s = (r, s')" and "\<not> is_full (sv_pending s)" and "small_items s"
    and "pending_inv (sv_pending s)"
  shows "pending_inv (sv_pending s') \<and> small_items s'
    \<and> r \<noteq> Inl ''pending websocket work limit exceeded'' \<and> (isl r \<or> served s s')"
proof (cases "sv_socket s")
  case Nil
  then show ?thesis using assms
    by (auto simp: take_frame_def next_item_def accept_during_work_def small_items_def)
next
  case (Cons i rest)
  then have small: "\<forall>m. i = Item m \<longrightarrow> message_len m \<le> LARGEST_RECORD"
    "\<forall>m. Item m \<in> set rest \<longrightarrow> message_len m \<le> LARGEST_RECORD"
    using assms(3) by (auto simp: small_items_def)
  obtain r' h p q where acc: "accept_during_work (Some i) now (sv_heartbeat s) (sv_pending s) = (r', h, p, q)"
    by (rule prod_cases4)
  have s': "r = r'" "s' = s\<lparr>sv_socket := rest, sv_heartbeat := h, sv_pending := p,
      sv_pongs := sv_pongs s + (if q then 1 else 0)\<rparr>"
    using assms(1) Cons acc by (auto simp: take_frame_def next_item_def)
  have "pending_inv p \<and> r' \<noteq> Inl ''pending websocket work limit exceeded''
      \<and> (isl r' \<or> pm_messages p = pm_messages (sv_pending s) @ item_text i)"
  proof (cases "\<exists>t. i = Item (TextM t)")
    case True
    then obtain t where i: "i = Item (TextM t)" by blast
    with small have "push_back (TextM t) (sv_pending s) = (Inr (), (sv_pending s)\<lparr>pm_bytes :=
        pm_bytes (sv_pending s) + message_len (TextM t),
        pm_messages := pm_messages (sv_pending s) @ [TextM t]\<rparr>)"
      by (intro push_back_room [OF assms(2)]) blast
    then show ?thesis
      using acc i pending_inv_push [OF assms(4), of "TextM t"]
      by (auto simp: accept_during_work_def item_text_def)
  next
    case False
    then show ?thesis
      using acc assms(4)
      by (auto simp: accept_during_work_def item_text_def split: socket_item.splits
          ws_message.splits prod.splits)
  qed
  then show ?thesis
    using s' Cons small by (auto simp: served_def small_items_def intro: exI [of _ "[i]"])
qed

lemma send_probe_kept:
  assumes "send_probe t s = (r, s')"
  shows "sv_socket s' = sv_socket s \<and> sv_pending s' = sv_pending s
    \<and> r \<noteq> Inl ''pending websocket work limit exceeded''"
  using assms
  by (auto simp: send_probe_def send_frame_before_def split: prod.splits option.splits sum.splits
      if_splits)

definition kept :: "service \<Rightarrow> service \<Rightarrow> bool" where
  "kept s s' \<longleftrightarrow> pending_inv (sv_pending s') \<and> small_items s' \<and> served s s'"

text \<open>An error of the pass that is not the work's own is not the queue limit.\<close>

definition no_overflow :: "'a turn \<Rightarrow> (string + 'a) option \<Rightarrow> bool" where
  "no_overflow t r \<longleftrightarrow>
     (r = Some (Inl ''pending websocket work limit exceeded'') \<longrightarrow>
      (\<exists>b. tn_selected t = SelWork (Inl ''pending websocket work limit exceeded'') b))"

lemma select_branch_kept:
  assumes "select_branch t s = (r, s')" and "small_items s" and "pending_inv (sv_pending s)"
  shows "pending_inv (sv_pending s') \<and> no_overflow t r
    \<and> ((\<exists>e. r = Some (Inl e)) \<or> small_items s' \<and> served s s')"
proof (cases "tn_selected t")
  case (SelFrame still)
  show ?thesis
  proof (cases "is_full (sv_pending s) \<or> \<not> still")
    case True
    then show ?thesis
      using assms SelFrame
      by (cases "is_full (sv_pending s)"; cases still)
        (auto simp: select_branch_def no_overflow_def served_refl)
  next
    case False
    obtain r' s1 where take: "take_frame (tn_select_at t) s = (r', s1)"
      by (cases "take_frame (tn_select_at t) s")
    note kept = take_frame_kept [OF take _ assms(2,3)]
    show ?thesis
      using assms(1) SelFrame False take kept
      by (cases r') (auto simp: select_branch_def no_overflow_def)
  qed
qed (use assms in \<open>auto simp: select_branch_def no_overflow_def served_refl split: if_splits\<close>)

lemma service_turn_kept:
  assumes "service_turn t s = (r, s')" and "small_items s" and "pending_inv (sv_pending s)"
  shows "pending_inv (sv_pending s') \<and> no_overflow t r
    \<and> ((\<exists>e. r = Some (Inl e)) \<or> small_items s' \<and> served s s')"
proof (cases "tn_current t \<and> tn_start t < hb_deadline (sv_heartbeat s)")
  case False
  then show ?thesis
    using assms by (auto simp: service_turn_def no_overflow_def split: if_splits)
next
  case True
  obtain r1 s1 where first: "(if \<not> is_full (sv_pending s) \<and> tn_ready t
      then take_frame (tn_read_at t) s else (Inr (), s)) = (r1, s1)"
    by fastforce
  have one: "pending_inv (sv_pending s1) \<and> small_items s1
      \<and> r1 \<noteq> Inl ''pending websocket work limit exceeded'' \<and> (isl r1 \<or> served s s1)"
    using take_frame_kept [of "tn_read_at t" s r1 s1] first assms(2,3) served_refl
    by (auto split: if_splits)
  show ?thesis
  proof (cases r1)
    case (Inl e)
    then show ?thesis
      using assms(1) True first one by (auto simp: service_turn_def no_overflow_def)
  next
    case (Inr u)
    obtain r2 s2 where probe: "send_probe t s1 = (r2, s2)" by (cases "send_probe t s1")
    note two = send_probe_kept [OF probe]
    show ?thesis
    proof (cases r2)
      case (Inl e)
      then show ?thesis
        using assms(1) True first Inr probe two one by (auto simp: service_turn_def no_overflow_def)
    next
      case (Inr u')
      with True first \<open>r1 = Inr u\<close> probe assms(1) have sel: "select_branch t s2 = (r, s')"
        by (simp add: service_turn_def)
      have "small_items s2" "pending_inv (sv_pending s2)"
        using one two by (simp_all add: small_items_def)
      note three = select_branch_kept [OF sel this]
      have "served s s2" using one two \<open>r1 = Inr u\<close> by (auto simp: served_def)
      with three show ?thesis by (auto intro: served_trans)
    qed
  qed
qed

lemma service_loop_kept:
  assumes "service_loop ts s = (r, s')" and "small_items s" and "pending_inv (sv_pending s)"
    and "\<forall>t\<in>set ts. \<forall>b. tn_selected t \<noteq> SelWork (Inl ''pending websocket work limit exceeded'') b"
  shows "pending_inv (sv_pending s') \<and> r \<noteq> Some (Inl ''pending websocket work limit exceeded'')
    \<and> ((\<exists>e. r = Some (Inl e)) \<or> served s s')"
  using assms
proof (induction ts arbitrary: s)
  case Nil
  then show ?case by (auto simp: served_refl)
next
  case (Cons t ts)
  obtain r1 s1 where turn: "service_turn t s = (r1, s1)" by (cases "service_turn t s")
  note one = service_turn_kept [OF turn Cons.prems(2,3)]
  show ?case
  proof (cases r1)
    case None
    with Cons.prems(1) turn have "service_loop ts s1 = (r, s')" by simp
    with Cons.IH [of s1] one None Cons.prems(4)
    have "pending_inv (sv_pending s') \<and> r \<noteq> Some (Inl ''pending websocket work limit exceeded'')
        \<and> ((\<exists>e. r = Some (Inl e)) \<or> served s1 s')" by simp
    with one None show ?thesis by (auto intro: served_trans)
  next
    case (Some x)
    with Cons.prems(1) turn have "r = Some x" "s' = s1" by simp_all
    with one Some Cons.prems(4) show ?thesis by (auto simp: no_overflow_def)
  qed
qed

section \<open>Property\<close>


definition quiet_turn :: "nat selected \<Rightarrow> nat turn" where
  "quiet_turn sel = \<lparr>tn_current = True, tn_start = 1, tn_ready = True, tn_read_at = 1, tn_probe_at = 1,
     tn_ping = Some (Inr ()), tn_ping_done = 1, tn_selected = sel, tn_select_at = 1\<rparr>"

definition two_texts :: service where
  "two_texts = \<lparr>sv_socket = [Item (TextM ''a''), Item (PingM []), Item (TextM ''b'')],
     sv_heartbeat = hb_new 1, sv_pending = pending_default, sv_pongs = 0\<rparr>"


end
