(* ===== verification/Qr.thy ===== *)
theory Qr
  imports Json Relay_Auth "HOL-Library.Monad_Syntax"
begin

text \<open>
  desktop/core/src/qr.rs: the payload a pairing code carries, its compact binary form, the
  cursor that reads it back, and the link put into the QR. Texts are UTF-8 strings, the
  compact form a list of bytes. The base64 crate is the parameter \<open>base64\<close>; drawing the
  symbol, JSON text and PNG are the parameters of \<open>make_qr\<close>. IPv4 addresses and ports are
  read and printed as the standard library does.
\<close>

record base64 =
  b64_encode :: "bytes \<Rightarrow> string"
  b64url_encode :: "bytes \<Rightarrow> string"
  b64pad_free_decode :: "string \<Rightarrow> bytes option"
  b64url_decode :: "string \<Rightarrow> bytes option"

record qr_relay =
  qrr_url :: string
  qrr_account_key :: string
  qrr_pair_id :: string
  qrr_capability :: string

record qr_noise =
  qrn_desktop_key :: string
  qrn_psk :: string

record qr_payload =
  qr_v :: nat
  qr_mode :: string
  qr_endpoint :: string
  qr_endpoint_candidates :: "string list"
  qr_relay_url :: "string option"
  qr_device_pair_id :: "string option"
  qr_device_id :: string
  qr_pairing_key :: string
  qr_cert_fingerprint :: string
  qr_relay :: "qr_relay option"
  qr_noise :: "qr_noise option"

section \<open>Hexadecimal\<close>

definition byte_char :: "u8 \<Rightarrow> char" where
  "byte_char b = char_of (unat b)"

definition hex_digit :: "char \<Rightarrow> nat option" where
  "hex_digit c =
     (let n = (of_char c :: nat) in
      if 48 \<le> n \<and> n \<le> 57 then Some (n - 48)
      else if 97 \<le> n \<and> n \<le> 102 then Some (n - 87)
      else if 65 \<le> n \<and> n \<le> 70 then Some (n - 55)
      else None)"

definition hex_char :: "nat \<Rightarrow> char" where
  "hex_char d = (if d < 10 then char_of (48 + d) else char_of (87 + d))"

text \<open>
  \<open>u8::from_str_radix(_, 16)\<close> takes a sign: a leading plus is skipped unless it stands alone.
\<close>

definition from_str_radix_16 :: "string \<Rightarrow> u8 option" where
  "from_str_radix_16 s =
     (let ds = (if length s > 1 \<and> hd s = CHR ''+'' then tl s else s)
      in if ds = [] then None
         else case those (map hex_digit ds) of
                None \<Rightarrow> None
              | Some vs \<Rightarrow>
                  (let n = foldl (\<lambda>a d. a * 16 + d) 0 vs
                   in if n < 256 then Some (of_nat n) else None))"

definition hex_byte :: "string \<Rightarrow> u8 option" where
  "hex_byte pair = (if utf8_valid pair then from_str_radix_16 pair else None)"

definition hex_bytes :: "nat \<Rightarrow> string \<Rightarrow> bytes option" where
  "hex_bytes n value =
     (if length value \<noteq> n * 2 then None else those (map hex_byte (chunks 2 value)))"

definition hex_of_byte :: "u8 \<Rightarrow> string" where
  "hex_of_byte b = [hex_char (unat b div 16), hex_char (unat b mod 16)]"

definition hex_string :: "bytes \<Rightarrow> string" where
  "hex_string bs = concat (map hex_of_byte bs)"

definition uuid_bytes :: "string \<Rightarrow> bytes option" where
  "uuid_bytes value = hex_bytes 16 (filter (\<lambda>c. c \<noteq> CHR ''-'') value)"

definition uuid_string :: "bytes \<Rightarrow> string" where
  "uuid_string bs =
     (let hex = hex_string bs
      in take 8 hex @ ''-'' @ take 4 (drop 8 hex) @ ''-'' @ take 4 (drop 12 hex) @ ''-''
         @ take 4 (drop 16 hex) @ ''-'' @ take 12 (drop 20 hex))"

section \<open>Addresses\<close>

definition rsplit_once :: "char \<Rightarrow> string \<Rightarrow> (string \<times> string) option" where
  "rsplit_once c s = map_option (\<lambda>(b, a). (rev a, rev b)) (split_once c (rev s))"

definition parse_octet :: "string \<Rightarrow> u8 option" where
  "parse_octet s =
     (if s = [] \<or> 3 < length s \<or> \<not> list_all is_digit s \<or> (1 < length s \<and> hd s = CHR ''0'')
         \<or> 255 < decimal_value s
      then None else Some (of_nat (decimal_value s)))"

definition parse_ipv4 :: "string \<Rightarrow> bytes option" where
  "parse_ipv4 s =
     (let parts = split_on CHR ''.'' s
      in if length parts \<noteq> 4 then None else those (map parse_octet parts))"

definition show_ipv4 :: "bytes \<Rightarrow> string" where
  "show_ipv4 ip = join CHR ''.'' (map (\<lambda>b. decimal (unat b)) ip)"

definition parse_u16 :: "string \<Rightarrow> nat option" where
  "parse_u16 s = Option.bind (parse_u64 s) (\<lambda>n. if n < 2 ^ 16 then Some n else None)"

definition socket_parts :: "string \<Rightarrow> (bytes \<times> nat) option" where
  "socket_parts candidate = do {
     rest \<leftarrow> strip_prefix ''wss://'' candidate;
     (host, port) \<leftarrow> rsplit_once CHR '':'' rest;
     ip \<leftarrow> parse_ipv4 host;
     p \<leftarrow> parse_u16 port;
     Some (ip, p) }"

section \<open>Base64\<close>

definition trim_end_equals :: "string \<Rightarrow> string" where
  "trim_end_equals s = rev (dropWhile (\<lambda>c. c = CHR ''='') (rev s))"

definition b64_bytes :: "base64 \<Rightarrow> nat \<Rightarrow> string \<Rightarrow> bytes option" where
  "b64_bytes b n value =
     (let trimmed = trim_end_equals value;
          decoded = (case b64url_decode b trimmed of
                       Some bs \<Rightarrow> Some bs
                     | None \<Rightarrow> b64pad_free_decode b trimmed)
      in Option.bind decoded (\<lambda>bs. if length bs = n then Some bs else None))"

section \<open>Encoding\<close>

definition COMPACT_VERSION :: u8 where "COMPACT_VERSION = 3"
definition COMPACT_FLAG_RELAY :: u8 where "COMPACT_FLAG_RELAY = 1"

fun push_candidates :: "string list \<Rightarrow> string list \<Rightarrow> string list" where
  "push_candidates seen [] = seen"
| "push_candidates seen (c # cs) =
     (if c \<in> set seen then push_candidates seen cs else push_candidates (seen @ [c]) cs)"

definition string_bytes :: "string \<Rightarrow> bytes" where
  "string_bytes s = map char_byte s"

definition len_byte :: "nat \<Rightarrow> bytes option" where
  "len_byte n = (if n < 256 then Some [of_nat n] else None)"

definition encode_candidate :: "string \<Rightarrow> bytes option" where
  "encode_candidate candidate = do {
     (ip, port) \<leftarrow> socket_parts candidate;
     Some (ip @ be_bytes 2 port) }"

definition encode_relay_block :: "base64 \<Rightarrow> qr_relay \<Rightarrow> qr_noise \<Rightarrow> bytes option" where
  "encode_relay_block b relay noise = do {
     n \<leftarrow> len_byte (length (qrr_url relay));
     account \<leftarrow> hex_bytes 32 (qrr_account_key relay);
     pair \<leftarrow> hex_bytes 16 (qrr_pair_id relay);
     cap \<leftarrow> b64_bytes b 32 (qrr_capability relay);
     key \<leftarrow> b64_bytes b 32 (qrn_desktop_key noise);
     psk \<leftarrow> b64_bytes b 32 (qrn_psk noise);
     Some (n @ string_bytes (qrr_url relay) @ account @ pair @ cap @ key @ psk) }"

definition encode_compact :: "base64 \<Rightarrow> qr_payload \<Rightarrow> bytes option" where
  "encode_compact b payload =
     (if to_ascii_lowercase (qr_mode payload) \<noteq> ''local'' then None
      else if qr_relay_url payload \<noteq> None \<or> qr_device_pair_id payload \<noteq> None then None
      else do {
        relay \<leftarrow> (case (qr_relay payload, qr_noise payload) of
                    (Some r, Some n) \<Rightarrow> Some (Some (r, n))
                  | (None, None) \<Rightarrow> Some None
                  | _ \<Rightarrow> None);
        device \<leftarrow> uuid_bytes (qr_device_id payload);
        key \<leftarrow> hex_bytes 32 (qr_pairing_key payload);
        cert \<leftarrow> hex_bytes 32 (qr_cert_fingerprint payload);
        let candidates = push_candidates [] (qr_endpoint payload # qr_endpoint_candidates payload);
        count \<leftarrow> len_byte (length candidates);
        addresses \<leftarrow> those (map encode_candidate candidates);
        block \<leftarrow> (case relay of None \<Rightarrow> Some [] | Some (r, n) \<Rightarrow> encode_relay_block b r n);
        Some ([COMPACT_VERSION, if relay \<noteq> None then COMPACT_FLAG_RELAY else 0]
              @ device @ key @ cert @ count @ concat addresses @ block) })"

section \<open>Decoding\<close>

record compact_cursor =
  cc_bytes :: bytes
  cc_at :: nat

definition cursor_new :: "bytes \<Rightarrow> compact_cursor" where
  "cursor_new bs = \<lparr>cc_bytes = bs, cc_at = 0\<rparr>"

definition cursor_take :: "nat \<Rightarrow> compact_cursor \<Rightarrow> (bytes \<times> compact_cursor) option" where
  "cursor_take len c = do {
     e \<leftarrow> u64_checked_add (cc_at c) len;
     if cc_at c \<le> e \<and> e \<le> length (cc_bytes c)
       then Some (take len (drop (cc_at c) (cc_bytes c)), c\<lparr>cc_at := cc_at c + len\<rparr>)
       else None }"

definition cursor_byte :: "compact_cursor \<Rightarrow> (u8 \<times> compact_cursor) option" where
  "cursor_byte c = map_option (\<lambda>(slice, c'). (slice ! 0, c')) (cursor_take 1 c)"

definition cursor_finished :: "compact_cursor \<Rightarrow> bool" where
  "cursor_finished c \<longleftrightarrow> cc_at c = length (cc_bytes c)"

definition show_candidate :: "bytes \<Rightarrow> string" where
  "show_candidate raw = ''wss://'' @ show_ipv4 (take 4 raw) @ '':'' @ decimal (be_nat (drop 4 raw))"

fun read_candidates :: "nat \<Rightarrow> compact_cursor \<Rightarrow> (string list \<times> compact_cursor) option" where
  "read_candidates 0 c = Some ([], c)"
| "read_candidates (Suc n) c = do {
     (raw, c1) \<leftarrow> cursor_take 6 c;
     (cs, c2) \<leftarrow> read_candidates n c1;
     Some (show_candidate raw # cs, c2) }"

definition read_relay_block ::
  "base64 \<Rightarrow> compact_cursor \<Rightarrow> ((qr_relay \<times> qr_noise) \<times> compact_cursor) option" where
  "read_relay_block b c0 = do {
     (url_len, c1) \<leftarrow> cursor_byte c0;
     (url_bytes, c2) \<leftarrow> cursor_take (unat url_len) c1;
     url \<leftarrow> (let s = map byte_char url_bytes in if utf8_valid s then Some s else None);
     (account, c3) \<leftarrow> cursor_take 32 c2;
     (pair, c4) \<leftarrow> cursor_take 16 c3;
     (cap, c5) \<leftarrow> cursor_take 32 c4;
     (key, c6) \<leftarrow> cursor_take 32 c5;
     (psk, c7) \<leftarrow> cursor_take 32 c6;
     Some ((\<lparr>qrr_url = url, qrr_account_key = hex_string account, qrr_pair_id = hex_string pair,
             qrr_capability = b64url_encode b cap\<rparr>,
            \<lparr>qrn_desktop_key = b64_encode b key, qrn_psk = b64_encode b psk\<rparr>), c7) }"

definition decode_compact :: "base64 \<Rightarrow> bytes \<Rightarrow> qr_payload option" where
  "decode_compact b bs = do {
     (version, c1) \<leftarrow> cursor_byte (cursor_new bs);
     if version \<noteq> COMPACT_VERSION then None else do {
       (flags, c2) \<leftarrow> cursor_byte c1;
       (device, c3) \<leftarrow> cursor_take 16 c2;
       (key, c4) \<leftarrow> cursor_take 32 c3;
       (cert, c5) \<leftarrow> cursor_take 32 c4;
       (count, c6) \<leftarrow> cursor_byte c5;
       (candidates, c7) \<leftarrow> read_candidates (unat count) c6;
       endpoint \<leftarrow> (case candidates of [] \<Rightarrow> None | e # _ \<Rightarrow> Some e);
       (block, c8) \<leftarrow> (if flags AND COMPACT_FLAG_RELAY \<noteq> 0
                        then map_option (\<lambda>(rn, c'). (Some rn, c')) (read_relay_block b c7)
                        else Some (None, c7));
       if \<not> cursor_finished c8 then None
       else Some
         \<lparr>qr_v = if block \<noteq> None then 2 else 1, qr_mode = ''local'', qr_endpoint = endpoint,
          qr_endpoint_candidates = candidates, qr_relay_url = None, qr_device_pair_id = None,
          qr_device_id = uuid_string device, qr_pairing_key = hex_string key,
          qr_cert_fingerprint = hex_string cert, qr_relay = map_option fst block,
          qr_noise = map_option snd block\<rparr> } }"

section \<open>The link in the symbol\<close>

definition is_unreserved :: "char \<Rightarrow> bool" where
  "is_unreserved c \<longleftrightarrow> (let n = (of_char c :: nat) in
     65 \<le> n \<and> n \<le> 90 \<or> 97 \<le> n \<and> n \<le> 122 \<or> 48 \<le> n \<and> n \<le> 57
     \<or> c \<in> set ''-_.~'')"

definition hex_upper_char :: "nat \<Rightarrow> char" where
  "hex_upper_char d = (if d < 10 then char_of (48 + d) else char_of (55 + d))"

definition percent_encode :: "string \<Rightarrow> string" where
  "percent_encode value = concat (map (\<lambda>c. if is_unreserved c then [c]
     else (let n = (of_char c :: nat)
           in [CHR ''%'', hex_upper_char (n div 16), hex_upper_char (n mod 16)])) value)"

definition compact_link :: "base64 \<Rightarrow> qr_payload \<Rightarrow> string option" where
  "compact_link b payload = do {
     bs \<leftarrow> encode_compact b payload;
     Some (''focusbridge://pair?c='' @ b64url_encode b bs) }"

text \<open>The derived \<open>Serialize\<close>: the renamed fields in order, empty and absent ones left out.\<close>

definition qr_relay_json :: "qr_relay \<Rightarrow> json" where
  "qr_relay_json r = JObject
     [(''url'', JString (qrr_url r)), (''accountKey'', JString (qrr_account_key r)),
      (''pairId'', JString (qrr_pair_id r)), (''capability'', JString (qrr_capability r))]"

definition qr_noise_json :: "qr_noise \<Rightarrow> json" where
  "qr_noise_json n = JObject
     [(''desktopKey'', JString (qrn_desktop_key n)), (''psk'', JString (qrn_psk n))]"

definition qr_payload_json :: "qr_payload \<Rightarrow> json" where
  "qr_payload_json p = JObject
     ([(''v'', JNumber (PosInt (qr_v p))), (''mode'', JString (qr_mode p)),
       (''endpoint'', JString (qr_endpoint p))]
      @ (if qr_endpoint_candidates p = [] then []
         else [(''endpointCandidates'', JArray (map JString (qr_endpoint_candidates p)))])
      @ (case qr_relay_url p of None \<Rightarrow> [] | Some u \<Rightarrow> [(''relayUrl'', JString u)])
      @ (case qr_device_pair_id p of None \<Rightarrow> [] | Some d \<Rightarrow> [(''devicePairId'', JString d)])
      @ [(''deviceId'', JString (qr_device_id p)), (''pairingKey'', JString (qr_pairing_key p)),
         (''certFingerprint'', JString (qr_cert_fingerprint p))]
      @ (case qr_relay p of None \<Rightarrow> [] | Some r \<Rightarrow> [(''relay'', qr_relay_json r)])
      @ (case qr_noise p of None \<Rightarrow> [] | Some n \<Rightarrow> [(''noise'', qr_noise_json n)]))"

record qr_output =
  qro_payload :: string
  qro_deep_link :: string
  qro_png_base64 :: string
  qro_expires_at :: int

text \<open>
  \<open>print_json\<close> is \<open>serde_json::to_string\<close>, \<open>draw\<close> the symbol, its image of at least 768 pixels
  and the PNG bytes; both may fail.
\<close>

definition make_qr ::
  "base64 \<Rightarrow> (json \<Rightarrow> string option) \<Rightarrow> (string \<Rightarrow> bytes option) \<Rightarrow> qr_payload \<Rightarrow> int
    \<Rightarrow> qr_output option" where
  "make_qr b print_json draw payload expires_at = do {
     text \<leftarrow> print_json (qr_payload_json payload);
     let deep_link = (case compact_link b payload of
                        Some link \<Rightarrow> link
                      | None \<Rightarrow> ''focusbridge://pair?payload='' @ percent_encode text);
     png \<leftarrow> draw deep_link;
     Some \<lparr>qro_payload = text, qro_deep_link = deep_link, qro_png_base64 = b64_encode b png,
           qro_expires_at = expires_at\<rparr> }"

section \<open>The primitives invert each other\<close>

lemma those_map_Some: "(\<And>x. x \<in> set xs \<Longrightarrow> f x = Some (g x)) \<Longrightarrow> those (map f xs) = Some (map g xs)"
  by (induction xs) auto

lemma those_length: "those xs = Some ys \<Longrightarrow> length ys = length xs"
  by (induction xs arbitrary: ys) (auto split: option.splits)

lemma those_concat_length:
  "those (map f xs) = Some yss \<Longrightarrow> (\<And>x y. x \<in> set xs \<Longrightarrow> f x = Some y \<Longrightarrow> length y = n) \<Longrightarrow>
    length (concat yss) = n * length xs"
proof (induction xs arbitrary: yss)
  case Nil
  then show ?case by simp
next
  case (Cons x xs)
  then obtain y ys where "yss = y # ys" "f x = Some y" "those (map f xs) = Some ys"
    by (auto split: option.splits)
  moreover from this have "length (concat ys) = n * length xs"
    by (intro Cons.IH) (auto intro: Cons.prems(2))
  moreover have "length y = n" by (rule Cons.prems(2)) (use calculation in simp_all)
  ultimately show ?case by simp
qed

lemma of_char_hex_char: "d < 16 \<Longrightarrow> (of_char (hex_char d) :: nat) = (if d < 10 then 48 + d else 87 + d)"
  by (simp add: hex_char_def)

lemma hex_digit_hex_char: "d < 16 \<Longrightarrow> hex_digit (hex_char d) = Some d"
  using of_char_hex_char [of d] by (auto simp: hex_digit_def)

lemma hex_char_ascii: "d < 16 \<Longrightarrow> (of_char (hex_char d) :: nat) \<le> 0x7F"
  by (simp add: of_char_hex_char)

lemma hex_char_plain:
  assumes "d < 16"
  shows "hex_char d \<noteq> CHR ''-''" "hex_char d \<noteq> CHR ''+''"
proof -
  have "(of_char (hex_char d) :: nat) \<noteq> of_char (CHR ''-'')"
    "(of_char (hex_char d) :: nat) \<noteq> of_char (CHR ''+'')"
    unfolding of_char_hex_char [OF assms] by simp_all
  then show "hex_char d \<noteq> CHR ''-''" "hex_char d \<noteq> CHR ''+''" by metis+
qed

lemma nibbles: "unat (b :: u8) div 16 < 16" "unat (b :: u8) mod 16 < 16"
proof -
  have "unat b < 16 * 16" using unat_u8_less [of b] by linarith
  then show "unat b div 16 < 16" by (simp only: less_mult_imp_div_less)
qed simp

lemma hex_byte_hex [simp]: "hex_byte (hex_of_byte b) = Some b"
proof -
  have "utf8_valid (hex_of_byte b)"
    by (rule utf8_valid_ascii) (use hex_char_ascii nibbles [of b] in \<open>simp add: hex_of_byte_def\<close>)
  moreover have "unat b div 16 * 16 + unat b mod 16 = unat b" by simp
  ultimately show ?thesis
    using hex_char_plain [OF nibbles(1) [of b]] nibbles [of b]
    by (simp add: hex_byte_def from_str_radix_16_def hex_of_byte_def hex_digit_hex_char)
qed

lemma length_hex_string [simp]: "length (hex_string bs) = 2 * length bs"
  by (induction bs) (simp_all add: hex_string_def hex_of_byte_def)

lemma chunks_hex_string: "chunks 2 (hex_string bs) = map hex_of_byte bs"
  by (induction bs) (simp_all add: hex_string_def hex_of_byte_def chunks_nonempty)

lemma hex_bytes_hex_string: "length bs = n \<Longrightarrow> hex_bytes n (hex_string bs) = Some bs"
proof -
  assume "length bs = n"
  moreover have "those (map hex_byte (map hex_of_byte bs)) = Some bs"
    by (induction bs) simp_all
  ultimately show ?thesis by (simp add: hex_bytes_def chunks_hex_string)
qed

lemma hex_bytes_length: "hex_bytes n s = Some bs \<Longrightarrow> length bs = n"
proof -
  assume a: "hex_bytes n s = Some bs"
  have "length (chunks 2 s) = n" if "length s = n * 2" for s :: string
    using that
  proof (induction n arbitrary: s)
    case 0
    then show ?case by simp
  next
    case (Suc n)
    then have "s \<noteq> []" "length (drop 2 s) = n * 2" by auto
    with Suc.IH [of "drop 2 s"] show ?case by (simp add: chunks_nonempty)
  qed
  with a show ?thesis by (auto simp: hex_bytes_def dest: those_length split: if_splits)
qed

lemma hex_string_plain: "c \<in> set (hex_string bs) \<Longrightarrow> c \<noteq> CHR ''-''"
proof -
  assume "c \<in> set (hex_string bs)"
  then obtain b :: u8 where "c = hex_char (unat b div 16) \<or> c = hex_char (unat b mod 16)"
    by (auto simp: hex_string_def hex_of_byte_def)
  then show ?thesis using hex_char_plain(1) nibbles by metis
qed

lemma uuid_bytes_uuid_string:
  assumes "length bs = 16"
  shows "uuid_bytes (uuid_string bs) = Some bs"
proof -
  let ?h = "hex_string bs"
  have keep: "filter (\<lambda>c. c \<noteq> CHR ''-'') s = s" if "set s \<subseteq> set ?h" for s
    using that hex_string_plain by (intro filter_True) blast
  have sub: "set (take m (drop k ?h)) \<subseteq> set ?h" "set (take m ?h) \<subseteq> set ?h" for m k
    by (meson set_drop_subset set_take_subset subset_trans)+
  have glue: "take 8 ?h @ take 4 (drop 8 ?h) @ take 4 (drop 12 ?h) @ take 4 (drop 16 ?h)
      @ take 12 (drop 20 ?h) = ?h"
  proof -
    have step: "take m (drop k ?h) @ drop (k + m) ?h = drop k ?h" for m k
      by (metis add.commute append_take_drop_id drop_drop)
    have "take 12 (drop 20 ?h) = drop 20 ?h" using assms by simp
    then show ?thesis
      using step [of 4 8] step [of 4 12] step [of 4 16] append_take_drop_id [of 8 ?h] by simp
  qed
  have "filter (\<lambda>c. c \<noteq> CHR ''-'') (uuid_string bs) = ?h"
    unfolding uuid_string_def Let_def filter_append keep [OF sub(1)] keep [OF sub(2)]
    using glue by simp
  then show ?thesis using assms by (simp add: uuid_bytes_def hex_bytes_hex_string)
qed

lemma uuid_bytes_length: "uuid_bytes s = Some bs \<Longrightarrow> length bs = 16"
  by (simp add: uuid_bytes_def hex_bytes_length)

lemma parse_octet_decimal: "parse_octet (decimal (unat (b :: u8))) = Some b"
proof -
  have "unat b < 10 ^ 3" by (rule less_trans [OF unat_u8_less]) simp
  then have "length (decimal (unat b)) \<le> 3" by (intro length_decimal_le) simp_all
  moreover have "\<not> (1 < length (decimal (unat b)) \<and> hd (decimal (unat b)) = CHR ''0'')"
    using decimal_hd_nonzero [of "unat b"] by (cases "unat b = 0") (simp_all add: decimal.simps [of 0])
  moreover have "list_all is_digit (decimal (unat b))"
    using decimal_digits by (simp add: list_all_iff)
  moreover have "unat b \<le> 255" using unat_u8_less [of b] by linarith
  ultimately show ?thesis by (auto simp: parse_octet_def)
qed

lemma parse_ipv4_show:
  assumes "length ip = 4"
  shows "parse_ipv4 (show_ipv4 ip) = Some ip"
proof -
  have parts: "split_on CHR ''.'' (show_ipv4 ip) = map (\<lambda>b. decimal (unat b)) ip"
    unfolding show_ipv4_def
  proof (rule split_on_join)
    show "map (\<lambda>b. decimal (unat b)) ip \<noteq> []" using assms by auto
    show "\<forall>p\<in>set (map (\<lambda>b. decimal (unat b)) ip). CHR ''.'' \<notin> set p"
      using decimal_no_char [of "CHR ''.''"] by (auto simp: is_digit_def)
  qed
  have "those (map parse_octet (map (\<lambda>b. decimal (unat b)) ip)) = Some ip"
    by (induction ip) (simp_all add: parse_octet_decimal)
  then show ?thesis using assms by (simp add: parse_ipv4_def parts)
qed

lemma parse_ipv4_length: "parse_ipv4 s = Some ip \<Longrightarrow> length ip = 4"
  by (auto simp: parse_ipv4_def Let_def dest: those_length split: if_splits)

lemma rsplit_once_append: "c \<notin> set b \<Longrightarrow> rsplit_once c (a @ c # b) = Some (a, b)"
  using split_once_append [of c "rev b" "rev a"] by (simp add: rsplit_once_def)

lemma socket_parts_show:
  assumes "length raw = 6"
  shows "socket_parts (show_candidate raw) = Some (take 4 raw, be_nat (drop 4 raw))"
proof -
  let ?ip = "show_ipv4 (take 4 raw)" and ?port = "decimal (be_nat (drop 4 raw))"
  have "CHR '':'' \<notin> set ?port" using decimal_no_char by (simp add: is_digit_def)
  then have "rsplit_once CHR '':'' (?ip @ CHR '':'' # ?port) = Some (?ip, ?port)"
    by (rule rsplit_once_append)
  moreover have "be_nat (drop 4 raw) < 2 ^ 16"
    using be_nat_bound [of "drop 4 raw"] assms by simp
  moreover have "strip_prefix ''wss://'' (show_candidate raw) = Some (?ip @ CHR '':'' # ?port)"
    by (simp add: strip_prefix_Some show_candidate_def)
  ultimately show ?thesis
    using assms
    by (simp add: socket_parts_def parse_ipv4_show parse_u16_def)
qed

lemma encode_candidate_show: "length raw = 6 \<Longrightarrow> encode_candidate (show_candidate raw) = Some raw"
proof -
  assume raw: "length raw = 6"
  then have "be_bytes 2 (be_nat (drop 4 raw)) = drop 4 raw"
    using be_bytes_be_nat [of "drop 4 raw"] by simp
  with raw show ?thesis by (simp add: encode_candidate_def socket_parts_show)
qed

lemma encode_candidate_length: "encode_candidate c = Some raw \<Longrightarrow> length raw = 6"
  by (auto simp: encode_candidate_def socket_parts_def parse_ipv4_length
      Option.bind_eq_Some_conv split: prod.splits)

lemma b64_bytes_length: "b64_bytes b n s = Some bs \<Longrightarrow> length bs = n"
  by (auto simp: b64_bytes_def Let_def Option.bind_eq_Some_conv split: if_splits)

lemma byte_char_string_bytes [simp]: "map byte_char (string_bytes s) = s"
proof -
  have "(of_char c :: nat) < 256" for c :: char by (rule nat_of_char_less_256) 
  then have "byte_char (char_byte c) = c" for c
    by (simp add: byte_char_def char_byte_def unat_of_nat_u8)
  then show ?thesis by (induction s) (simp_all add: string_bytes_def)
qed

lemma length_string_bytes [simp]: "length (string_bytes s) = length s"
  by (simp add: string_bytes_def)

section \<open>Reading what was written\<close>

text \<open>\<open>cursor_rest c rest\<close>: the cursor stands before \<open>rest\<close>, in a buffer a machine can hold.\<close>

definition cursor_rest :: "compact_cursor \<Rightarrow> bytes \<Rightarrow> bool" where
  "cursor_rest c rest \<longleftrightarrow> cc_at c \<le> length (cc_bytes c) \<and> length (cc_bytes c) < 2 ^ 64
     \<and> drop (cc_at c) (cc_bytes c) = rest"

definition advance :: "nat \<Rightarrow> compact_cursor \<Rightarrow> compact_cursor" where
  "advance n c = c\<lparr>cc_at := cc_at c + n\<rparr>"

lemma cursor_rest_new: "length bs < 2 ^ 64 \<Longrightarrow> cursor_rest (cursor_new bs) bs"
  by (simp add: cursor_rest_def cursor_new_def)

lemma cursor_take_rest:
  assumes "cursor_rest c (pre @ rest)" and "length pre = n"
  shows "cursor_take n c = Some (pre, advance n c)" and "cursor_rest (advance n c) rest"
proof -
  have len: "length (cc_bytes c) - cc_at c = n + length rest"
    using assms by (metis cursor_rest_def length_append length_drop)
  then have "cc_at c + n \<le> length (cc_bytes c)"
    using assms(1) by (auto simp: cursor_rest_def)
  then show "cursor_take n c = Some (pre, advance n c)"
    using assms by (simp add: cursor_take_def cursor_rest_def advance_def u64_checked_add_def)
  have "drop (cc_at c + n) (cc_bytes c) = drop n (drop (cc_at c) (cc_bytes c))"
    by (simp add: add.commute)
  with assms \<open>cc_at c + n \<le> _\<close> show "cursor_rest (advance n c) rest"
    by (simp add: cursor_rest_def advance_def)
qed

lemma cursor_byte_rest:
  assumes "cursor_rest c (b # rest)"
  shows "cursor_byte c = Some (b, advance 1 c)" and "cursor_rest (advance 1 c) rest"
  using cursor_take_rest [of c "[b]" rest 1] assms by (simp_all add: cursor_byte_def)

lemma cursor_finished_rest: "cursor_rest c [] \<Longrightarrow> cursor_finished c"
  by (simp add: cursor_rest_def cursor_finished_def)

lemma read_candidates_rest:
  assumes "cursor_rest c (concat raws @ rest)" and "\<forall>raw\<in>set raws. length raw = 6"
  shows "\<exists>c'. read_candidates (length raws) c = Some (map show_candidate raws, c')
    \<and> cursor_rest c' rest"
  using assms
proof (induction raws arbitrary: c)
  case Nil
  then show ?case by simp
next
  case (Cons raw raws)
  then have "cursor_rest c (raw @ concat raws @ rest)" "length raw = 6" by simp_all
  note took = cursor_take_rest [OF this]
  with Cons.IH [of "advance 6 c"] Cons.prems(2) obtain c' where
    "read_candidates (length raws) (advance 6 c) = Some (map show_candidate raws, c')"
    "cursor_rest c' rest" by auto
  with took(1) show ?case by simp
qed

lemma read_relay_block_rest:
  assumes c: "cursor_rest c (of_nat (length url) # string_bytes url @ acct @ pair @ cap @ key @ psk)"
    and url: "length url < 256" "utf8_valid url"
    and lens: "length acct = 32" "length pair = 16" "length cap = 32" "length key = 32" "length psk = 32"
  shows "\<exists>c'. read_relay_block b c =
      Some ((\<lparr>qrr_url = url, qrr_account_key = hex_string acct, qrr_pair_id = hex_string pair,
              qrr_capability = b64url_encode b cap\<rparr>,
             \<lparr>qrn_desktop_key = b64_encode b key, qrn_psk = b64_encode b psk\<rparr>), c')
    \<and> cursor_rest c' []"
proof -
  have n: "unat (of_nat (length url) :: u8) = length url"
    using url(1) by (simp add: unat_of_nat_u8)
  note c1 = cursor_byte_rest [OF c]
  note c2 = cursor_take_rest [OF c1(2), where n = "length url", simplified]
  
  note c3 = cursor_take_rest [OF c2(2) lens(1)]
  note c4 = cursor_take_rest [OF c3(2) lens(2)]
  note c5 = cursor_take_rest [OF c4(2) lens(3)]
  note c6 = cursor_take_rest [OF c5(2) lens(4)]
  have "cursor_rest (advance 32 (advance 32 (advance 16 (advance 32
      (advance (length url) (advance (Suc 0) c)))))) (psk @ [])" using c6(2) by simp
  note c7 = cursor_take_rest [OF this lens(5)]
  show ?thesis
    by (rule exI, rule conjI [OF _ c7(2)])
      (simp add: read_relay_block_def c1(1) n c2(1) c3(1) c4(1) c5(1) c6(1) c7(1) url(2))
qed

section \<open>The round trip\<close>

text \<open>
  What the decoder returns for an encoded payload: every identifier printed from the bytes it
  encodes, the endpoint first among the distinct candidates, and the version the relay implies.
\<close>

definition reprint :: "(string \<Rightarrow> bytes option) \<Rightarrow> (bytes \<Rightarrow> string) \<Rightarrow> string \<Rightarrow> string" where
  "reprint parse print s = (case parse s of None \<Rightarrow> s | Some bs \<Rightarrow> print bs)"

definition normal_relay :: "base64 \<Rightarrow> qr_relay \<Rightarrow> qr_relay" where
  "normal_relay b r =
     \<lparr>qrr_url = qrr_url r,
      qrr_account_key = reprint (hex_bytes 32) hex_string (qrr_account_key r),
      qrr_pair_id = reprint (hex_bytes 16) hex_string (qrr_pair_id r),
      qrr_capability = reprint (b64_bytes b 32) (b64url_encode b) (qrr_capability r)\<rparr>"

definition normal_noise :: "base64 \<Rightarrow> qr_noise \<Rightarrow> qr_noise" where
  "normal_noise b n =
     \<lparr>qrn_desktop_key = reprint (b64_bytes b 32) (b64_encode b) (qrn_desktop_key n),
      qrn_psk = reprint (b64_bytes b 32) (b64_encode b) (qrn_psk n)\<rparr>"

definition normal_payload :: "base64 \<Rightarrow> qr_payload \<Rightarrow> qr_payload" where
  "normal_payload b p =
     (let cs = map (reprint encode_candidate show_candidate)
                 (push_candidates [] (qr_endpoint p # qr_endpoint_candidates p))
      in \<lparr>qr_v = if qr_relay p \<noteq> None then 2 else 1, qr_mode = ''local'', qr_endpoint = hd cs,
          qr_endpoint_candidates = cs, qr_relay_url = None, qr_device_pair_id = None,
          qr_device_id = reprint uuid_bytes uuid_string (qr_device_id p),
          qr_pairing_key = reprint (hex_bytes 32) hex_string (qr_pairing_key p),
          qr_cert_fingerprint = reprint (hex_bytes 32) hex_string (qr_cert_fingerprint p),
          qr_relay = map_option (normal_relay b) (qr_relay p),
          qr_noise = map_option (normal_noise b) (qr_noise p)\<rparr>)"

lemma push_candidates_nonempty: "seen \<noteq> [] \<Longrightarrow> push_candidates seen cs \<noteq> []"
  by (induction seen cs rule: push_candidates.induct) auto

lemma push_candidates_distinct:
  "distinct (seen @ cs) \<Longrightarrow> push_candidates seen cs = seen @ cs"
  by (induction seen cs rule: push_candidates.induct) auto

lemma len_byte_Some: "len_byte n = Some bs \<longleftrightarrow> n < 256 \<and> bs = [of_nat n]"
  by (auto simp: len_byte_def)

lemma those_Some_map: "those (map f xs) = Some ys \<Longrightarrow>
    map g ys = map (\<lambda>x. case f x of None \<Rightarrow> h x | Some y \<Rightarrow> g y) xs"
  by (induction xs arbitrary: ys) (auto split: option.splits)

lemma those_members: "those (map f xs) = Some ys \<Longrightarrow> y \<in> set ys \<Longrightarrow> \<exists>x\<in>set xs. f x = Some y"
  by (induction xs arbitrary: ys) (auto split: option.splits)

lemma encode_relay_block_Some:
  assumes "encode_relay_block b r n = Some block"
  obtains acct pair cap key psk where
    "block = of_nat (length (qrr_url r)) # string_bytes (qrr_url r) @ acct @ pair @ cap @ key @ psk"
    and "length (qrr_url r) < 256" and "hex_bytes 32 (qrr_account_key r) = Some acct"
    and "hex_bytes 16 (qrr_pair_id r) = Some pair" and "b64_bytes b 32 (qrr_capability r) = Some cap"
    and "b64_bytes b 32 (qrn_desktop_key n) = Some key" and "b64_bytes b 32 (qrn_psk n) = Some psk"
  using assms
  by (auto simp: encode_relay_block_def len_byte_Some Option.bind_eq_Some_conv)

lemma decode_relay_block:
  assumes "encode_relay_block b r n = Some block" and "utf8_valid (qrr_url r)"
    and "cursor_rest c block"
  shows "\<exists>c'. read_relay_block b c = Some ((normal_relay b r, normal_noise b n), c')
    \<and> cursor_rest c' []"
proof -
  obtain acct pair cap key psk where
    block: "block = of_nat (length (qrr_url r)) # string_bytes (qrr_url r) @ acct @ pair @ cap @ key @ psk"
    and parts: "length (qrr_url r) < 256" "hex_bytes 32 (qrr_account_key r) = Some acct"
    "hex_bytes 16 (qrr_pair_id r) = Some pair" "b64_bytes b 32 (qrr_capability r) = Some cap"
    "b64_bytes b 32 (qrn_desktop_key n) = Some key" "b64_bytes b 32 (qrn_psk n) = Some psk"
    using assms(1) by (rule encode_relay_block_Some)
  have "length acct = 32" "length pair = 16" "length cap = 32" "length key = 32" "length psk = 32"
    using parts by (auto dest: hex_bytes_length b64_bytes_length)
  from read_relay_block_rest [OF assms(3) [unfolded block] parts(1) assms(2) this, of b]
  show ?thesis
    using parts by (simp add: normal_relay_def normal_noise_def reprint_def)
qed

lemma encode_relay_block_length: "encode_relay_block b r n = Some block \<Longrightarrow> length block < 500"
  by (erule encode_relay_block_Some) (auto dest!: hex_bytes_length b64_bytes_length)

lemma encode_compact_Some:
  assumes "encode_compact b p = Some bs"
  obtains device key cert raws block where
    "bs = COMPACT_VERSION # (if qr_relay p \<noteq> None then COMPACT_FLAG_RELAY else 0)
       # device @ key @ cert @ of_nat (length raws) # concat raws @ block"
    and "uuid_bytes (qr_device_id p) = Some device" and "hex_bytes 32 (qr_pairing_key p) = Some key"
    and "hex_bytes 32 (qr_cert_fingerprint p) = Some cert"
    and "those (map encode_candidate
           (push_candidates [] (qr_endpoint p # qr_endpoint_candidates p))) = Some raws"
    and "length raws < 256"
    and "(case (qr_relay p, qr_noise p) of (Some r, Some n) \<Rightarrow> encode_relay_block b r n = Some block
          | (None, None) \<Rightarrow> block = [] | _ \<Rightarrow> False)"
proof -
  define cs where "cs = push_candidates [] (qr_endpoint p # qr_endpoint_candidates p)"
  from assms obtain rel device key cert raws block where
    rel: "(case (qr_relay p, qr_noise p) of (Some r, Some n) \<Rightarrow> Some (Some (r, n))
       | (None, None) \<Rightarrow> Some None | _ \<Rightarrow> None) = Some rel"
    and ids: "uuid_bytes (qr_device_id p) = Some device" "hex_bytes 32 (qr_pairing_key p) = Some key"
    "hex_bytes 32 (qr_cert_fingerprint p) = Some cert"
    and n: "length cs < 256" and raws: "those (map encode_candidate cs) = Some raws"
    and block: "(case rel of None \<Rightarrow> Some [] | Some (r, n) \<Rightarrow> encode_relay_block b r n) = Some block"
    and bs: "bs = [COMPACT_VERSION, if rel \<noteq> None then COMPACT_FLAG_RELAY else 0]
              @ device @ key @ cert @ [of_nat (length cs)] @ concat raws @ block"
    by (auto simp: encode_compact_def cs_def Let_def Option.bind_eq_Some_conv len_byte_Some
        simp del: push_candidates.simps split: if_splits)
  have len: "length raws = length cs" using raws by (auto dest: those_length)
  have "rel \<noteq> None \<longleftrightarrow> qr_relay p \<noteq> None"
    and "(case (qr_relay p, qr_noise p) of (Some r, Some n) \<Rightarrow> encode_relay_block b r n = Some block
          | (None, None) \<Rightarrow> block = [] | _ \<Rightarrow> False)"
    using rel block by (auto split: option.splits)
  then show thesis
    using that [of device key cert raws block] ids n raws len bs by (simp add: cs_def)
qed

lemma decode_encode:
  assumes enc: "encode_compact b p = Some bs"
    and url: "\<forall>r. qr_relay p = Some r \<longrightarrow> utf8_valid (qrr_url r)"
  shows "decode_compact b bs = Some (normal_payload b p)"
proof -
  let ?cs = "push_candidates [] (qr_endpoint p # qr_endpoint_candidates p)"
  let ?flag = "if qr_relay p \<noteq> None then COMPACT_FLAG_RELAY else 0"
  obtain device key cert raws block where
    bs: "bs = COMPACT_VERSION # ?flag # device @ key @ cert @ of_nat (length raws) # concat raws @ block"
    and ids: "uuid_bytes (qr_device_id p) = Some device" "hex_bytes 32 (qr_pairing_key p) = Some key"
    "hex_bytes 32 (qr_cert_fingerprint p) = Some cert"
    and raws: "those (map encode_candidate ?cs) = Some raws" and n: "length raws < 256"
    and block: "(case (qr_relay p, qr_noise p) of (Some r, Some n) \<Rightarrow> encode_relay_block b r n = Some block
          | (None, None) \<Rightarrow> block = [] | _ \<Rightarrow> False)"
    using enc by (rule encode_compact_Some)
  have lens: "length device = 16" "length key = 32" "length cert = 32"
    using ids by (auto dest: uuid_bytes_length hex_bytes_length)
  have six: "\<forall>raw\<in>set raws. length raw = 6"
    using those_members [OF raws] by (auto dest: encode_candidate_length)
  have cands: "map show_candidate raws = map (reprint encode_candidate show_candidate) ?cs"
    using those_Some_map [OF raws, of show_candidate id] by (simp add: reprint_def cong: option.case_cong)
  have ne: "map show_candidate raws \<noteq> []"
    using cands push_candidates_nonempty [of "[qr_endpoint p]" "qr_endpoint_candidates p"] by simp
  have "length (concat raws) = 6 * length raws"
    using six by (induction raws) auto
  moreover have "length block < 500"
    using block by (auto split: option.splits dest: encode_relay_block_length)
  ultimately have "length bs < 2 ^ 64" using bs lens n by simp
  then have c0: "cursor_rest (cursor_new bs) (COMPACT_VERSION # ?flag # device @ key @ cert @
      of_nat (length raws) # concat raws @ block)"
    using cursor_rest_new bs by metis
  note c1 = cursor_byte_rest [OF c0]
  note c2 = cursor_byte_rest [OF c1(2)]
  note c3 = cursor_take_rest [OF c2(2) lens(1)]
  note c4 = cursor_take_rest [OF c3(2) lens(2)]
  note c5 = cursor_take_rest [OF c4(2) lens(3)]
  note c6 = cursor_byte_rest [OF c5(2)]
  from read_candidates_rest [OF c6(2) six] obtain c7 where
    c7: "read_candidates (length raws) (advance 1 (advance 32 (advance 32 (advance 16
          (advance 1 (advance 1 (cursor_new bs))))))) = Some (map show_candidate raws, c7)"
    and r7: "cursor_rest c7 block" by blast
  have n': "unat (of_nat (length raws) :: u8) = length raws"
    using n by (simp add: unat_of_nat_u8)
  have flag: "?flag AND COMPACT_FLAG_RELAY \<noteq> 0 \<longleftrightarrow> qr_relay p \<noteq> None"
    by (simp add: COMPACT_FLAG_RELAY_def)
  have blk: "\<exists>c8. (if ?flag AND COMPACT_FLAG_RELAY \<noteq> 0
        then map_option (\<lambda>(rn, c'). (Some rn, c')) (read_relay_block b c7)
        else Some (None, c7)) =
      Some (case (qr_relay p, qr_noise p) of (Some r, Some n) \<Rightarrow> Some (normal_relay b r, normal_noise b n)
            | _ \<Rightarrow> None, c8) \<and> cursor_finished c8"
    unfolding flag
    using block decode_relay_block [OF _ _ r7] url r7 cursor_finished_rest
    by (fastforce split: option.splits)
  then obtain c8 where c8: "(if ?flag AND COMPACT_FLAG_RELAY \<noteq> 0
        then map_option (\<lambda>(rn, c'). (Some rn, c')) (read_relay_block b c7)
        else Some (None, c7)) =
      Some (case (qr_relay p, qr_noise p) of (Some r, Some n) \<Rightarrow> Some (normal_relay b r, normal_noise b n)
            | _ \<Rightarrow> None, c8)" "cursor_finished c8" by blast
  obtain e es where es: "map show_candidate raws = e # es"
    using ne by (cases "map show_candidate raws") auto
  have "decode_compact b bs = Some
     \<lparr>qr_v = if qr_relay p \<noteq> None then 2 else 1, qr_mode = ''local'', qr_endpoint = e,
      qr_endpoint_candidates = map show_candidate raws, qr_relay_url = None,
      qr_device_pair_id = None, qr_device_id = uuid_string device, qr_pairing_key = hex_string key,
      qr_cert_fingerprint = hex_string cert, qr_relay = map_option (normal_relay b) (qr_relay p),
      qr_noise = map_option (normal_noise b) (qr_noise p)\<rparr>"
    unfolding decode_compact_def
    using c8(2) block
    by (simp only: c1(1) c2(1) c3(1) c4(1) c5(1) c6(1) n' c7 bind.bind_lunit prod.case c8(1) es list.case)
      (auto split: option.splits)
  moreover have "e = hd (map (reprint encode_candidate show_candidate) ?cs)"
    using cands es by (metis list.sel(1))
  ultimately show ?thesis
    using ids cands by (simp add: normal_payload_def reprint_def Let_def)
qed

section \<open>Property\<close>

text \<open>
  The documented behaviour of the base64 engines the code relies on: the URL-safe text has no
  padding and reads back; the standard text without its padding reads back with the standard
  engine, and with the URL-safe one it gives the same bytes or nothing.
\<close>

definition base64_laws :: "base64 \<Rightarrow> bool" where
  "base64_laws b \<longleftrightarrow> (\<forall>bs.
     b64url_decode b (b64url_encode b bs) = Some bs \<and> CHR ''='' \<notin> set (b64url_encode b bs)
     \<and> b64pad_free_decode b (trim_end_equals (b64_encode b bs)) = Some bs
     \<and> b64url_decode b (trim_end_equals (b64_encode b bs)) \<in> {None, Some bs})"

lemma trim_end_equals_id: "CHR ''='' \<notin> set s \<Longrightarrow> trim_end_equals s = s"
proof -
  assume "CHR ''='' \<notin> set s"
  then have "dropWhile (\<lambda>c. c = CHR ''='') (rev s) = rev s"
    unfolding dropWhile_eq_self_iff by (metis hd_in_set set_rev)
  then show ?thesis by (simp add: trim_end_equals_def)
qed

lemma b64_bytes_encode:
  assumes "base64_laws b" and "length bs = n"
  shows "b64_bytes b n (b64url_encode b bs) = Some bs" and "b64_bytes b n (b64_encode b bs) = Some bs"
proof -
  have "b64url_decode b (trim_end_equals (b64url_encode b bs)) = Some bs"
    using assms(1) by (simp add: base64_laws_def trim_end_equals_id)
  then show "b64_bytes b n (b64url_encode b bs) = Some bs"
    using assms(2) by (simp add: b64_bytes_def)
  have "b64pad_free_decode b (trim_end_equals (b64_encode b bs)) = Some bs"
    "b64url_decode b (trim_end_equals (b64_encode b bs)) \<in> {None, Some bs}"
    using assms(1) unfolding base64_laws_def by blast+
  then show "b64_bytes b n (b64_encode b bs) = Some bs"
    using assms(2) by (auto simp: b64_bytes_def)
qed

text \<open>
  The payload the desktop shows: identifiers printed from their bytes, distinct LAN addresses
  with the endpoint first, relay and Noise blocks together or not at all.
\<close>

definition shown_relay :: "base64 \<Rightarrow> qr_relay \<Rightarrow> bool" where
  "shown_relay b r \<longleftrightarrow> length (qrr_url r) < 256 \<and> utf8_valid (qrr_url r)
     \<and> (\<exists>bs. length bs = 32 \<and> qrr_account_key r = hex_string bs)
     \<and> (\<exists>bs. length bs = 16 \<and> qrr_pair_id r = hex_string bs)
     \<and> (\<exists>bs. length bs = 32 \<and> qrr_capability r = b64url_encode b bs)"

definition shown_noise :: "base64 \<Rightarrow> qr_noise \<Rightarrow> bool" where
  "shown_noise b n \<longleftrightarrow> (\<exists>bs. length bs = 32 \<and> qrn_desktop_key n = b64_encode b bs)
     \<and> (\<exists>bs. length bs = 32 \<and> qrn_psk n = b64_encode b bs)"

definition shown_payload :: "base64 \<Rightarrow> qr_payload \<Rightarrow> bool" where
  "shown_payload b p \<longleftrightarrow> qr_mode p = ''local'' \<and> qr_relay_url p = None \<and> qr_device_pair_id p = None
     \<and> qr_v p = (if qr_relay p = None then 1 else 2)
     \<and> (\<exists>bs. length bs = 16 \<and> qr_device_id p = uuid_string bs)
     \<and> (\<exists>bs. length bs = 32 \<and> qr_pairing_key p = hex_string bs)
     \<and> (\<exists>bs. length bs = 32 \<and> qr_cert_fingerprint p = hex_string bs)
     \<and> (\<exists>raw raws. length (raw # raws) < 256 \<and> distinct (map show_candidate (raw # raws))
          \<and> (\<forall>r\<in>set (raw # raws). length r = 6) \<and> qr_endpoint p = show_candidate raw
          \<and> qr_endpoint_candidates p = map show_candidate (raw # raws))
     \<and> (case (qr_relay p, qr_noise p) of (None, None) \<Rightarrow> True
        | (Some r, Some n) \<Rightarrow> shown_relay b r \<and> shown_noise b n | _ \<Rightarrow> False)"

lemma shown_relay_block:
  assumes "base64_laws b" and "shown_relay b r" and "shown_noise b n"
  shows "\<exists>block. encode_relay_block b r n = Some block"
    and "normal_relay b r = r" and "normal_noise b n = n"
  using assms
  by (auto simp: shown_relay_def shown_noise_def encode_relay_block_def normal_relay_def
      normal_noise_def reprint_def hex_bytes_hex_string b64_bytes_encode len_byte_Some
      Option.bind_eq_Some_conv)

lemma reprint_candidates:
  "\<forall>r\<in>set raws. length r = 6 \<Longrightarrow>
    those (map encode_candidate (map show_candidate raws)) = Some raws
    \<and> map (reprint encode_candidate show_candidate) (map show_candidate raws) = map show_candidate raws"
  by (induction raws) (simp_all add: encode_candidate_show reprint_def)

lemma shown_encodes:
  assumes "base64_laws b" and "shown_payload b p"
  shows "\<exists>bs. encode_compact b p = Some bs" and "normal_payload b p = p"
proof -
  obtain raw raws where n: "length (raw # raws) < 256"
    and d: "distinct (map show_candidate (raw # raws))" and six: "\<forall>r\<in>set (raw # raws). length r = 6"
    and cs: "qr_endpoint p = show_candidate raw"
    "qr_endpoint_candidates p = map show_candidate (raw # raws)"
    using assms(2) unfolding shown_payload_def by blast
  have push: "push_candidates [] (qr_endpoint p # qr_endpoint_candidates p) = map show_candidate (raw # raws)"
    using push_candidates_distinct [of "[show_candidate raw]" "map show_candidate raws"] d
    by (simp add: cs)
  note re = reprint_candidates [OF six]
  obtain device key cert where ids: "length device = 16" "qr_device_id p = uuid_string device"
    "length key = 32" "qr_pairing_key p = hex_string key"
    "length cert = 32" "qr_cert_fingerprint p = hex_string cert"
    using assms(2) unfolding shown_payload_def by blast
  note prim = uuid_bytes_uuid_string [OF ids(1)] hex_bytes_hex_string [OF ids(3)]
    hex_bytes_hex_string [OF ids(5)]
  consider "qr_relay p = None" "qr_noise p = None"
    | r n block where "qr_relay p = Some r" "qr_noise p = Some n" "normal_relay b r = r"
      "normal_noise b n = n" "encode_relay_block b r n = Some block"
  proof -
    have "(case (qr_relay p, qr_noise p) of (None, None) \<Rightarrow> True
        | (Some r, Some n) \<Rightarrow> shown_relay b r \<and> shown_noise b n | _ \<Rightarrow> False)"
      using assms(2) by (simp add: shown_payload_def)
    then consider "qr_relay p = None" "qr_noise p = None"
      | r n where "qr_relay p = Some r" "qr_noise p = Some n" "shown_relay b r" "shown_noise b n"
      by (auto split: option.splits)
    then show thesis
      using shown_relay_block [OF assms(1)] that by cases blast+
  qed
  note blocks = this
  have mode: "to_ascii_lowercase ''local'' = ''local''" by code_simp
  have gate: "qr_mode p = ''local''" "qr_relay_url p = None" "qr_device_pair_id p = None"
    "qr_v p = (if qr_relay p = None then 1 else 2)"
    using assms(2) by (simp_all add: shown_payload_def)
  have count: "len_byte (length (map show_candidate (raw # raws))) = Some [of_nat (length (raw # raws))]"
    "len_byte (Suc (length raws)) = Some [of_nat (length (raw # raws))]"
    using n by (simp_all add: len_byte_def)
  note re' = conjunct1 [OF re, unfolded map_map]
  show "\<exists>bs. encode_compact b p = Some bs"
    using blocks
    by cases (simp_all add: encode_compact_def gate mode ids prim push re re' count
        del: push_candidates.simps list.map)
  have norm: "map (reprint encode_candidate show_candidate)
      (push_candidates [] (qr_endpoint p # qr_endpoint_candidates p)) = qr_endpoint_candidates p"
    unfolding push using re by (simp add: cs)
  have "normal_payload b p = \<lparr>qr_v = qr_v p, qr_mode = qr_mode p, qr_endpoint = qr_endpoint p,
      qr_endpoint_candidates = qr_endpoint_candidates p, qr_relay_url = None,
      qr_device_pair_id = None, qr_device_id = qr_device_id p, qr_pairing_key = qr_pairing_key p,
      qr_cert_fingerprint = qr_cert_fingerprint p, qr_relay = map_option (normal_relay b) (qr_relay p),
      qr_noise = map_option (normal_noise b) (qr_noise p)\<rparr>"
    unfolding normal_payload_def Let_def norm using prim
    by (simp add: gate ids cs reprint_def)
  also have "\<dots> = p"
    using blocks by cases (rule qr_payload.equality; simp add: gate)+
  finally show "normal_payload b p = p" .
qed

text \<open>C22: every pairing payload of the shape the desktop shows has a compact form, and decoding
  that form gives back the same payload, field for field.\<close>

theorem compact_roundtrip:
  assumes "base64_laws b" and "shown_payload b p"
  shows "\<exists>bs. encode_compact b p = Some bs \<and> decode_compact b bs = Some p"
proof -
  obtain bs where bs: "encode_compact b p = Some bs" using shown_encodes(1) [OF assms] by blast
  have "\<forall>r. qr_relay p = Some r \<longrightarrow> utf8_valid (qrr_url r)"
    using assms(2) by (auto simp: shown_payload_def shown_relay_def split: option.splits)
  from decode_encode [OF bs this] bs show ?thesis by (simp add: shown_encodes(2) [OF assms])
qed

text \<open>Witness: a base64 instance that prints in hexadecimal, and a LAN pairing with a relay.\<close>

definition hex_base64 :: base64 where
  "hex_base64 = \<lparr>b64_encode = hex_string, b64url_encode = hex_string,
     b64pad_free_decode = (\<lambda>s. hex_bytes (length s div 2) s),
     b64url_decode = (\<lambda>s. hex_bytes (length s div 2) s)\<rparr>"

lemma hex_base64_laws: "base64_laws hex_base64"
proof -
  have eq: "CHR ''='' \<notin> set (hex_string bs)" for bs
  proof
    assume "CHR ''='' \<in> set (hex_string bs)"
    then obtain b :: u8 where "CHR ''='' = hex_char (unat b div 16) \<or> CHR ''='' = hex_char (unat b mod 16)"
      by (auto simp: hex_string_def hex_of_byte_def)
    then obtain d where d: "d < 16" "CHR ''='' = hex_char d" using nibbles by metis
    then have "(of_char (CHR ''='') :: nat) = (if d < 10 then 48 + d else 87 + d)"
      using of_char_hex_char by metis
    then show False using d(1) by (auto split: if_splits)
  qed
  then show ?thesis
    by (simp add: base64_laws_def hex_base64_def trim_end_equals_id hex_bytes_hex_string)
qed

definition sample_relay :: qr_relay where
  "sample_relay = \<lparr>qrr_url = ''https://r.example'', qrr_account_key = hex_string (replicate 32 1),
     qrr_pair_id = hex_string (replicate 16 2), qrr_capability = hex_string (replicate 32 3)\<rparr>"

definition sample_noise :: qr_noise where
  "sample_noise = \<lparr>qrn_desktop_key = hex_string (replicate 32 4), qrn_psk = hex_string (replicate 32 5)\<rparr>"

definition sample_payload :: qr_payload where
  "sample_payload = \<lparr>qr_v = 2, qr_mode = ''local'', qr_endpoint = show_candidate [192, 168, 4, 23, 35, 213],
     qr_endpoint_candidates = map show_candidate [[192, 168, 4, 23, 35, 213], [172, 20, 16, 1, 35, 213]],
     qr_relay_url = None, qr_device_pair_id = None, qr_device_id = uuid_string (replicate 16 6),
     qr_pairing_key = hex_string (replicate 32 7), qr_cert_fingerprint = hex_string (replicate 32 8),
     qr_relay = Some sample_relay, qr_noise = Some sample_noise\<rparr>"

lemma printed: "length bs = n \<Longrightarrow> \<exists>cs. length cs = n \<and> f bs = f cs" for f :: "bytes \<Rightarrow> string"
  by blast

lemma sample_relay_shown: "shown_relay hex_base64 sample_relay"
proof -
  have "utf8_valid (qrr_url sample_relay)"
    by (rule utf8_valid_ascii) (simp add: sample_relay_def)
  then show ?thesis
    unfolding shown_relay_def sample_relay_def hex_base64_def
    by (simp add: printed)
qed

lemma sample_noise_shown: "shown_noise hex_base64 sample_noise"
  unfolding shown_noise_def sample_noise_def hex_base64_def
  by (simp add: printed)

lemma sample_shown: "shown_payload hex_base64 sample_payload"
proof -
  let ?a = "[192, 168, 4, 23, 35, 213] :: bytes" and ?b = "[172, 20, 16, 1, 35, 213] :: bytes"
  have "encode_candidate (show_candidate ?a) \<noteq> encode_candidate (show_candidate ?b)"
    by (simp only: encode_candidate_show length_Cons list.size) simp
  then have "show_candidate ?a \<noteq> show_candidate ?b" by metis
  then have "\<exists>raw raws. length (raw # raws) < 256 \<and> distinct (map show_candidate (raw # raws))
      \<and> (\<forall>r\<in>set (raw # raws). length r = 6) \<and> qr_endpoint sample_payload = show_candidate raw
      \<and> qr_endpoint_candidates sample_payload = map show_candidate (raw # raws)"
    by (intro exI [of _ ?a] exI [of _ "[?b]"]) (simp add: sample_payload_def)
  then show ?thesis
    unfolding shown_payload_def using sample_relay_shown sample_noise_shown
    by (simp add: sample_payload_def printed)
qed

theorem compact_roundtrip_witness:
  "\<exists>bs. encode_compact hex_base64 sample_payload = Some bs
    \<and> decode_compact hex_base64 bs = Some sample_payload"
  using compact_roundtrip hex_base64_laws sample_shown by blast

text \<open>A sign is read as part of a byte: the first text is not hexadecimal, yet it encodes as
  the second.\<close>

lemma hex_bytes_takes_a_sign: "hex_bytes 2 ''+f0a'' = Some [15, 10]" "hex_bytes 2 ''0f0a'' = Some [15, 10]"
  by (simp_all add: hex_bytes_def chunks_nonempty hex_byte_def from_str_radix_16_def hex_digit_def)

end
