(* ===== verification/Relay_Pair.thy ===== *)
theory Relay_Pair
  imports Qr
begin

text \<open>
  desktop/core/src/relay.rs and secure_envelope.rs: the pair a relay provisions, the checks on
  its identifiers, the address of its socket, the control frames of the relay, and the
  encryption of an envelope under the pairing key. HKDF, AES-GCM and the text form of JSON are
  the parameters \<open>envelope_crypto\<close>; the nonce is an argument.
\<close>

record relay_pair =
  rp_url :: string
  rp_account_key :: string
  rp_pair_id :: string
  rp_desktop_capability :: string
  rp_phone_capability :: string
  rp_expires_at :: int

definition is_lower_hex :: "char \<Rightarrow> bool" where
  "is_lower_hex c \<longleftrightarrow> is_digit c \<or> (97 \<le> (of_char c :: nat) \<and> (of_char c :: nat) \<le> 102)"

definition lower_hex :: "string \<Rightarrow> nat \<Rightarrow> bool" where
  "lower_hex value len \<longleftrightarrow> length value = len \<and> list_all is_lower_hex value"

definition is_capability_char :: "char \<Rightarrow> bool" where
  "is_capability_char c \<longleftrightarrow> (let n = (of_char c :: nat) in
     48 \<le> n \<and> n \<le> 57 \<or> 65 \<le> n \<and> n \<le> 90 \<or> 97 \<le> n \<and> n \<le> 122 \<or> n = 45 \<or> n = 95)"

definition capability :: "string \<Rightarrow> bool" where
  "capability value \<longleftrightarrow> length value = 43 \<and> list_all is_capability_char value"

definition pair_is_valid :: "relay_pair \<Rightarrow> bool" where
  "pair_is_valid p \<longleftrightarrow>
     strip_prefix ''https://'' (rp_url p) \<noteq> None
     \<and> length ''https://'' < length (rp_url p)
     \<and> \<not> has_whitespace (rp_url p)
     \<and> lower_hex (rp_account_key p) 64
     \<and> lower_hex (rp_pair_id p) 32
     \<and> capability (rp_desktop_capability p)
     \<and> capability (rp_phone_capability p)"

definition trim_end_slash :: "string \<Rightarrow> string" where
  "trim_end_slash s = rev (dropWhile (\<lambda>c. c = CHR ''/'') (rev s))"

text \<open>\<open>replacen(_, _, 1)\<close>: the first occurrence, if any.\<close>

fun replace_first :: "string \<Rightarrow> string \<Rightarrow> string \<Rightarrow> string" where
  "replace_first k by_s [] = (if k = [] then by_s else [])"
| "replace_first k by_s (c # s) =
     (if take (length k) (c # s) = k then by_s @ drop (length k) (c # s)
      else c # replace_first k by_s s)"

definition socket_url :: "relay_pair \<Rightarrow> string \<Rightarrow> string" where
  "socket_url p role =
     replace_first ''https://'' ''wss://'' (trim_end_slash (rp_url p))
     @ ''/v1/socket/'' @ rp_account_key p @ ''/'' @ rp_pair_id p @ ''/'' @ role"

definition control_type :: "(string \<Rightarrow> json option) \<Rightarrow> string \<Rightarrow> string option" where
  "control_type parse_json text =
     (if 512 < length text then None
      else do { v \<leftarrow> parse_json text; t \<leftarrow> json_get ''type'' v; as_str t })"

definition hex_decode :: "string \<Rightarrow> bytes option" where
  "hex_decode s =
     (if length s mod 2 \<noteq> 0 then None
      else those (map (\<lambda>pair. case those (map hex_digit pair) of
                         Some [a, b] \<Rightarrow> Some (of_nat (a * 16 + b)) | _ \<Rightarrow> None) (chunks 2 s)))"

definition pair_id_bytes :: "string \<Rightarrow> bytes option" where
  "pair_id_bytes pair_id =
     (if \<not> lower_hex pair_id 32 then None
      else do { bs \<leftarrow> hex_decode pair_id; if length bs = 16 then Some bs else None })"

definition fingerprint_bytes :: "string \<Rightarrow> bytes option" where
  "fingerprint_bytes value =
     (if \<not> (length value = 64 \<and> list_all is_hexdigit value) then None
      else do { bs \<leftarrow> hex_decode value; if length bs = 32 then Some bs else None })"

section \<open>Encrypted envelopes\<close>

record envelope_crypto =
  ec_hkdf :: "string \<Rightarrow> string \<Rightarrow> string \<Rightarrow> bytes"
  ec_encrypt :: "bytes \<Rightarrow> bytes \<Rightarrow> string \<Rightarrow> bytes option"
  ec_decrypt :: "bytes \<Rightarrow> bytes \<Rightarrow> bytes \<Rightarrow> string option"
  ec_b64_encode :: "bytes \<Rightarrow> string"
  ec_b64_decode :: "string \<Rightarrow> bytes option"

definition INFO :: string where "INFO = ''FocusBridge message encryption v1''"

definition envelope_key :: "envelope_crypto \<Rightarrow> string \<Rightarrow> bytes" where
  "envelope_key c pairing_key = ec_hkdf c ''focusbridge-v1'' pairing_key INFO"

definition encrypt_envelope ::
  "envelope_crypto \<Rightarrow> bytes \<Rightarrow> string \<Rightarrow> string \<Rightarrow> json option" where
  "encrypt_envelope c nonce pairing_key plaintext_envelope = do {
     ciphertext \<leftarrow> ec_encrypt c (envelope_key c pairing_key) nonce plaintext_envelope;
     Some (JObject [(''version'', JNumber (PosInt 1)), (''type'', JString ''ENCRYPTED''),
       (''payload'', JObject
          [(''alg'', JString ''AES-256-GCM''), (''nonce'', JString (ec_b64_encode c nonce)),
           (''ciphertext'', JString (ec_b64_encode c ciphertext))])]) }"

definition decrypt_payload :: "envelope_crypto \<Rightarrow> string \<Rightarrow> json \<Rightarrow> string option" where
  "decrypt_payload c pairing_key payload = do {
     nonce_text \<leftarrow> get_str ''nonce'' payload;
     ciphertext_text \<leftarrow> get_str ''ciphertext'' payload;
     nonce \<leftarrow> ec_b64_decode c nonce_text;
     if length nonce \<noteq> 12 then None else do {
       ciphertext \<leftarrow> ec_b64_decode c ciphertext_text;
       plaintext \<leftarrow> ec_decrypt c (envelope_key c pairing_key) nonce ciphertext;
       if utf8_valid plaintext then Some plaintext else None } }"

section \<open>What the checks give\<close>

lemma replace_first_prefix: "replace_first k by_s (k @ s) = by_s @ s"
proof (cases "k @ s")
  case Nil
  then show ?thesis by simp
next
  case (Cons a l)
  moreover have "take (length k) (k @ s) = k" "drop (length k) (k @ s) = s" by simp_all
  ultimately show ?thesis by (simp del: take_append drop_append)
qed

lemma trim_end_slash_append: "\<exists>z. s = trim_end_slash s @ z \<and> set z \<subseteq> {CHR ''/''}"
proof -
  have "s = rev (dropWhile (\<lambda>c. c = CHR ''/'') (rev s)) @ rev (takeWhile (\<lambda>c. c = CHR ''/'') (rev s))"
    by (metis rev_append rev_rev_ident takeWhile_dropWhile_id)
  moreover have "set (rev (takeWhile (\<lambda>c. c = CHR ''/'') (rev s))) \<subseteq> {CHR ''/''}"
    by (auto dest: set_takeWhileD)
  ultimately show ?thesis unfolding trim_end_slash_def by metis
qed

text \<open>A host of a valid pair is dialed over TLS: its socket address starts with \<open>wss://\<close> and
  goes on with the host that followed \<open>https://\<close>.\<close>

lemma socket_url_dials_tls:
  assumes "pair_is_valid p" and "rp_url p = ''https://'' @ host" and "last host \<noteq> CHR ''/''"
  shows "socket_url p role = ''wss://'' @ host @ ''/v1/socket/'' @ rp_account_key p @ ''/''
    @ rp_pair_id p @ ''/'' @ role"
proof -
  have "host \<noteq> []" using assms(1,2) by (auto simp: pair_is_valid_def)
  then have l: "last (rp_url p) \<noteq> CHR ''/''" using assms(2,3) by simp
  obtain z where z: "rp_url p = trim_end_slash (rp_url p) @ z" "set z \<subseteq> {CHR ''/''}"
    using trim_end_slash_append by blast
  have "z = []"
  proof (rule ccontr)
    assume "z \<noteq> []"
    then have "last (rp_url p) \<in> set z" using z(1) by (metis last_appendR last_in_set)
    with z(2) l show False by blast
  qed
  then have "trim_end_slash (rp_url p) = ''https://'' @ host" using z(1) assms(2) by simp
  then show ?thesis by (simp only: socket_url_def replace_first_prefix append_assoc)
qed

lemma control_type_bounded: "control_type parse text = Some t \<Longrightarrow> length text \<le> 512"
  by (simp add: control_type_def split: if_splits)

section \<open>Encryption round trip\<close>

text \<open>
  Documented behaviour of the libraries: AES-GCM opens what it sealed under the same key and
  nonce, and standard base64 reads what it wrote.
\<close>

definition envelope_crypto_laws :: "envelope_crypto \<Rightarrow> bool" where
  "envelope_crypto_laws c \<longleftrightarrow>
     (\<forall>key nonce text ct. ec_encrypt c key nonce text = Some ct \<longrightarrow> ec_decrypt c key nonce ct = Some text)
     \<and> (\<forall>bs. ec_b64_decode c (ec_b64_encode c bs) = Some bs)"

lemma decrypt_encrypt:
  assumes "envelope_crypto_laws c" and "length nonce = 12" and "utf8_valid text"
    and "encrypt_envelope c nonce key text = Some v" and "json_get ''payload'' v = Some payload"
  shows "decrypt_payload c key payload = Some text"
proof -
  obtain ct where ct: "ec_encrypt c (envelope_key c key) nonce text = Some ct"
    and payload: "payload = JObject
          [(''alg'', JString ''AES-256-GCM''), (''nonce'', JString (ec_b64_encode c nonce)),
           (''ciphertext'', JString (ec_b64_encode c ct))]"
    using assms(4,5) by (auto simp: encrypt_envelope_def Option.bind_eq_Some_conv)
  have "ec_decrypt c (envelope_key c key) nonce ct = Some text"
    "ec_b64_decode c (ec_b64_encode c bs) = Some bs" for bs
    using assms(1) ct by (auto simp: envelope_crypto_laws_def)
  then show ?thesis
    using assms(2,3) by (simp add: decrypt_payload_def payload get_str_def)
qed

end
