(* ===== verification/Relay_Api.thy ===== *)
theory Relay_Api
  imports Local_Db_Facts Relay_Pair
begin

text \<open>
  desktop/src-tauri/src/sync/relay_api.rs: the preference to rejoin the last phone, the relay's
  address, and the pair this PC holds there. The relay's answer to a request is an argument: a
  status and a body, or nothing when it could not be reached.
\<close>

definition DEFAULT_RELAY_URL :: string where
  "DEFAULT_RELAY_URL = ''https://focusbridge-relay.focusbridge.workers.dev''"

definition URL_SETTING :: string where "URL_SETTING = ''relay.url''"
definition PAIR_SETTING :: string where "PAIR_SETTING = ''relay.current.pair''"
definition AUTO_CONNECT_SETTING :: string where "AUTO_CONNECT_SETTING = ''relay.auto_connect''"

definition auto_connect :: "bool db_op" where
  "auto_connect =
     db_bind (get_setting AUTO_CONNECT_SETTING) (\<lambda>v. db_return (v \<noteq> Some ''false''))"

definition set_auto_connect :: "bool \<Rightarrow> unit db_op" where
  "set_auto_connect enabled =
     set_setting AUTO_CONNECT_SETTING (if enabled then ''true'' else ''false'')"

definition relay_url :: "string db_op" where
  "relay_url =
     db_bind (get_setting URL_SETTING) (\<lambda>v.
       db_return (case map_option trim v of
           Some url \<Rightarrow> if url \<noteq> [] then url else DEFAULT_RELAY_URL
         | None \<Rightarrow> DEFAULT_RELAY_URL))"

definition set_relay_url :: "string \<Rightarrow> unit db_op" where
  "set_relay_url input =
     (let url = trim_end_slash (trim input)
      in if strip_prefix ''https://'' url \<noteq> None \<and> 8 < length url \<and> \<not> has_whitespace url
         then set_setting URL_SETTING url
         else db_fail ''the relay endpoint must be an https URL'')"

section \<open>The pair\<close>

definition json_of_int :: "int \<Rightarrow> json" where
  "json_of_int i = JNumber (if 0 \<le> i then PosInt (nat i) else NegInt i)"

definition relay_pair_json :: "relay_pair \<Rightarrow> json" where
  "relay_pair_json p = JObject
     [(''url'', JString (rp_url p)), (''accountKey'', JString (rp_account_key p)),
      (''pairId'', JString (rp_pair_id p)),
      (''desktopCapability'', JString (rp_desktop_capability p)),
      (''phoneCapability'', JString (rp_phone_capability p)),
      (''expiresAt'', json_of_int (rp_expires_at p))]"

definition relay_pair_of_json :: "json \<Rightarrow> relay_pair" where
  "relay_pair_of_json v =
     (let txt = (\<lambda>key. case get_str key v of None \<Rightarrow> [] | Some s \<Rightarrow> s)
      in \<lparr>rp_url = txt ''url'', rp_account_key = txt ''accountKey'', rp_pair_id = txt ''pairId'',
          rp_desktop_capability = txt ''desktopCapability'',
          rp_phone_capability = txt ''phoneCapability'',
          rp_expires_at = (case get_i64 ''expiresAt'' v of None \<Rightarrow> 0 | Some i \<Rightarrow> i)\<rparr>)"

definition save_pair :: "json_text \<Rightarrow> relay_pair \<Rightarrow> unit db_op" where
  "save_pair jt p =
     (if pair_is_valid p then set_setting PAIR_SETTING (jt_print jt (relay_pair_json p))
      else db_fail ''refusing to store a malformed relay pair'')"

definition current_pair :: "json_text \<Rightarrow> relay_pair option db_op" where
  "current_pair jt =
     db_bind (get_setting PAIR_SETTING) (\<lambda>stored.
       db_return
         (case stored of
            None \<Rightarrow> None
          | Some s \<Rightarrow>
              if trim s = [] then None
              else case jt_parse jt s of
                     None \<Rightarrow> None
                   | Some v \<Rightarrow>
                       let p = relay_pair_of_json v in if pair_is_valid p then Some p else None))"

definition clear_pair :: "unit db_op" where
  "clear_pair = set_setting PAIR_SETTING []"

definition desktop_socket_url :: "relay_pair \<Rightarrow> string" where
  "desktop_socket_url p = socket_url p ''desktop''"

section \<open>Provisioning\<close>

text \<open>The derived \<open>Deserialize\<close> of the relay's answer: every field must be there.\<close>

definition created_pair_of_json :: "string \<Rightarrow> json \<Rightarrow> relay_pair option" where
  "created_pair_of_json url v = do {
     account_key \<leftarrow> get_str ''accountKey'' v;
     pair_id \<leftarrow> get_str ''pairId'' v;
     expires_at \<leftarrow> get_i64 ''expiresAt'' v;
     capabilities \<leftarrow> json_get ''capabilities'' v;
     desktop \<leftarrow> get_str ''desktop'' capabilities;
     phone \<leftarrow> get_str ''phone'' capabilities;
     Some \<lparr>rp_url = url, rp_account_key = account_key, rp_pair_id = pair_id,
           rp_desktop_capability = desktop, rp_phone_capability = phone,
           rp_expires_at = expires_at\<rparr> }"

definition is_token_char :: "char \<Rightarrow> bool" where
  "is_token_char c \<longleftrightarrow> (let n = (of_char c :: nat) in
     48 \<le> n \<and> n \<le> 57 \<or> 65 \<le> n \<and> n \<le> 90 \<or> 97 \<le> n \<and> n \<le> 122 \<or> n = 46 \<or> n = 45 \<or> n = 95)"

definition token_ok :: "string \<Rightarrow> bool" where
  "token_ok token \<longleftrightarrow> token \<noteq> [] \<and> length token \<le> 8192 \<and> list_all is_token_char token"

definition is_success :: "nat \<Rightarrow> bool" where
  "is_success status \<longleftrightarrow> 200 \<le> status \<and> status \<le> 299"

definition provision_refusal :: "nat \<Rightarrow> string" where
  "provision_refusal status =
     (if status = 401 then ''the relay rejected this account; sign in again and retry''
      else if status = 409 then ''this account already has the maximum number of paired devices''
      else if status = 429 then ''too many pairing attempts on this account; try again later''
      else ''the relay refused to create a pair (HTTP '' @ decimal status @ '')'')"

definition provision ::
  "json_text \<Rightarrow> (string \<Rightarrow> string \<Rightarrow> (nat \<times> string) option) \<Rightarrow> string \<Rightarrow> relay_pair db_op" where
  "provision jt post id_token =
     (let token = trim id_token
      in if \<not> token_ok token
         then db_fail ''a valid signed-in account is required to enable cross-network sync''
         else
           db_bind relay_url (\<lambda>url.
             case post (url @ ''/v1/pairs'') token of
               None \<Rightarrow> db_fail ''reach the FocusBridge relay''
             | Some (status, body) \<Rightarrow>
                 if \<not> is_success status then db_fail (provision_refusal status)
                 else
                   case Option.bind (jt_parse jt body) (created_pair_of_json url) of
                     None \<Rightarrow> db_fail ''read the relay response''
                   | Some p \<Rightarrow>
                       if \<not> pair_is_valid p then db_fail ''the relay returned a malformed pair''
                       else db_bind (save_pair jt p) (\<lambda>_. db_return p)))"

definition revoke ::
  "(string \<Rightarrow> string \<Rightarrow> nat option) \<Rightarrow> string \<Rightarrow> string \<Rightarrow> unit db_op" where
  "revoke send_delete id_token pair_id =
     db_bind relay_url (\<lambda>url.
       case send_delete (url @ ''/v1/pairs/'' @ pair_id) (trim id_token) of
         None \<Rightarrow> db_fail ''reach the FocusBridge relay''
       | Some status \<Rightarrow>
           if is_success status \<or> status = 404 then db_return ()
           else db_fail (''the relay refused to revoke this pair (HTTP '' @ decimal status @ '')''))"

section \<open>What is stored is read back\<close>

lemma get_i64_json_of_int:
  "- (2 ^ 63) \<le> i \<Longrightarrow> i < 2 ^ 63 \<Longrightarrow> as_i64 (json_of_int i) = Some i"
  by (simp add: json_of_int_def nat_less_iff)

lemma relay_pair_of_json_of:
  assumes "- (2 ^ 63) \<le> rp_expires_at p" and "rp_expires_at p < 2 ^ 63"
  shows "relay_pair_of_json (relay_pair_json p) = p"
  using get_i64_json_of_int [OF assms]
  by (simp add: relay_pair_of_json_def relay_pair_json_def get_str_def get_i64_def Let_def)

end
