(* ===== verification/Ws_Work.thy ===== *)
theory Ws_Work
  imports Desktop_Host Socket_Io Relay_Api
begin

text \<open>
  The application work of server/ws_server.rs: \<open>apply_work_item\<close> and \<open>WorkSession::apply\<close>, with
  the acknowledgement of a notification. JSON text, Unicode and the envelope cipher are
  parameters; the wall clock is a function of the point reached.
\<close>

record desk =
  dk_unicode :: unicode
  dk_json :: json_text
  dk_crypto :: envelope_crypto

section \<open>One piece of work\<close>

definition current :: "nat \<Rightarrow> host \<Rightarrow> bool" where
  "current ch h \<longleftrightarrow> h_permit h \<and> is_current_phone_sender ch (h_app h)"

text \<open>The end of storing a notification: the window, then the popup unless it was known.\<close>

definition show_notification ::
  "(nat \<Rightarrow> host \<Rightarrow> host) \<Rightarrow> nat \<Rightarrow> bool \<Rightarrow> notification_row \<Rightarrow> string option host_op" where
  "show_notification others ch existed row =
     host_bind (ask (others 5) (current ch)) (\<lambda>ok.
     if \<not> ok then host_return None else
     host_bind (ask (others 6) (\<lambda>h. as_vault_unlocked (h_app h))) (\<lambda>unlocked.
     host_bind (host_when unlocked (emit (UiNotification row))) (\<lambda>_.
     host_bind (ask (others 7) (\<lambda>h. \<not> existed \<and> current ch h)) (\<lambda>new.
     host_bind (ask (others 8) (\<lambda>h. new \<and> as_vault_unlocked (h_app h))) (\<lambda>visible.
     host_bind (ask (others 9) (\<lambda>h. visible \<and> as_desktop_notifications_enabled (h_app h))) (\<lambda>announce.
     host_bind (host_when announce (popup (PopupNotification row))) (\<lambda>_.
     host_return (Some (nr_id row)))))))))"

definition store_notification ::
  "desk \<Rightarrow> (nat \<Rightarrow> host \<Rightarrow> host) \<Rightarrow> (nat \<Rightarrow> int) \<Rightarrow> nat \<Rightarrow> json \<Rightarrow> string option host_op" where
  "store_notification p others clock ch payload =
     host_bind (case get_str ''id'' payload of
                  None \<Rightarrow> host_return None
                | Some _ \<Rightarrow> query_db (others 1) (equivalent_notification (clock 1) payload)) (\<lambda>copy.
     if copy \<noteq> None then host_return (get_str ''id'' payload) else
     host_bind (case get_str ''id'' payload of
                  None \<Rightarrow> host_return False
                | Some i \<Rightarrow> query_db (others 2) (notification_exists i)) (\<lambda>existed.
     host_bind (ask (others 3) (current ch)) (\<lambda>ok.
     if \<not> ok then host_return None else
     host_bind (query_db (others 4)
                  (upsert_notification (dk_unicode p) (clock 4) (clock 5) payload)) (\<lambda>row.
     show_notification others ch existed row))))"

definition take_inventory ::
  "desk \<Rightarrow> (nat \<Rightarrow> host \<Rightarrow> host) \<Rightarrow> (nat \<Rightarrow> int) \<Rightarrow> nat \<Rightarrow> json \<Rightarrow> string option host_op" where
  "take_inventory p others clock ch payload =
     host_bind (query_db (others 1)
                  (save_app_inventory (dk_unicode p) (clock 1) (clock 2) payload)) (\<lambda>rules.
     host_bind (ask (others 2) (current ch)) (\<lambda>ok.
     if \<not> ok then host_return None else
     host_bind (emit (UiAppRules rules)) (\<lambda>_.
     host_bind (query_db (others 3) (rules_update_envelope (jt_print (dk_json p)))) (\<lambda>message.
     host_bind (ask (others 4) (current ch)) (\<lambda>still.
     host_bind (host_when still (act (\<lambda>h. h) (\<lambda>s. snd (channel_send ch message s)))) (\<lambda>_.
     host_return None))))))"

definition remove_notification ::
  "(nat \<Rightarrow> host \<Rightarrow> host) \<Rightarrow> nat \<Rightarrow> string \<Rightarrow> string option host_op" where
  "remove_notification others ch i =
     host_bind (query_db (others 1) (dismiss_notification i)) (\<lambda>_.
     host_bind (ask (others 2) (current ch)) (\<lambda>ok.
     host_bind (host_when ok (emit (UiDismissal i))) (\<lambda>_. host_return None)))"

definition apply_work_item ::
  "desk \<Rightarrow> (nat \<Rightarrow> host \<Rightarrow> host) \<Rightarrow> (nat \<Rightarrow> int) \<Rightarrow> nat \<Rightarrow> incoming_decision \<Rightarrow> string option host_op" where
  "apply_work_item p others clock ch decision =
     host_bind (ask (others 0) (current ch)) (\<lambda>ok.
     if \<not> ok then host_return None else
     case decision of
       DStoreNotification payload \<Rightarrow> store_notification p others clock ch payload
     | DRemoveNotification i \<Rightarrow> remove_notification others ch i
     | DStatusUpdate payload \<Rightarrow> host_bind (emit (UiPhoneStatus payload)) (\<lambda>_. host_return None)
     | DRulesAck payload \<Rightarrow> host_bind (emit (UiRulesAck payload)) (\<lambda>_. host_return None)
     | DAppInventory payload \<Rightarrow> take_inventory p others clock ch payload
     | _ \<Rightarrow> (\<lambda>h. (Inl ''unexpected queued application work'', h)))"

section \<open>The socket\<close>

text \<open>
  One accepted WebSocket: its channel, the key it authenticated with, what the peer has yet to
  deliver, the texts written so far, the outcomes of the writes to come and the random source.
\<close>

record ws_write =
  wr_now :: instant
  wr_sent :: "(string + unit) option"
  wr_after :: instant

record ws_socket =
  so_channel :: nat
  so_loopback :: bool
  so_ip :: string
  so_key :: "string option"
  so_notified :: bool
  so_heartbeat :: peer_heartbeat
  so_pending :: pending_messages
  so_input :: "socket_item list"
  so_sent :: "string list"
  so_writes :: "ws_write list"
  so_random :: "nat \<Rightarrow> bytes"
  so_drawn :: nat

definition no_write :: ws_write where
  "no_write = \<lparr>wr_now = 0, wr_sent = None, wr_after = 0\<rparr>"

definition next_write :: "ws_socket \<Rightarrow> ws_write" where
  "next_write s = (case so_writes s of [] \<Rightarrow> no_write | w # _ \<Rightarrow> w)"

text \<open>\<open>send_frame_before\<close> on this socket; \<open>deadline\<close> may depend on the clock.\<close>

definition socket_send :: "string \<Rightarrow> (instant \<Rightarrow> instant) \<Rightarrow> ws_socket \<Rightarrow> (string + unit) \<times> ws_socket" where
  "socket_send body deadline s =
     (let w = next_write s;
          r = send_frame_before (wr_now w) (wr_sent w) (wr_after w) (deadline (wr_now w))
      in (r, s\<lparr>so_writes := tl (so_writes s),
               so_sent := (if wr_now w < deadline (wr_now w) \<and> wr_sent w = Some (Inr ())
                           then so_sent s @ [body] else so_sent s)\<rparr>))"

definition send_text :: "string \<Rightarrow> ws_socket \<Rightarrow> (string + unit) \<times> ws_socket" where
  "send_text body = socket_send body (\<lambda>now. now + secs 10)"

text \<open>A text leaves in the clear only before the socket has a key.\<close>

definition sealed :: "desk \<Rightarrow> string \<Rightarrow> ws_socket \<Rightarrow> string option \<times> ws_socket" where
  "sealed p body s =
     (case so_key s of
        None \<Rightarrow> (Some body, s)
      | Some key \<Rightarrow>
          (map_option (jt_print (dk_json p))
             (encrypt_envelope (dk_crypto p) (so_random s (so_drawn s)) key body),
           s\<lparr>so_drawn := Suc (so_drawn s)\<rparr>))"

definition send_sealed ::
  "desk \<Rightarrow> string \<Rightarrow> string \<Rightarrow> instant \<Rightarrow> ws_socket \<Rightarrow> (string + unit) \<times> ws_socket" where
  "send_sealed p failure body deadline s =
     (case sealed p body s of
        (None, s') \<Rightarrow> (Inl failure, s')
      | (Some txt, s') \<Rightarrow> socket_send txt (\<lambda>_. deadline) s')"

definition notification_ack :: "string \<Rightarrow> nat \<Rightarrow> json" where
  "notification_ack i now = JObject
     [(''version'', JNumber (PosInt 1)), (''type'', JString ''NOTIFICATION_ACK''),
      (''payload'', JObject [(''id'', JString i), (''accepted'', JBool True),
         (''serverTime'', JNumber (PosInt now))])]"

definition send_notification_ack ::
  "desk \<Rightarrow> nat \<Rightarrow> string \<Rightarrow> instant \<Rightarrow> ws_socket \<Rightarrow> (string + unit) \<times> ws_socket" where
  "send_notification_ack p now i deadline s =
     send_sealed p ''encrypt notification ack envelope''
       (jt_print (dk_json p) (notification_ack i now)) deadline s"

section \<open>Work while the socket is served\<close>

text \<open>
  What happens around one piece of work: the schedule of \<open>service_while\<close>, in which the work's
  result stands where the work ends, the others and the clocks.
\<close>

record work_run =
  wk_turns :: "unit turn list"
  wk_others :: "nat \<Rightarrow> host \<Rightarrow> host"
  wk_after :: "host \<Rightarrow> host"
  wk_clock :: "nat \<Rightarrow> int"
  wk_pong_at :: int
  wk_ack_at :: nat

definition turn_with :: "(string + 'a) \<Rightarrow> unit turn \<Rightarrow> 'a turn" where
  "turn_with r t =
     \<lparr>tn_current = tn_current t, tn_start = tn_start t, tn_ready = tn_ready t,
      tn_read_at = tn_read_at t, tn_probe_at = tn_probe_at t, tn_ping = tn_ping t,
      tn_ping_done = tn_ping_done t,
      tn_selected = (case tn_selected t of SelDeadline \<Rightarrow> SelDeadline | SelOwnership \<Rightarrow> SelOwnership
        | SelWake \<Rightarrow> SelWake | SelWork _ still \<Rightarrow> SelWork r still | SelFrame still \<Rightarrow> SelFrame still),
      tn_select_at = tn_select_at t\<rparr>"

definition serve_socket :: "'a turn list \<Rightarrow> ws_socket \<Rightarrow> (string + 'a) option \<times> nat \<times> ws_socket" where
  "serve_socket ts s =
     (case service_while ts \<lparr>sv_socket = so_input s, sv_heartbeat = so_heartbeat s,
                              sv_pending = so_pending s, sv_pongs = 0\<rparr> of
        (r, sv) \<Rightarrow> (r, sv_pongs sv, s\<lparr>so_input := sv_socket sv, so_heartbeat := sv_heartbeat sv,
                                     so_pending := sv_pending sv\<rparr>))"

definition work_ends :: "work_run \<Rightarrow> nat \<Rightarrow> nat \<Rightarrow> host \<Rightarrow> host" where
  "work_ends w ch pongs h =
     (wk_after w (if 0 < pongs \<and> is_current_phone_sender ch (h_app h)
                  then on_app (mark_heartbeat (wk_pong_at w)) h else h))\<lparr>h_permit := False\<rparr>"

definition work_reply ::
  "desk \<Rightarrow> work_run \<Rightarrow> (string + string option) option \<Rightarrow> ws_socket \<Rightarrow> host
    \<Rightarrow> (string + bool) option \<times> ws_socket" where
  "work_reply p w result s h =
     (if \<not> is_current_phone_sender (so_channel s) (h_app h) then (Some (Inr False), s)
      else case result of
             None \<Rightarrow> (None, s)
           | Some (Inl e) \<Rightarrow> (Some (Inl e), s)
           | Some (Inr None) \<Rightarrow> (Some (Inr True), s)
           | Some (Inr (Some i)) \<Rightarrow>
               (case send_notification_ack p (wk_ack_at w) i (hb_deadline (so_heartbeat s)) s of
                  (Inl e, s') \<Rightarrow> (Some (Inl e), s')
                | (Inr _, s') \<Rightarrow> (Some (Inr True), s')))"

text \<open>
  \<open>WorkSession::apply\<close>. The work runs on its own thread; when the loop ends without it, the
  permit is withdrawn, which is among what the others may do at any point of the work. \<open>None\<close>
  stands for a loop still running after the turns given.
\<close>

definition work_apply ::
  "desk \<Rightarrow> work_run \<Rightarrow> incoming_decision \<Rightarrow> ws_socket \<times> host
    \<Rightarrow> (string + bool) option \<times> ws_socket \<times> host" where
  "work_apply p w decision sh =
     (case sh of (s, h) \<Rightarrow>
      case apply_work_item p (wk_others w) (wk_clock w) (so_channel s) decision (h\<lparr>h_permit := True\<rparr>) of
        (done_with, h1) \<Rightarrow>
      case serve_socket (map (turn_with done_with) (wk_turns w)) s of
        (result, pongs, s1) \<Rightarrow>
      let h2 = work_ends w (so_channel s) pongs h1
      in case work_reply p w result s1 h2 of (r, s2) \<Rightarrow> (r, s2, h2))"

end
