(* ===== verification/Ws_Server.thy ===== *)
theory Ws_Server
  imports Ws_Work
begin

text \<open>
  server/ws_server.rs: how a phone authenticates and attaches, the loop over one WebSocket, and
  what its end does. Each pass of the loop is given by the branch its select takes and by the
  clocks, the schedules and the doings of the other tasks at its await points.
\<close>

definition MAX_UNAUTHENTICATED_CONNECTIONS :: nat where [limits]:
  "MAX_UNAUTHENTICATED_CONNECTIONS = 24"

section \<open>Which key a message is checked against\<close>

definition phone_id :: "json \<Rightarrow> string \<Rightarrow> string" where
  "phone_id payload qr_id =
     (case get_str ''phoneInstallId'' payload of
        Some i \<Rightarrow> if trim i \<noteq> [] then i else qr_id
      | None \<Rightarrow> qr_id)"

definition saved_key :: "string \<Rightarrow> string \<Rightarrow> app_state \<Rightarrow> string option \<times> app_state" where
  "saved_key device key s =
     (case app_db (saved_pairing_key_for_device device key) s of
        (Inr found, s') \<Rightarrow> (found, s')
      | (Inl _, s') \<Rightarrow> (None, s'))"

definition expected_pairing_key_for_envelope ::
  "desk \<Rightarrow> int \<Rightarrow> envelope \<Rightarrow> app_state \<Rightarrow> string option \<times> app_state" where
  "expected_pairing_key_for_envelope p now env s =
     (if env_type env \<noteq> Auth
      then (case current_pairing (dk_json p) now s of
              (session, s') \<Rightarrow> (map_option ps_pairing_key session, s'))
      else case get_str ''pairingKey'' (env_payload env) of
             None \<Rightarrow> (None, s)
           | Some presented \<Rightarrow>
               let qr = string_field (env_payload env) ''deviceId'' [];
                   stable = phone_id (env_payload env) qr
               in case current_pairing (dk_json p) now s of
                    (session, s1) \<Rightarrow>
                      (case session of
                         Some c \<Rightarrow>
                           if now < ps_expires_at c \<and> ps_pairing_key c = presented \<and> ps_device_id c = qr
                           then (Some (ps_pairing_key c), s1)
                           else (case saved_key stable presented s1 of
                                   (Some k, s2) \<Rightarrow> (Some k, s2)
                                 | (None, s2) \<Rightarrow> saved_key qr presented s2)
                       | None \<Rightarrow> (case saved_key stable presented s1 of
                                   (Some k, s2) \<Rightarrow> (Some k, s2)
                                 | (None, s2) \<Rightarrow> saved_key qr presented s2)))"

section \<open>May this phone attach\<close>

definition holds_the_code_on_screen ::
  "desk \<Rightarrow> int \<Rightarrow> string \<Rightarrow> app_state \<Rightarrow> bool \<times> app_state" where
  "holds_the_code_on_screen p now key s =
     (case current_pairing (dk_json p) now s of
        (Some session, s') \<Rightarrow>
          if ps_pairing_key session = key then pairing_code_is_live (dk_json p) now s' else (False, s')
      | (None, s') \<Rightarrow> (False, s'))"

definition auto_first_connection :: "app_state \<Rightarrow> bool \<times> app_state" where
  "auto_first_connection s =
     (case app_db auto_connect s of (Inr b, s') \<Rightarrow> (b, s') | (Inl _, s') \<Rightarrow> (True, s'))"

definition attach_rule :: "bool \<Rightarrow> bool \<Rightarrow> string \<Rightarrow> app_state \<Rightarrow> bool \<times> app_state" where
  "attach_rule auto holds device_id s =
     (let paused = as_paused s;
          resuming = is_approved_for_this_run device_id s;
          s' = (if holds \<and> paused then resume s else s)
      in case may_attach paused auto holds resuming take_known_phone_allowance s' of
           (ok, s'') \<Rightarrow> (ok, if ok then s'' else note_known_phone_refused s''))"

definition decide_attach ::
  "desk \<Rightarrow> int \<Rightarrow> string \<Rightarrow> string \<Rightarrow> app_state \<Rightarrow> bool \<times> app_state" where
  "decide_attach p now key device_id s =
     (case auto_first_connection s of (auto, s1) \<Rightarrow>
      case holds_the_code_on_screen p now key s1 of (holds, s2) \<Rightarrow>
        attach_rule auto holds device_id s2)"

definition auth_failed_text :: "string \<Rightarrow> string" where
  "auth_failed_text reason =
     ''{\"version\":1,\"type\":\"AUTH_FAILED\",\"payload\":{\"reason\":\"'' @ reason @ ''\"}}''"

definition auth_ok_text :: "nat \<Rightarrow> string" where
  "auth_ok_text now =
     ''{\"version\":1,\"type\":\"AUTH_OK\",\"payload\":{\"serverTime\":'' @ decimal now
     @ '',\"config\":{\"heartbeatInterval\":15000,\"heartbeatTimeout\":180000,\"maxMessageSize\":1048576}}}''"

definition pong_text :: "int \<Rightarrow> string" where
  "pong_text now =
     ''{\"version\":1,\"type\":\"PONG\",\"payload\":{\"serverTime\":'' @ show_int now @ ''}}''"

section \<open>The loop\<close>

datatype branch =
  BrHeartbeatDeadline | BrAuthDeadline | BrWake | BrStaleCheck | BrOutbound | BrInbound

record ws_pass =
  wp_branch :: branch
  wp_now :: instant
  wp_at :: int
  wp_rowid :: int
  wp_during_auth :: "host \<Rightarrow> host"
  wp_work :: "work_run list"

text \<open>What a pass leaves: another pass, the end of the loop, an error, or work still running.\<close>

datatype outcome = Again | Break | Fail string | Busy

type_synonym ws_state = "ws_socket \<times> host"
type_synonym ws_result = "outcome \<times> ws_state"

definition active :: "ws_socket \<Rightarrow> bool" where
  "active s \<longleftrightarrow> so_key s \<noteq> None"

definition is_mine :: "ws_socket \<Rightarrow> host \<Rightarrow> bool" where
  "is_mine s h \<longleftrightarrow> is_current_phone_sender (so_channel s) (h_app h)"

definition attach_phone ::
  "desk \<Rightarrow> ws_pass \<Rightarrow> envelope \<Rightarrow> string \<Rightarrow> string \<Rightarrow> ws_state \<Rightarrow> ws_result" where
  "attach_phone p e env key device_id sh =
     (case sh of (s, h) \<Rightarrow>
      let s1 = s\<lparr>so_key := Some key\<rparr>;
          a1 = mark_transport (if so_loopback s then ''relay'' else ''wss'')
                 (set_phone_sender (so_channel s) (wp_at e) (approve_phone_for_this_run device_id (h_app h)));
          endpoint = (if so_loopback s then ''relay'' else so_ip s)
      in case app_db (mark_pairing_connected (wp_rowid e) (wp_at e)
                 (string_field (env_payload env) ''deviceName'' ''Android phone'') device_id key endpoint
                 (as_cert_fingerprint a1)) a1 of
           (Inl err, a2) \<Rightarrow> (Fail err, s1, h\<lparr>h_app := a2\<rparr>)
         | (Inr _, a2) \<Rightarrow>
             (case send_text (auth_ok_text (nat (wp_at e))) s1 of
                (Inl err, s2) \<Rightarrow> (Fail ''send auth ok'', s2, h\<lparr>h_app := a2\<rparr>)
              | (Inr _, s2) \<Rightarrow>
                  let h3 = wp_during_auth e (h\<lparr>h_app := a2\<rparr>) in
                  if \<not> is_mine s2 h3 then (Again, s2, h3)
                  else
                    let s3 = s2\<lparr>so_heartbeat := hb_new (wp_now e)\<rparr>;
                        a4 = mark_heartbeat (wp_at e) (h_app h3);
                        a5 = (case app_db (rules_update_envelope (jt_print (dk_json p))) a4 of
                                (Inr message, a') \<Rightarrow> snd (channel_send (so_channel s3) message a')
                              | (Inl _, a') \<Rightarrow> a')
                    in case emit (UiConnection ''CONNECTED'') (h3\<lparr>h_app := a5\<rparr>) of
                         (Inl err, h6) \<Rightarrow> (Fail err, s3, h6)
                       | (Inr _, h6) \<Rightarrow>
                           if so_notified s3 then (Again, s3, h6)
                           else case announce_connected (h_app h6) of
                                  (new, a7) \<Rightarrow>
                                    (Again, s3\<lparr>so_notified := True\<rparr>,
                                     snd (host_when (new \<and> as_desktop_notifications_enabled a7)
                                            (popup (PopupConnection True)) (h6\<lparr>h_app := a7\<rparr>)))))"

text \<open>The accepted \<open>AUTH\<close>: the decision, and the refusal.\<close>

definition auth_accepted ::
  "desk \<Rightarrow> ws_pass \<Rightarrow> envelope \<Rightarrow> string \<Rightarrow> ws_state \<Rightarrow> ws_result" where
  "auth_accepted p e env key sh =
     (case sh of (s, h) \<Rightarrow>
      let device_id = phone_id (env_payload env)
            (string_field (env_payload env) ''deviceId'' ''android-phone'')
      in case decide_attach p (wp_at e) key device_id (h_app h) of
           (True, a) \<Rightarrow> attach_phone p e env key device_id (s, h\<lparr>h_app := a\<rparr>)
         | (False, a) \<Rightarrow>
             (Break, snd (send_text (auth_failed_text ''not_accepting'') s), h\<lparr>h_app := a\<rparr>))"

text \<open>The items of a batch, one after the other, until one is not applied.\<close>

fun work_batch ::
  "desk \<Rightarrow> work_run list \<Rightarrow> incoming_decision list \<Rightarrow> ws_state \<Rightarrow> ws_result" where
  "work_batch p ws [] sh = (Again, sh)"
| "work_batch p [] (d # ds) sh = (Busy, sh)"
| "work_batch p (w # ws) (d # ds) sh =
     (case work_apply p w d sh of
        (None, sh') \<Rightarrow> (Busy, sh')
      | (Some (Inl e), sh') \<Rightarrow> (Fail e, sh')
      | (Some (Inr False), sh') \<Rightarrow> (Again, sh')
      | (Some (Inr True), sh') \<Rightarrow> work_batch p ws ds sh')"

definition reply_pong :: "desk \<Rightarrow> ws_pass \<Rightarrow> ws_state \<Rightarrow> ws_result" where
  "reply_pong p e sh =
     (case sh of (s, h) \<Rightarrow>
      let h1 = on_app (mark_heartbeat (wp_at e)) h
      in case send_sealed p ''encrypt pong envelope'' (pong_text (wp_at e))
                (hb_deadline (so_heartbeat s)) s of
           (Inl err, s1) \<Rightarrow> (Fail err, s1, h1)
         | (Inr _, s1) \<Rightarrow>
             (case host_when (is_mine s1 h1) (emit (UiStatus ''PING'')) h1 of
                (Inl err, h2) \<Rightarrow> (Fail err, s1, h2)
              | (Inr _, h2) \<Rightarrow> (Again, s1, h2)))"

definition unknown_pairing :: "string \<Rightarrow> bool" where
  "unknown_pairing reason \<longleftrightarrow>
     contains reason ''missing session key'' \<or> contains reason ''unknown pairing''"

definition handle_decision ::
  "desk \<Rightarrow> ws_pass \<Rightarrow> envelope \<Rightarrow> string \<Rightarrow> ws_state \<Rightarrow> ws_result" where
  "handle_decision p e env key sh =
     (case handle_envelope env key of
        DAuthAccepted \<Rightarrow> auth_accepted p e env key sh
      | DAuthFailed reason \<Rightarrow>
          (Break, snd (send_text (auth_failed_text (if unknown_pairing reason then ''unknown_pairing''
                                    else ''rejected'')) (fst sh)), snd sh)
      | DStoreBatch payload \<Rightarrow>
          (case get_array ''notifications'' payload of
             None \<Rightarrow> (Again, sh)
           | Some items \<Rightarrow> work_batch p (wp_work e) (map DStoreNotification items) sh)
      | DRemoveBatch ids \<Rightarrow> work_batch p (wp_work e) (map DRemoveNotification ids) sh
      | DPingReceived \<Rightarrow> reply_pong p e sh
      | DManualDisconnect \<Rightarrow> (Break, sh)
      | DUnknown \<Rightarrow> (Again, sh)
      | work \<Rightarrow> work_batch p (wp_work e) [work] sh)"

definition open_envelope :: "desk \<Rightarrow> string \<Rightarrow> envelope \<Rightarrow> string + envelope" where
  "open_envelope p key env =
     (if env_type env \<noteq> Encrypted then Inr env
      else case decrypt_payload (dk_crypto p) key (env_payload env) of
             None \<Rightarrow> Inl ''decrypt envelope''
           | Some txt \<Rightarrow>
               (case Option.bind (jt_parse (dk_json p) txt) envelope_of_json of
                  None \<Rightarrow> Inl ''parse encrypted focusbridge envelope''
                | Some inner \<Rightarrow> Inr inner))"

definition handle_text :: "desk \<Rightarrow> ws_pass \<Rightarrow> string \<Rightarrow> ws_state \<Rightarrow> ws_result" where
  "handle_text p e txt sh =
     (case Option.bind (jt_parse (dk_json p) txt) envelope_of_json of
        None \<Rightarrow> (Fail ''parse focusbridge envelope'', sh)
      | Some env \<Rightarrow>
          (case sh of (s, h) \<Rightarrow>
           if active s = (env_type env = Auth) then (Break, sh)
           else
             case (case so_key s of
                     Some key \<Rightarrow> (key, h_app h)
                   | None \<Rightarrow>
                       (case expected_pairing_key_for_envelope p (wp_at e) env (h_app h) of
                          (key, a) \<Rightarrow> (case key of Some k \<Rightarrow> k | None \<Rightarrow> [], a))) of
               (key, a) \<Rightarrow>
                 (case open_envelope p key env of
                    Inl err \<Rightarrow> (Fail err, s, h\<lparr>h_app := a\<rparr>)
                  | Inr inner \<Rightarrow>
                      if env_type env = Encrypted \<and> env_type inner = Auth then (Break, s, h\<lparr>h_app := a\<rparr>)
                      else handle_decision p e inner key (s, h\<lparr>h_app := a\<rparr>))))"

definition handle_message :: "desk \<Rightarrow> ws_pass \<Rightarrow> ws_message \<Rightarrow> ws_state \<Rightarrow> ws_result" where
  "handle_message p e msg sh =
     (case sh of (s, h) \<Rightarrow>
      if active s \<and> \<not> is_mine s h then (Again, sh)
      else case msg of
             TextM txt \<Rightarrow>
               handle_text p e txt
                 (if active s
                  then (s\<lparr>so_heartbeat := hb_mark_alive (wp_now e) (so_heartbeat s)\<rparr>,
                        on_app (mark_heartbeat (wp_at e)) h)
                  else sh)
           | CloseM _ \<Rightarrow> (Break, sh)
           | PongM payload \<Rightarrow>
               if active s
               then (case hb_acknowledge payload (wp_now e) (so_heartbeat s) of
                       (answered, hb) \<Rightarrow>
                         (Again, s\<lparr>so_heartbeat := hb\<rparr>,
                          if answered then on_app (mark_heartbeat (wp_at e)) h else h))
               else (Again, sh)
           | _ \<Rightarrow> (Again, sh))"

definition next_inbound :: "ws_socket \<Rightarrow> socket_item option \<times> ws_socket" where
  "next_inbound s =
     (case pop_front (so_pending s) of
        (Some frame, q) \<Rightarrow> (Some (Item frame), s\<lparr>so_pending := q\<rparr>)
      | (None, _) \<Rightarrow>
          (case next_item (so_input s) of (item, rest) \<Rightarrow> (item, s\<lparr>so_input := rest\<rparr>)))"

definition send_outbound :: "desk \<Rightarrow> ws_state \<Rightarrow> ws_result" where
  "send_outbound p sh =
     (case sh of (s, h) \<Rightarrow>
      case store_get (as_channels (h_app h)) (so_channel s) of
        Some (message # queue) \<Rightarrow>
          (case send_sealed p ''encrypt outbound envelope'' message (hb_deadline (so_heartbeat s)) s of
             (r, s') \<Rightarrow>
               (case r of Inl err \<Rightarrow> Fail err | Inr _ \<Rightarrow> Again, s',
                on_app (\<lambda>a. a\<lparr>as_channels := store_put (so_channel s) queue (as_channels a)\<rparr>) h))
      | _ \<Rightarrow> (Again, sh))"

definition probe_phone :: "ws_pass \<Rightarrow> ws_state \<Rightarrow> ws_result" where
  "probe_phone e sh =
     (case sh of (s, h) \<Rightarrow>
      case hb_probe (wp_now e) (so_heartbeat s) of
        (None, hb) \<Rightarrow> (Again, s\<lparr>so_heartbeat := hb\<rparr>, h)
      | (Some _, hb) \<Rightarrow>
          let w = next_write s in
          (case send_frame_before (wr_now w) (wr_sent w) (wr_after w) (hb_deadline hb) of
             Inl err \<Rightarrow> Fail err | Inr _ \<Rightarrow> Again,
           s\<lparr>so_heartbeat := hb, so_writes := tl (so_writes s)\<rparr>, h))"

text \<open>A branch whose guard is false cannot be taken; the pass then leaves the state as it is.\<close>

definition ws_pass_step :: "desk \<Rightarrow> ws_pass \<Rightarrow> ws_state \<Rightarrow> ws_result" where
  "ws_pass_step p e sh =
     (case sh of (s0, h) \<Rightarrow>
      let s = (if active s0 \<and> \<not> is_mine s0 h then s0\<lparr>so_pending := pending_clear (so_pending s0)\<rparr> else s0)
      in case wp_branch e of
           BrHeartbeatDeadline \<Rightarrow> (if active s then Fail ''phone heartbeat timed out'' else Again, s, h)
         | BrAuthDeadline \<Rightarrow> (if active s then Again else Fail ''phone authentication timed out'', s, h)
         | BrWake \<Rightarrow> if active s then probe_phone e (s, h) else (Again, s, h)
         | BrStaleCheck \<Rightarrow>
             (if active s \<and> \<not> is_mine s h
                 \<and> store_get (as_channels (h_app h)) (so_channel s) \<in> {None, Some []}
              then Break else Again, s, h)
         | BrOutbound \<Rightarrow> send_outbound p (s, h)
         | BrInbound \<Rightarrow>
             (case next_inbound s of
                (None, s') \<Rightarrow> (Break, s', h)
              | (Some ReadError, s') \<Rightarrow> (Fail ''read websocket message'', s', h)
              | (Some (Item msg), s') \<Rightarrow> handle_message p e msg (s', h)))"

fun ws_loop :: "desk \<Rightarrow> ((host \<Rightarrow> host) \<times> ws_pass) list \<Rightarrow> ws_state \<Rightarrow> ws_result" where
  "ws_loop p [] sh = (Busy, sh)"
| "ws_loop p ((rest, e) # es) (s, h) =
     (case ws_pass_step p e (s, rest h) of
        (Again, sh') \<Rightarrow> ws_loop p es sh'
      | r \<Rightarrow> r)"

section \<open>The end of a socket\<close>

text \<open>
  After the loop; what the handler returns is an error or nothing. The task it may leave behind
  runs \<open>grace_over\<close> with the moment of the loss.
\<close>

definition end_reason :: "outcome \<Rightarrow> string" where
  "end_reason r = (case r of Fail err \<Rightarrow> err | _ \<Rightarrow> ''socket closed'')"

definition lost_connection :: "int \<Rightarrow> bool \<Rightarrow> unit host_op" where
  "lost_connection at notified =
     host_bind (ask (\<lambda>h. h) (\<lambda>h. notified \<and> \<not> as_paused (h_app h))) (\<lambda>dropped.
     if dropped
     then (\<lambda>h. emit (UiConnection ''RECONNECTING'') (on_app (\<lambda>a. snd (begin_reconnect_grace at a)) h))
     else
       host_bind (emit (UiConnection ''DISCONNECTED'')) (\<lambda>_ h.
         if \<not> notified then (Inr (), h)
         else case announce_disconnected (h_app h) of
                (was, a) \<Rightarrow> host_when (was \<and> as_desktop_notifications_enabled a)
                             (popup (PopupConnection False)) (h\<lparr>h_app := a\<rparr>)))"

definition ws_finish :: "int \<Rightarrow> outcome \<Rightarrow> ws_state \<Rightarrow> (string + unit) \<times> ws_state" where
  "ws_finish at r sh =
     (case sh of (s, h) \<Rightarrow>
      let s1 = s\<lparr>so_pending := pending_clear (so_pending s)\<rparr>;
          result = (case r of Fail err \<Rightarrow> Inl err | _ \<Rightarrow> Inr ())
      in case clear_phone_sender_if_current_with_reason (so_channel s) (end_reason r) (h_app h) of
           (False, a) \<Rightarrow> (result, s1, h\<lparr>h_app := a\<rparr>)
         | (True, a) \<Rightarrow>
             (case host_bind (query_db (\<lambda>h. h) mark_pairings_disconnected)
                     (\<lambda>_. lost_connection at (so_notified s)) (h\<lparr>h_app := a\<rparr>) of
                (Inl err, h') \<Rightarrow> (Inl err, s1, h')
              | (Inr _, h') \<Rightarrow> (result, s1, h')))"

definition grace_over :: "int \<Rightarrow> unit host_op" where
  "grace_over since h =
     (case end_reconnect_grace since (h_app h) of
        (None, a) \<Rightarrow> (Inr (), h\<lparr>h_app := a\<rparr>)
      | (Some was, a) \<Rightarrow>
          host_bind (host_try (emit (UiConnection ''DISCONNECTED'')))
            (\<lambda>_. host_when (was \<and> as_desktop_notifications_enabled a) (popup (PopupConnection False)))
            (h\<lparr>h_app := a\<rparr>))"

text \<open>A new socket, and the listener's limit on how many may be open.\<close>

definition ws_accept :: "nat \<Rightarrow> bool \<Rightarrow> string \<Rightarrow> instant \<Rightarrow> socket_item list \<Rightarrow> ws_write list \<Rightarrow> (nat \<Rightarrow> bytes)
    \<Rightarrow> ws_socket" where
  "ws_accept ch loopback ip now input writes random =
     \<lparr>so_channel = ch, so_loopback = loopback, so_ip = ip, so_key = None, so_notified = False,
      so_heartbeat = hb_new now, so_pending = pending_default, so_input = input, so_sent = [],
      so_writes = writes, so_random = random, so_drawn = 0\<rparr>"

definition preface_is_tls :: "bytes \<Rightarrow> bool" where
  "preface_is_tls peeked = (case peeked of [] \<Rightarrow> False | b # _ \<Rightarrow> b = 0x16)"

definition admit :: "nat \<Rightarrow> bool" where
  "admit open_now \<longleftrightarrow> open_now < MAX_UNAUTHENTICATED_CONNECTIONS"

end
