(* ===== verification/Ws_Inbox.thy ===== *)
theory Ws_Inbox
  imports Ws_Server
begin

text \<open>
  What the phone's work does to the inbox: it loses no notification and never turns a read one
  back, and the only thing it sends by itself is the acknowledgement of a notification whose
  message is stored. A relation between tables that every statement keeps is lifted to the
  operations on the host by a sublocale.
\<close>

section \<open>Lifting relations between tables\<close>

definition tables_of :: "host \<Rightarrow> tables" where
  "tables_of h = db_tables (as_db (h_app h))"

lemma tables_of_simps [simp]:
  "tables_of (h\<lparr>h_shown := x\<rparr>) = tables_of h" "tables_of (h\<lparr>h_emit_faults := fs\<rparr>) = tables_of h"
  "tables_of (h\<lparr>h_permit := b\<rparr>) = tables_of h" "tables_of (h\<lparr>h_app := s\<rparr>) = db_tables (as_db s)"
  by (simp_all add: tables_of_def)

lemma app_db_tables:
  "app_db m s = (r, s') \<Longrightarrow> db_rel R m \<Longrightarrow> R (db_tables (as_db s)) (db_tables (as_db s'))"
  by (auto simp: app_db_def dest: db_relD split: prod.splits)

sublocale table_order \<subseteq> lifted: host_order "\<lambda>h h'. R (tables_of h) (tables_of h')"
proof
  fix a b c h :: host and x fs
  show "R (tables_of a) (tables_of b) \<Longrightarrow> R (tables_of b) (tables_of c) \<Longrightarrow> R (tables_of a) (tables_of c)"
    by (rule trans)
qed (simp_all add: refl)

definition calm :: "(tables \<Rightarrow> tables \<Rightarrow> bool) \<Rightarrow> (nat \<Rightarrow> host \<Rightarrow> host) \<Rightarrow> bool" where
  "calm R others \<longleftrightarrow> quiet (\<lambda>h h'. R (tables_of h) (tables_of h')) others"

abbreviation keeps :: "(tables \<Rightarrow> tables \<Rightarrow> bool) \<Rightarrow> 'a host_op \<Rightarrow> bool" where
  "keeps R m \<equiv> host_rel (\<lambda>h h'. R (tables_of h) (tables_of h')) m"

context table_order
begin

lemma lift_query: "calm R others \<Longrightarrow> db_rel R m \<Longrightarrow> keeps R (query_db (others k) m)"
  unfolding calm_def
  by (rule lifted.queried) (simp_all, metis app_db_tables tables_of_def)

lemma lift_ask: "calm R others \<Longrightarrow> keeps R (ask (others k) f)"
  unfolding calm_def by (rule lifted.asked)

lemma lift_act:
  "(\<And>s. db_tables (as_db (f s)) = db_tables (as_db s)) \<Longrightarrow> keeps R (act (\<lambda>h. h) f)"
  by (simp add: host_rel_def act_def on_app_def refl tables_of_def)

lemmas lift = lifted.return lifted.bind lifted.emitted lifted.popped lifted.whenever lifted.tried
  lift_query lift_ask

end

section \<open>The two relations\<close>

text \<open>The work of a phone may update a notification it sends again, but loses none.\<close>

definition same_row :: "notification_row \<Rightarrow> notification_row \<Rightarrow> bool" where
  "same_row r r' \<longleftrightarrow> nr_id r' = nr_id r \<and> (nr_status r' = nr_status r \<or> nr_status r' = ''READ'')"

definition keeps_inbox :: "tables \<Rightarrow> tables \<Rightarrow> bool" where
  "keeps_inbox t t' \<longleftrightarrow>
     (\<forall>r\<in>set (tb_notifications t). \<exists>r'\<in>set (tb_notifications t'). same_row r r')"

lemma same_row_simps [simp]:
  "same_row r r" "same_row r (r\<lparr>nr_status := ''READ''\<rparr>)" "same_row r (keep_notification new r)"
  by (simp_all add: same_row_def keep_notification_def)

lemma keeps_inbox_same: "tb_notifications t' = tb_notifications t \<Longrightarrow> keeps_inbox t t'"
  unfolding keeps_inbox_def using same_row_simps(1) by metis

lemma same_row_trans: "same_row a b \<Longrightarrow> same_row b c \<Longrightarrow> same_row a c"
  by (auto simp: same_row_def)

text \<open>The others may mark notifications read and add new ones.\<close>

definition only_reads :: "tables \<Rightarrow> tables \<Rightarrow> bool" where
  "only_reads t t' \<longleftrightarrow> (\<forall>r\<in>set (tb_notifications t). \<exists>r'\<in>set (tb_notifications t').
     r' = r \<or> r' = r\<lparr>nr_status := ''READ''\<rparr>)"

lemma only_reads_keeps: "only_reads t t' \<Longrightarrow> keeps_inbox t t'"
  unfolding only_reads_def keeps_inbox_def using same_row_simps by metis

interpretation inbox: table_order keeps_inbox
proof
  show "keeps_inbox t t" for t by (simp add: keeps_inbox_same)
  show "keeps_inbox a c" if "keeps_inbox a b" "keeps_inbox b c" for a b c
    using that same_row_trans unfolding keeps_inbox_def by meson
qed

interpretation reads: table_order only_reads
proof
  show "only_reads t t" for t by (auto simp: only_reads_def)
  show "only_reads a c" if one: "only_reads a b" and two: "only_reads b c" for a b c
    unfolding only_reads_def
  proof
    fix r assume "r \<in> set (tb_notifications a)"
    then obtain r' where r': "r' \<in> set (tb_notifications b)" "r' = r \<or> r' = r\<lparr>nr_status := ''READ''\<rparr>"
      using one unfolding only_reads_def by blast
    then obtain r'' where "r'' \<in> set (tb_notifications c)"
      "r'' = r' \<or> r'' = r'\<lparr>nr_status := ''READ''\<rparr>"
      using two unfolding only_reads_def by blast
    then show "\<exists>r'\<in>set (tb_notifications c). r' = r \<or> r' = r\<lparr>nr_status := ''READ''\<rparr>"
      using r'(2) by auto
  qed
qed

lemma calm_reads_inbox: "calm only_reads others \<Longrightarrow> calm keeps_inbox others"
  by (simp add: calm_def quiet_def only_reads_keeps)

lemma upsert_row_keeps:
  "r \<in> set rs \<Longrightarrow> \<exists>r'\<in>set (upsert_row key k f new rs). r' = r \<or> r' = f r"
  by (induction rs) auto

lemma upsert_row_there:
  "\<exists>r'\<in>set (upsert_row key k f new rs). r' = new \<or> (\<exists>r\<in>set rs. key r = k \<and> r' = f r)"
  by (induction rs) auto

section \<open>What each operation keeps\<close>

lemma inbox_other_tables [simp]:
  "keeps_inbox t (set_rules f t)" "keeps_inbox t (t\<lparr>tb_settings := x\<rparr>)"
  "keeps_inbox t (set_devices g t)" "keeps_inbox t (t\<lparr>tb_notifications := tb_notifications t\<rparr>)"
  by (simp_all add: keeps_inbox_same set_rules_def set_devices_def)

lemma inbox_upsert:
  "db_rel keeps_inbox (upsert_notification u n n2 payload)"
proof -
  have "keeps_inbox t (set_notifications (upsert_row nr_id (nr_id row) (keep_notification row) row) t)"
    for t row
    using upsert_row_keeps [of _ "tb_notifications t" nr_id "nr_id row" "keep_notification row" row]
      same_row_simps unfolding keeps_inbox_def set_notifications_def by fastforce
  then show ?thesis
    unfolding upsert_notification_def upsert_app_seen_def Let_def
    by (intro inbox.rules inbox.update) simp_all
qed

lemma inbox_dismiss: "db_rel keeps_inbox (dismiss_notification i)"
proof -
  have "keeps_inbox t (set_notifications (update_rows (\<lambda>r. nr_id r = i) (\<lambda>r. r\<lparr>nr_status := ''READ''\<rparr>)) t)"
    for t
  proof -
    have "r \<in> set rs \<Longrightarrow> \<exists>r'\<in>set (update_rows P (\<lambda>r. r\<lparr>nr_status := ''READ''\<rparr>) rs). same_row r r'"
      for r rs and P :: "notification_row \<Rightarrow> bool"
      by (induction rs) (auto simp: update_rows_def)
    then show ?thesis by (simp add: keeps_inbox_def set_notifications_def)
  qed
  then show ?thesis
    unfolding dismiss_notification_def mark_status_def by (intro inbox.rules inbox.update) simp_all
qed

lemma same_inbox: "db_rel (\<lambda>t t'. t' = t) m \<Longrightarrow> db_rel keeps_inbox m"
  by (auto simp: db_rel_def inbox.refl)

lemma same_queries:
  "db_rel (\<lambda>t t'. t' = t) (equivalent_notification now payload)"
  "db_rel (\<lambda>t t'. t' = t) (notification_exists i)"
  "db_rel (\<lambda>t t'. t' = t) (get_setting key)"
  "db_rel (\<lambda>t t'. t' = t) (rules_update_envelope pr)"
  "db_rel (\<lambda>t t'. t' = t) (saved_pairing_key_for_device d k)"
  "db_rel (\<lambda>t t'. t' = t) auto_connect"
  unfolding equivalent_notification_def notification_exists_def get_setting_def
    rules_update_envelope_def csv_setting_def saved_pairing_key_for_device_def auto_connect_def Let_def
  by (auto intro!: same.rules same_list_app_rules)

lemma inbox_inventory: "db_rel keeps_inbox (save_app_inventory u n n2 payload)"
proof -
  have "db_rel keeps_inbox (inventory_changes u n n2 apps)" for apps
    unfolding inventory_changes_def save_inventory_row_def Let_def
    by (intro inbox.rules inbox.update) simp_all
  moreover have "db_rel keeps_inbox list_app_rules" by (rule same_inbox, rule same_list_app_rules)
  ultimately show ?thesis
    unfolding save_app_inventory_def
    by (auto intro!: inbox.rules split: option.splits sum.splits)
qed

lemmas inbox_keeps = inbox_upsert inbox_dismiss inbox_inventory
  same_queries [THEN same_inbox]

lemma channel_send_db [simp]: "as_db (snd (channel_send ch m s)) = as_db s"
  by (simp add: channel_send_def split: option.splits)

lemma keeps_if: "keeps R m \<Longrightarrow> keeps R n \<Longrightarrow> keeps R (if b then m else n)"
  by simp

lemma keeps_option:
  "keeps R m \<Longrightarrow> (\<And>v. keeps R (f v)) \<Longrightarrow> keeps R (case x of None \<Rightarrow> m | Some v \<Rightarrow> f v)"
  by (cases x) simp_all

lemma work_keeps_inbox:
  assumes "calm keeps_inbox others"
  shows "keeps keeps_inbox (apply_work_item p others clock ch decision)"
proof -
  note rules = inbox.lift assms inbox_keeps inbox.lift_act keeps_if keeps_option
  have end_part: "keeps keeps_inbox (show_notification others ch ex row)" for ex row
    unfolding show_notification_def by (intro rules)
  have "keeps keeps_inbox (store_notification p others clock ch v)" for v
    unfolding store_notification_def by (intro rules end_part)
  moreover have "keeps keeps_inbox (remove_notification others ch i)" for i
    unfolding remove_notification_def by (intro rules)
  moreover have "keeps keeps_inbox (take_inventory p others clock ch v)" for v
    unfolding take_inventory_def by (intro rules) simp_all
  moreover have "keeps keeps_inbox (\<lambda>h. (Inl e, h))" for e
    by (simp add: host_rel_def inbox.refl)
  ultimately show ?thesis
    unfolding apply_work_item_def by (cases decision) (auto intro!: rules)
qed

section \<open>An acknowledged notification is stored\<close>

definition same_message :: "notification_row \<Rightarrow> notification_row \<Rightarrow> bool" where
  "same_message n r \<longleftrightarrow> nr_package_name r = nr_package_name n \<and> nr_sender r = nr_sender n
     \<and> nr_message r = nr_message n \<and> nr_timestamp r = nr_timestamp n"

text \<open>
  \<open>stored payload i t\<close>: the message of the payload is in the table, under the id \<open>i\<close> or, when it
  is not blank, under another. A payload without a time is stored with the time of receipt.
\<close>

definition stored :: "json \<Rightarrow> string \<Rightarrow> tables \<Rightarrow> bool" where
  "stored payload i t \<longleftrightarrow> (\<exists>now. \<exists>r\<in>set (tb_notifications t).
     same_message (notification_from_payload now payload) r
     \<and> (nr_id r = i \<or> trim (nr_message r) \<noteq> []))"

lemma stored_mono:
  assumes "stored payload i t" and "only_reads t t'"
  shows "stored payload i t'"
proof -
  obtain now r where r: "r \<in> set (tb_notifications t)"
    "same_message (notification_from_payload now payload) r" "nr_id r = i \<or> trim (nr_message r) \<noteq> []"
    using assms(1) unfolding stored_def by blast
  then obtain r' where r': "r' \<in> set (tb_notifications t')" "r' = r \<or> r' = r\<lparr>nr_status := ''READ''\<rparr>"
    using assms(2) unfolding only_reads_def by blast
  then have "same_message (notification_from_payload now payload) r'" "nr_id r' = i \<or> trim (nr_message r') \<noteq> []"
    using r(2,3) by (auto simp: same_message_def)
  then show ?thesis unfolding stored_def using r'(1) by blast
qed

lemma find_SomeD: "find P xs = Some x \<Longrightarrow> x \<in> set xs \<and> P x"
  by (induction xs) (auto split: if_splits)

lemma equivalent_found:
  assumes "equivalent_notification now payload d = (Inr (Some j), d')"
  shows "stored payload i (db_tables d')"
proof -
  let ?n = "notification_from_payload now payload"
  have nonblank: "trim (nr_message ?n) \<noteq> []"
    and run: "db_bind db_open (\<lambda>_. db_query ''look for an equivalent notification''
           (\<lambda>t. map_option nr_id (find (\<lambda>r. nr_package_name r = nr_package_name ?n
                \<and> nr_sender r = nr_sender ?n \<and> nr_message r = nr_message ?n
                \<and> nr_timestamp r = nr_timestamp ?n \<and> nr_id r \<noteq> nr_id ?n) (tb_notifications t)))) d
      = (Inr (Some j), d')"
    using assms by (auto simp: equivalent_notification_def Let_def db_return_def split: if_splits)
  from db_bind_InrD [OF run] obtain d1 where
    query: "db_query ''look for an equivalent notification''
           (\<lambda>t. map_option nr_id (find (\<lambda>r. nr_package_name r = nr_package_name ?n
                \<and> nr_sender r = nr_sender ?n \<and> nr_message r = nr_message ?n
                \<and> nr_timestamp r = nr_timestamp ?n \<and> nr_id r \<noteq> nr_id ?n) (tb_notifications t))) d1
      = (Inr (Some j), d')" by blast
  obtain r where "r \<in> set (tb_notifications (db_tables d'))" "same_message ?n r"
    using db_query_InrD [OF query] by (auto simp: same_message_def dest!: find_SomeD [rotated] sym [of "Some _"])
  moreover from this have "trim (nr_message r) \<noteq> []" using nonblank by (simp add: same_message_def)
  ultimately show ?thesis unfolding stored_def by blast
qed

lemma upsert_stores:
  assumes "upsert_notification u now now2 payload d = (Inr row, d')"
  shows "stored payload (nr_id row) (db_tables d') \<and> row = notification_from_payload now payload"
proof -
  let ?row = "notification_from_payload now payload"
  obtain d1 d2 where up: "db_update ''upsert notification''
      (set_notifications (upsert_row nr_id (nr_id ?row) (keep_notification ?row) ?row)) d1 = (Inr (), d2)"
    and last: "db_return ?row d2 = (Inr row, d')"
    using assms unfolding upsert_notification_def Let_def
    by (auto dest!: db_bind_InrD)
  then have d': "d' = d2" and row: "row = ?row" by (simp_all add: db_return_def)
  have rows: "tb_notifications (db_tables d') =
      upsert_row nr_id (nr_id ?row) (keep_notification ?row) ?row (tb_notifications (db_tables d1))"
    using db_update_InrD [OF up] d' by (simp add: set_notifications_def)
  have "same_message ?row ?row" "\<And>r. same_message ?row (keep_notification ?row r)"
    "\<And>r. nr_id (keep_notification ?row r) = nr_id r"
    by (simp_all add: same_message_def keep_notification_def)
  then have "\<exists>r\<in>set (tb_notifications (db_tables d')). same_message ?row r \<and> nr_id r = nr_id ?row"
    using upsert_row_there [of nr_id "nr_id ?row" "keep_notification ?row" ?row
        "tb_notifications (db_tables d1)"] unfolding rows by metis
  then show ?thesis unfolding stored_def row by blast
qed

lemma show_reads:
  assumes "calm only_reads others"
  shows "keeps only_reads (show_notification others ch ex row)"
  unfolding show_notification_def by (intro reads.lift assms keeps_if)

lemma show_notification_id:
  "show_notification others ch ex row h = (Inr (Some i), h') \<Longrightarrow> i = nr_id row"
  unfolding show_notification_def
  by (auto elim!: host_bind_InrE simp: host_return_def split: if_splits)

lemma store_notification_stores:
  assumes "calm only_reads others"
    and "store_notification p others clock ch payload h = (Inr (Some i), h')"
  shows "stored payload i (tables_of h') \<and> (\<forall>j. get_str ''id'' payload = Some j \<longrightarrow> i = j)"
proof -
  let ?copy = "case get_str ''id'' payload of None \<Rightarrow> host_return None
      | Some _ \<Rightarrow> query_db (others 1) (equivalent_notification (clock 1) payload)"
  obtain copy h1 where first: "?copy h = (Inr copy, h1)"
    and rest: "(if copy \<noteq> None then host_return (get_str ''id'' payload) else
       host_bind (case get_str ''id'' payload of None \<Rightarrow> host_return False
                  | Some i \<Rightarrow> query_db (others 2) (notification_exists i)) (\<lambda>existed.
       host_bind (ask (others 3) (current ch)) (\<lambda>ok.
       if \<not> ok then host_return None else
       host_bind (query_db (others 4)
                    (upsert_notification (dk_unicode p) (clock 4) (clock 5) payload)) (\<lambda>row.
       show_notification others ch existed row)))) h1 = (Inr (Some i), h')"
    using assms(2) unfolding store_notification_def by (elim host_bind_InrE)
  show ?thesis
  proof (cases copy)
    case (Some j)
    then obtain k where k: "get_str ''id'' payload = Some k" "i = k" "h' = h1"
      using rest by (auto simp: host_return_def)
    then have "query_db (others 1) (equivalent_notification (clock 1) payload) h = (Inr (Some j), h1)"
      using first Some by simp
    then obtain d where "equivalent_notification (clock 1) payload (as_db (h_app (others 1 h))) = (Inr (Some j), d)"
      "tables_of h1 = db_tables d"
      by (elim query_db_InrE) (simp add: tables_of_def)
    then show ?thesis using equivalent_found [of "clock 1" payload _ j d i] k by simp
  next
    case None
    obtain ex row h2 h3 where up: "query_db (others 4)
        (upsert_notification (dk_unicode p) (clock 4) (clock 5) payload) h2 = (Inr row, h3)"
      and shown: "show_notification others ch ex row h3 = (Inr (Some i), h')"
      using rest None by (auto elim!: host_bind_InrE simp: host_return_def split: if_splits)
    obtain d where d: "upsert_notification (dk_unicode p) (clock 4) (clock 5) payload
        (as_db (h_app (others 4 h2))) = (Inr row, d)" "tables_of h3 = db_tables d"
      using up by (elim query_db_InrE) (simp add: tables_of_def)
    have i: "i = nr_id row" using shown by (rule show_notification_id)
    have "only_reads (tables_of h3) (tables_of h')"
      using show_reads [OF assms(1)] shown by (rule host_relD)
    then show ?thesis
      using upsert_stores [OF d(1)] d(2) stored_mono i
      by (auto simp: notification_from_payload_def string_field_def)
  qed
qed

section \<open>The work's result and its acknowledgement\<close>

lemma service_loop_result:
  "service_loop (map (turn_with r) ts) s = (Some (Inr x), s') \<Longrightarrow> r = Inr x"
proof (induction ts arbitrary: s)
  case Nil
  then show ?case by simp
next
  case (Cons t ts)
  have one: "r = Inr x" if "service_turn (turn_with r t) s = (Some (Inr x), s1)" for s1
    using that unfolding service_turn_def select_branch_def turn_with_def
    by (auto split: if_splits prod.splits sum.splits selected.splits)
  obtain q s1 where q: "service_turn (turn_with r t) s = (q, s1)" by fastforce
  then show ?case using Cons one by (cases q) auto
qed

lemma serve_socket_result:
  assumes "serve_socket (map (turn_with r) ts) s = (Some (Inr x), n, s')"
  shows "r = Inr x"
  using assms unfolding serve_socket_def service_while_def
  by (auto split: prod.splits option.splits sum.splits dest: service_loop_result)

lemma serve_socket_same:
  assumes "serve_socket ts s = (q, n, s')"
  shows "so_sent s' = so_sent s \<and> so_key s' = so_key s \<and> so_channel s' = so_channel s
    \<and> so_random s' = so_random s \<and> so_drawn s' = so_drawn s"
  using assms unfolding serve_socket_def by (auto split: prod.splits)

lemma socket_send_sent:
  "socket_send body dl s = (r, s') \<Longrightarrow> so_sent s' = so_sent s \<or> so_sent s' = so_sent s @ [body]"
  by (auto simp: socket_send_def Let_def)

lemma sealed_same:
  "sealed p body s = (q, s') \<Longrightarrow> so_sent s' = so_sent s \<and> so_key s' = so_key s \<and> so_channel s' = so_channel s"
  by (auto simp: sealed_def split: option.splits)

lemma sealed_cong:
  "so_key s' = so_key s \<Longrightarrow> so_random s' = so_random s \<Longrightarrow> so_drawn s' = so_drawn s
    \<Longrightarrow> fst (sealed p body s') = fst (sealed p body s)"
  by (simp add: sealed_def split: option.splits)

lemma send_sealed_sent:
  assumes "send_sealed p ctx body dl s = (r, s')"
  shows "so_sent s' = so_sent s \<or>
    (\<exists>frame. fst (sealed p body s) = Some frame \<and> so_sent s' = so_sent s @ [frame])"
proof (cases "sealed p body s")
  case (Pair q s1)
  then show ?thesis
    using assms sealed_same [OF Pair] socket_send_sent [of _ "\<lambda>_. dl" s1 r s']
    unfolding send_sealed_def by (cases q) auto
qed

lemma work_item_acks:
  assumes "apply_work_item p others clock ch decision h = (Inr (Some i), h')"
    and "calm only_reads others"
  obtains payload where "decision = DStoreNotification payload" "stored payload i (tables_of h')"
    "\<And>j. get_str ''id'' payload = Some j \<Longrightarrow> i = j"
proof -
  obtain h1 where run: "(case decision of
       DStoreNotification payload \<Rightarrow> store_notification p others clock ch payload
     | DRemoveNotification i \<Rightarrow> remove_notification others ch i
     | DStatusUpdate payload \<Rightarrow> host_bind (emit (UiPhoneStatus payload)) (\<lambda>_. host_return None)
     | DRulesAck payload \<Rightarrow> host_bind (emit (UiRulesAck payload)) (\<lambda>_. host_return None)
     | DAppInventory payload \<Rightarrow> take_inventory p others clock ch payload
     | _ \<Rightarrow> (\<lambda>h. (Inl ''unexpected queued application work'', h))) h1 = (Inr (Some i), h')"
    using assms(1) unfolding apply_work_item_def
    by (auto elim!: host_bind_InrE simp: host_return_def split: if_splits)
  have no: "remove_notification others ch j h1 \<noteq> (Inr (Some i), h')"
    "take_inventory p others clock ch v h1 \<noteq> (Inr (Some i), h')"
    "host_bind (emit e) (\<lambda>_. host_return None) h1 \<noteq> (Inr (Some i), h')" for j v e
    unfolding remove_notification_def take_inventory_def
    by (auto elim!: host_bind_InrE simp: host_return_def split: if_splits)
  from run show thesis
  proof (cases decision)
    case (DStoreNotification payload)
    then show ?thesis
      using that run store_notification_stores [OF assms(2)] by auto
  qed (use run no in auto)
qed

lemma work_ends_tables:
  assumes "\<And>h. only_reads (tables_of h) (tables_of (wk_after w h))"
  shows "only_reads (tables_of h) (tables_of (work_ends w ch n h))"
proof -
  have "tables_of (on_app (mark_heartbeat t) h) = tables_of h" for t
    by (simp add: on_app_def mark_heartbeat_def update_diagnostics_def tables_of_def)
  then show ?thesis
    using assms [of h] assms [of "on_app (mark_heartbeat (wk_pong_at w)) h"]
    by (simp add: work_ends_def)
qed

lemma work_reply_sent:
  assumes "work_reply p w res s h = (r, s')" and "so_sent s' \<noteq> so_sent s"
  obtains i frame where "res = Some (Inr (Some i))" "so_sent s' = so_sent s @ [frame]"
    "fst (sealed p (jt_print (dk_json p) (notification_ack i (wk_ack_at w))) s) = Some frame"
proof -
  obtain i e where res: "res = Some (Inr (Some i))"
    and "send_notification_ack p (wk_ack_at w) i (hb_deadline (so_heartbeat s)) s = (e, s')"
    using assms unfolding work_reply_def
    by (auto split: if_splits option.splits sum.splits prod.splits)
  from send_sealed_sent [OF this(2) [unfolded send_notification_ack_def]] res assms(2) that
  show thesis by blast
qed

text \<open>C27: whatever a phone has sent and the other tasks and the socket do meanwhile, as long as
  the others only mark notifications read or add new ones, one piece of a phone's work loses no
  notification and turns none that was read back to unread; and when it makes this PC send
  anything, that is one acknowledgement, sealed under the socket's key, of a notification whose
  app, sender, text and time are in the database.\<close>

theorem acknowledged_notification_is_stored:
  assumes "work_apply p w decision (s, h) = (r, s', h')"
    and "calm only_reads (wk_others w)"
    and "\<And>h. only_reads (tables_of h) (tables_of (wk_after w h))"
  shows "keeps_inbox (tables_of h) (tables_of h')
    \<and> (so_sent s' \<noteq> so_sent s \<longrightarrow>
        (\<exists>payload i frame. decision = DStoreNotification payload \<and> stored payload i (tables_of h')
           \<and> (\<forall>j. get_str ''id'' payload = Some j \<longrightarrow> i = j)
           \<and> so_sent s' = so_sent s @ [frame]
           \<and> fst (sealed p (jt_print (dk_json p) (notification_ack i (wk_ack_at w))) s) = Some frame))"
proof -
  obtain q h1 where item: "apply_work_item p (wk_others w) (wk_clock w) (so_channel s) decision
      (h\<lparr>h_permit := True\<rparr>) = (q, h1)" by fastforce
  obtain res n s1 where serve: "serve_socket (map (turn_with q) (wk_turns w)) s = (res, n, s1)"
    by (metis prod_cases3)
  note same = serve_socket_same [OF serve]
  have h': "h' = work_ends w (so_channel s) n h1" and reply: "work_reply p w res s1 h' = (r, s')"
    using assms(1) unfolding work_apply_def by (auto simp: item serve Let_def split: prod.splits)
  have keep: "keeps_inbox (tables_of h) (tables_of h1)"
    using work_keeps_inbox [OF calm_reads_inbox [OF assms(2)]] item host_relD by fastforce
  have reads: "only_reads (tables_of h1) (tables_of h')"
    unfolding h' by (rule work_ends_tables [OF assms(3)])
  show ?thesis
  proof (intro conjI impI)
    show "keeps_inbox (tables_of h) (tables_of h')"
      using keep only_reads_keeps [OF reads] by (rule inbox.trans)
  next
    assume "so_sent s' \<noteq> so_sent s"
    then have "so_sent s' \<noteq> so_sent s1" using same by simp
    then obtain i frame where res: "res = Some (Inr (Some i))" and frame: "so_sent s' = so_sent s1 @ [frame]"
      "fst (sealed p (jt_print (dk_json p) (notification_ack i (wk_ack_at w))) s1) = Some frame"
      by (rule work_reply_sent [OF reply])
    have "q = Inr (Some i)" using serve_socket_result [OF serve [unfolded res]] .
    then obtain payload where pl: "decision = DStoreNotification payload" "stored payload i (tables_of h1)"
      "\<forall>j. get_str ''id'' payload = Some j \<longrightarrow> i = j"
      using work_item_acks item assms(2) by metis
    show "\<exists>payload i frame. decision = DStoreNotification payload \<and> stored payload i (tables_of h')
           \<and> (\<forall>j. get_str ''id'' payload = Some j \<longrightarrow> i = j)
           \<and> so_sent s' = so_sent s @ [frame]
           \<and> fst (sealed p (jt_print (dk_json p) (notification_ack i (wk_ack_at w))) s) = Some frame"
      using pl stored_mono [OF pl(2) reads] frame same sealed_cong [of s1 s] by metis
  qed
qed

section \<open>A notification is stored and acknowledged\<close>

definition demo_desk :: desk where
  "demo_desk =
     \<lparr>dk_unicode = ascii_unicode, dk_json = \<lparr>jt_print = (\<lambda>_. ''json''), jt_parse = (\<lambda>_. None)\<rparr>,
      dk_crypto = \<lparr>ec_hkdf = (\<lambda>_ _ _. []), ec_encrypt = (\<lambda>_ _ _. Some []),
        ec_decrypt = (\<lambda>_ _ _. None), ec_b64_encode = (\<lambda>_. []), ec_b64_decode = (\<lambda>_. None)\<rparr>\<rparr>"

definition demo_host :: host where
  "demo_host =
     \<lparr>h_app = (app_new (empty_db []) ''cert'')\<lparr>as_phone_sender := Some 7, as_channels := [(7, [])]\<rparr>,
      h_shown = [], h_emit_faults = [], h_permit = False\<rparr>"

definition demo_socket :: ws_socket where
  "demo_socket =
     (ws_accept 7 False ''192.168.1.2'' 0 [] [\<lparr>wr_now = 1, wr_sent = Some (Inr ()), wr_after = 2\<rparr>]
        (\<lambda>_. []))\<lparr>so_key := Some ''key''\<rparr>"

definition demo_work :: work_run where
  "demo_work =
     \<lparr>wk_turns = [\<lparr>tn_current = True, tn_start = 0, tn_ready = False, tn_read_at = 0, tn_probe_at = 0,
        tn_ping = Some (Inr ()), tn_ping_done = 0, tn_selected = SelWork (Inr ()) True, tn_select_at = 0\<rparr>],
      wk_others = (\<lambda>_ h. h), wk_after = (\<lambda>h. h), wk_clock = (\<lambda>_. 1000), wk_pong_at = 0, wk_ack_at = 1000\<rparr>"

definition demo_payload :: json where
  "demo_payload = JObject [(''id'', JString ''n1'')]"

lemma demo_ack: "so_sent (fst (snd (work_apply demo_desk demo_work (DStoreNotification demo_payload)
    (demo_socket, demo_host)))) = [''json'']"
proof -
  obtain h' where item: "apply_work_item demo_desk (\<lambda>_ h. h) (\<lambda>_. 1000) 7 (DStoreNotification demo_payload)
      (demo_host\<lparr>h_permit := True\<rparr>) = (Inr (Some ''n1''), h') \<and> as_phone_sender (h_app h') = Some 7"
    by (simp add: apply_work_item_def store_notification_def show_notification_def host_bind_def
        ask_def query_db_def app_db_def current_def is_current_phone_sender_def demo_host_def app_new_def
        demo_payload_def get_str_def equivalent_notification_def notification_from_payload_def
        nullable_string_field_def string_field_def db_return_def notification_exists_def db_bind_def
        db_open_def db_exec_def db_query_def empty_db_def upsert_notification_def upsert_app_seen_def
        db_update_def set_rules_def set_notifications_def host_when_def host_return_def Let_def)
  show ?thesis
    using item
    by (auto simp: work_apply_def demo_work_def demo_socket_def ws_accept_def serve_socket_def service_while_def
        turn_with_def service_turn_def send_probe_def hb_probe_def hb_send_def hb_new_def hb_deadline_def
        send_frame_before_def select_branch_def work_ends_def work_reply_def is_current_phone_sender_def
        send_notification_ack_def send_sealed_def sealed_def encrypt_envelope_def socket_send_def
        next_write_def demo_desk_def limits secs_def pending_default_def is_full_def Let_def)
qed

theorem acknowledged_notification_is_stored_witness:
  "stored demo_payload ''n1'' (tables_of (snd (snd (work_apply demo_desk demo_work
     (DStoreNotification demo_payload) (demo_socket, demo_host)))))"
proof -
  obtain r s' h' where run: "work_apply demo_desk demo_work (DStoreNotification demo_payload)
      (demo_socket, demo_host) = (r, s', h')" by (metis prod_cases3)
  have "so_sent s' \<noteq> so_sent demo_socket"
    using demo_ack run by (simp add: demo_socket_def ws_accept_def)
  moreover have "calm only_reads (wk_others demo_work)"
    by (simp add: calm_def quiet_def demo_work_def reads.refl)
  moreover have "only_reads (tables_of h) (tables_of (wk_after demo_work h))" for h
    by (simp add: demo_work_def reads.refl)
  ultimately obtain i where "stored demo_payload i (tables_of h')"
    "\<forall>j. get_str ''id'' demo_payload = Some j \<longrightarrow> i = j"
    using acknowledged_notification_is_stored [OF run] by blast
  then show ?thesis using run by (simp add: demo_payload_def get_str_def)
qed

end
