(* ===== verification/Ws_Access.thy ===== *)
theory Ws_Access
  imports Ws_Inbox
begin

text \<open>
  Who gets in: what a socket can do before it authenticates, what it must present, and that a
  manual disconnect holds against every socket until the user acts.
\<close>

section \<open>Reading the pairing code\<close>

definition stored_code :: "json_text \<Rightarrow> tables \<Rightarrow> pairing_session option" where
  "stored_code jt t =
     (case store_get (tb_settings t) PAIRING_SESSION_SETTING of
        None \<Rightarrow> None
      | Some v \<Rightarrow> if trim v = [] then None else Option.bind (jt_parse jt v) pairing_session_of_json)"

text \<open>The code a phone may present: the one held, or an unexpired one on disk.\<close>

definition live_code :: "json_text \<Rightarrow> int \<Rightarrow> app_state \<Rightarrow> pairing_session option" where
  "live_code jt now s =
     (case as_pairing s of
        Some c \<Rightarrow> Some c
      | None \<Rightarrow> Option.bind (stored_code jt (db_tables (as_db s)))
                  (\<lambda>c. if now < ps_expires_at c then Some c else None))"

lemma live_code_updates [simp]:
  "live_code jt now (s\<lparr>as_known_phone_allowed := b\<rparr>) = live_code jt now s"
  "live_code jt now (s\<lparr>as_known_phone_refused := b\<rparr>) = live_code jt now s"
  "live_code jt now (s\<lparr>as_awaiting_request_after_refusal := b\<rparr>) = live_code jt now s"
  "live_code jt now (s\<lparr>as_channels := q\<rparr>) = live_code jt now s"
  by (simp_all add: live_code_def cong: option.case_cong)

text \<open>\<open>only_looked s s'\<close>: at most the pairing code was read into memory.\<close>

definition only_looked :: "json_text \<Rightarrow> int \<Rightarrow> app_state \<Rightarrow> app_state \<Rightarrow> bool" where
  "only_looked jt now s s' \<longleftrightarrow>
     live_code jt now s' = live_code jt now s \<and> db_tables (as_db s') = db_tables (as_db s)
     \<and> (as_pairing s' = as_pairing s \<or> as_pairing s' = live_code jt now s)
     \<and> s'\<lparr>as_db := as_db s, as_pairing := as_pairing s\<rparr> = s"

lemma only_looked_refl [simp]: "only_looked jt now s s"
  by (simp add: only_looked_def)

lemma only_looked_trans:
  assumes "only_looked jt now a b" and "only_looked jt now b c"
  shows "only_looked jt now a c"
proof -
  have "c\<lparr>as_db := as_db a, as_pairing := as_pairing a\<rparr>
      = (c\<lparr>as_db := as_db b, as_pairing := as_pairing b\<rparr>)\<lparr>as_db := as_db a, as_pairing := as_pairing a\<rparr>"
    by simp
  also have "c\<lparr>as_db := as_db b, as_pairing := as_pairing b\<rparr> = b"
    using assms(2) by (simp add: only_looked_def)
  also have "b\<lparr>as_db := as_db a, as_pairing := as_pairing a\<rparr> = a"
    using assms(1) by (simp add: only_looked_def)
  finally show ?thesis using assms unfolding only_looked_def by auto
qed

lemma only_looked_sel:
  assumes "only_looked jt now s s'"
  shows "as_paused s' = as_paused s" "as_known_phone_allowed s' = as_known_phone_allowed s"
    "as_phone_sender s' = as_phone_sender s" "as_approved_phone s' = as_approved_phone s"
    "db_tables (as_db s') = db_tables (as_db s)" "live_code jt now s' = live_code jt now s"
proof -
  have eq: "s'\<lparr>as_db := as_db s, as_pairing := as_pairing s\<rparr> = s"
    using assms by (simp add: only_looked_def)
  show "as_paused s' = as_paused s" "as_known_phone_allowed s' = as_known_phone_allowed s"
    "as_phone_sender s' = as_phone_sender s" "as_approved_phone s' = as_approved_phone s"
    using arg_cong [OF eq, of as_paused] arg_cong [OF eq, of as_known_phone_allowed]
      arg_cong [OF eq, of as_phone_sender] arg_cong [OF eq, of as_approved_phone] by simp_all
  show "db_tables (as_db s') = db_tables (as_db s)" "live_code jt now s' = live_code jt now s"
    using assms by (simp_all add: only_looked_def)
qed

lemma look_db:
  assumes "app_db m s = (r, s')" and "db_rel (\<lambda>t t'. t' = t) m"
  shows "only_looked jt now s s'"
proof -
  obtain d where s': "s' = s\<lparr>as_db := d\<rparr>" using assms(1) by (auto simp: app_db_def split: prod.splits)
  have "db_tables (as_db s') = db_tables (as_db s)"
    using app_db_tables [OF assms] by simp
  then show ?thesis
    using s' unfolding only_looked_def live_code_def by (auto split: option.splits)
qed

lemma load_looks:
  assumes "load_pairing_session jt now s = (held, s')" and "as_pairing s = None"
  shows "only_looked jt now s s' \<and> (held = None \<or> held = live_code jt now s)"
proof -
  obtain r s1 where run: "app_db (get_setting PAIRING_SESSION_SETTING) s = (r, s1)" by fastforce
  then have looked: "only_looked jt now s s1" using same_queries(3) by (rule look_db)
  have v: "v = store_get (tb_settings (db_tables (as_db s))) PAIRING_SESSION_SETTING" if "r = Inr v" for v
    using run that get_setting_reads by (auto simp: app_db_def split: prod.splits)
  have "s' = s1" using assms(1) run
    by (auto simp: load_pairing_session_def split: sum.splits option.splits)
  moreover have "held = None \<or> held = live_code jt now s"
    using assms(1) run v assms(2)
    by (auto simp: load_pairing_session_def live_code_def stored_code_def
        split: sum.splits option.splits if_splits)
  ultimately show ?thesis using looked by simp
qed

lemma current_pairing_looks:
  assumes "current_pairing jt now s = (held, s')"
  shows "only_looked jt now s s' \<and> (held = None \<or> held = live_code jt now s)"
proof (cases "as_pairing s")
  case (Some c)
  then have "live_code jt now s = Some c" by (simp add: live_code_def)
  then show ?thesis using assms Some by (simp add: current_pairing_def)
next
  case None
  obtain s1 where load: "load_pairing_session jt now s = (held, s1)" and s': "s' = s1\<lparr>as_pairing := held\<rparr>"
    using assms None by (auto simp: current_pairing_def split: prod.splits)
  from load_looks [OF load None] have looked: "only_looked jt now s s1"
    and held: "held = None \<or> held = live_code jt now s" by auto
  then have "live_code jt now s' = live_code jt now s"
    using only_looked_sel [OF looked] None
    by (auto simp: s' live_code_def only_looked_def split: option.splits)
  then show ?thesis
    using looked held None unfolding only_looked_def s' by (auto simp: live_code_def)
qed

text \<open>\<open>no_wider s s'\<close>: nobody may attach after the step who could not before.\<close>

definition no_wider :: "json_text \<Rightarrow> int \<Rightarrow> app_state \<Rightarrow> app_state \<Rightarrow> bool" where
  "no_wider jt now s s' \<longleftrightarrow>
     live_code jt now s' = live_code jt now s \<and> db_tables (as_db s') = db_tables (as_db s)
     \<and> (as_pairing s' = as_pairing s \<or> as_pairing s' = live_code jt now s)
     \<and> as_paused s' = as_paused s \<and> (as_known_phone_allowed s' \<longrightarrow> as_known_phone_allowed s)
     \<and> as_phone_sender s' = as_phone_sender s"

lemma no_wider_refl [simp]: "no_wider jt now s s"
  by (simp add: no_wider_def)

lemma no_wider_trans: "no_wider jt now a b \<Longrightarrow> no_wider jt now b c \<Longrightarrow> no_wider jt now a c"
  unfolding no_wider_def by auto

lemma only_looked_no_wider: "only_looked jt now s s' \<Longrightarrow> no_wider jt now s s'"
  unfolding no_wider_def using only_looked_sel [of jt now s s'] only_looked_def by blast

section \<open>The credential\<close>

definition credential :: "desk \<Rightarrow> int \<Rightarrow> json \<Rightarrow> string \<Rightarrow> app_state \<Rightarrow> bool" where
  "credential p now payload key s \<longleftrightarrow>
     (let qr = string_field payload ''deviceId'' [] in
      (\<exists>c. live_code (dk_json p) now s = Some c \<and> now < ps_expires_at c \<and> ps_pairing_key c = key
         \<and> ps_device_id c = qr)
      \<or> (\<exists>r\<in>set (tb_devices (db_tables (as_db s))). pd_pairing_key r = key
           \<and> (pd_device_id r = phone_id payload qr \<or> pd_device_id r = qr)))"

lemma saved_key_looks:
  assumes "saved_key device key s = (r, s')"
  shows "only_looked jt now s s'"
proof -
  obtain q s1 where run: "app_db (saved_pairing_key_for_device device key) s = (q, s1)" by fastforce
  have "s' = s1" using assms run by (auto simp: saved_key_def split: sum.splits)
  then show ?thesis using run same_queries(5) look_db by blast
qed

lemma saved_key_row:
  assumes "saved_key device key s = (Some k, s')"
  shows "k = key \<and> (\<exists>row\<in>set (tb_devices (db_tables (as_db s))).
    pd_pairing_key row = key \<and> pd_device_id row = device)"
proof -
  obtain d where "saved_pairing_key_for_device device key (as_db s) = (Inr (Some k), d)"
    using assms by (cases "saved_pairing_key_for_device device key (as_db s)")
      (auto simp: saved_key_def app_db_def split: sum.splits)
  from db_bind_InrD [OF this [unfolded saved_pairing_key_for_device_def]] obtain x d1 where
    o: "db_open (as_db s) = (Inr x, d1)" and
    q: "db_query ''lookup saved pairing key'' (\<lambda>t. map_option pd_pairing_key
      (find (\<lambda>r. pd_device_id r = device \<and> pd_pairing_key r = key) (tb_devices t))) d1 = (Inr (Some k), d)"
    by blast
  have "db_tables d1 = db_tables (as_db s)" using o by (rule db_open_InrD)
  then show ?thesis using db_query_InrD [OF q] by (auto dest!: find_SomeD [rotated] sym [of "Some _"])
qed

lemma expected_key_credential:
  assumes "expected_pairing_key_for_envelope p now env s = (r, s')" and "env_type env = Auth"
  shows "only_looked (dk_json p) now s s' \<and>
    (\<forall>k. r = Some k \<longrightarrow> get_str ''pairingKey'' (env_payload env) = Some k
       \<and> credential p now (env_payload env) k s)"
proof (cases "get_str ''pairingKey'' (env_payload env)")
  case None
  then show ?thesis using assms by (simp add: expected_pairing_key_for_envelope_def)
next
  case (Some key)
  let ?qr = "string_field (env_payload env) ''deviceId'' []"
  let ?id = "phone_id (env_payload env) ?qr"
  obtain session s1 where cp: "current_pairing (dk_json p) now s = (session, s1)" by fastforce
  note looked = current_pairing_looks [OF cp]
  show ?thesis
  proof (cases "\<exists>c. session = Some c \<and> now < ps_expires_at c \<and> ps_pairing_key c = key \<and> ps_device_id c = ?qr")
    case True
    then obtain c where c: "session = Some c" "now < ps_expires_at c" "ps_pairing_key c = key"
      "ps_device_id c = ?qr" by blast
    then have live: "live_code (dk_json p) now s = Some c" using looked by simp
    have "r = Some key" "s' = s1"
      using assms Some cp c by (simp_all add: expected_pairing_key_for_envelope_def Let_def)
    then show ?thesis using Some looked live c by (auto simp: credential_def Let_def)
  next
    case False
    obtain f s2 where f: "saved_key ?id key s1 = (f, s2)" by fastforce
    obtain g s3 where g: "saved_key ?qr key s2 = (g, s3)" by fastforce
    have run: "(r, s') = (if f \<noteq> None then (f, s2) else (g, s3))"
      using assms Some cp False f g
      by (auto simp: expected_pairing_key_for_envelope_def Let_def split: option.splits if_splits)
    have l1: "only_looked (dk_json p) now s s1" using looked ..
    have l2: "only_looked (dk_json p) now s1 s2" using f by (rule saved_key_looks)
    have l3: "only_looked (dk_json p) now s2 s3" using g by (rule saved_key_looks)
    have "only_looked (dk_json p) now s s'"
      using run l1 l2 l3 by (auto split: if_splits intro: only_looked_trans)
    moreover have "k = key \<and> credential p now (env_payload env) k s" if "r = Some k" for k
    proof -
      have "k = key \<and> (\<exists>row\<in>set (tb_devices (db_tables (as_db s))). pd_pairing_key row = key
          \<and> (pd_device_id row = ?id \<or> pd_device_id row = ?qr))"
      proof (cases f)
        case None
        then have "g = Some k" using run that by simp
        then show ?thesis
          using saved_key_row [OF g [unfolded \<open>g = Some k\<close>]] only_looked_sel(5) [OF l1]
            only_looked_sel(5) [OF l2] by auto
      next
        case (Some k')
        then have "f = Some k" using run that by simp
        then show ?thesis
          using saved_key_row [OF f [unfolded \<open>f = Some k\<close>]] only_looked_sel(5) [OF l1] by auto
      qed
      then show ?thesis unfolding credential_def Let_def by blast
    qed
    ultimately show ?thesis using Some by auto
  qed
qed

section \<open>The decision\<close>

lemma attach_rule_result:
  assumes "attach_rule auto holds device s = (ok, s')"
  shows "(ok \<longrightarrow> as_paused s \<longrightarrow> holds \<or> as_known_phone_allowed s) \<and> (\<not> ok \<longrightarrow> no_wider jt now s s')"
proof (cases "holds \<and> as_paused s")
  case True
  then show ?thesis using assms by (auto simp: attach_rule_def may_attach_def resume_def Let_def)
next
  case False
  then have "may_attach (as_paused s) auto holds (is_approved_for_this_run device s)
      take_known_phone_allowance s = (True, s)
    \<or> may_attach (as_paused s) auto holds (is_approved_for_this_run device s)
      take_known_phone_allowance s = take_known_phone_allowance s \<and> \<not> holds"
    by (simp add: may_attach_def)
  then show ?thesis
    using assms False
    by (auto simp: attach_rule_def take_known_phone_allowance_def note_known_phone_refused_def
        may_attach_def no_wider_def split: if_splits)
qed

lemma decide_attach_result:
  assumes "decide_attach p now key device s = (ok, s')"
  shows "(\<not> ok \<longrightarrow> no_wider (dk_json p) now s s') \<and>
    (ok \<longrightarrow> (as_paused s \<longrightarrow> as_known_phone_allowed s
       \<or> (\<exists>c. live_code (dk_json p) now s = Some c \<and> ps_pairing_key c = key \<and> now < ps_expires_at c)))"
proof -
  obtain auto s1 where a: "auto_first_connection s = (auto, s1)" by fastforce
  obtain holds s2 where h: "holds_the_code_on_screen p now key s1 = (holds, s2)" by fastforce
  have l1: "only_looked (dk_json p) now s s1"
    using a look_db [OF _ same_queries(6)] by (auto simp: auto_first_connection_def split: prod.splits sum.splits)
  have l2: "only_looked (dk_json p) now s1 s2 \<and> (holds \<longrightarrow>
      (\<exists>c. live_code (dk_json p) now s1 = Some c \<and> ps_pairing_key c = key \<and> now < ps_expires_at c))"
  proof -
    obtain session t1 where c1: "current_pairing (dk_json p) now s1 = (session, t1)" by fastforce
    obtain session' t2 where c2: "current_pairing (dk_json p) now t1 = (session', t2)" by fastforce
    note k1 = current_pairing_looks [OF c1] and k2 = current_pairing_looks [OF c2]
    have both: "only_looked (dk_json p) now s1 t2" using k1 k2 only_looked_trans by blast
    have live: "live_code (dk_json p) now t1 = live_code (dk_json p) now s1"
      using k1 only_looked_sel(6) by blast
    have "s2 = t1 \<or> s2 = t2"
      using h c1 c2 by (auto simp: holds_the_code_on_screen_def pairing_code_is_live_def
          split: option.splits if_splits)
    moreover have "\<exists>c. live_code (dk_json p) now s1 = Some c \<and> ps_pairing_key c = key
        \<and> now < ps_expires_at c" if held: holds
    proof -
      obtain c c' where c: "session = Some c" "ps_pairing_key c = key" "session' = Some c'" "now < ps_expires_at c'"
        using h c1 c2 held by (auto simp: holds_the_code_on_screen_def pairing_code_is_live_def
            split: option.splits if_splits)
      then have "live_code (dk_json p) now s1 = Some c" "live_code (dk_json p) now s1 = Some c'"
        using k1 k2 live by auto
      then show ?thesis using c by auto
    qed
    ultimately show ?thesis using both k1 by blast
  qed
  have "no_wider (dk_json p) now s s2"
    using l1 l2 only_looked_no_wider no_wider_trans by blast
  moreover have "as_paused s2 = as_paused s"
    "as_known_phone_allowed s2 = as_known_phone_allowed s" "live_code (dk_json p) now s1 = live_code (dk_json p) now s"
    using only_looked_sel [OF l1] only_looked_sel [of "dk_json p" now s1 s2] l2 by auto
  moreover have "attach_rule auto holds device s2 = (ok, s')"
    using assms by (simp add: decide_attach_def a h)
  ultimately show ?thesis
    using l2 attach_rule_result [of auto holds device s2 ok s' "dk_json p" now] no_wider_trans by metis
qed

section \<open>A socket that has not authenticated\<close>

text \<open>
  What a pass over such a socket comes to: nothing but reading the code and refusing, or an
  accepted \<open>AUTH\<close>.
\<close>

definition untouched :: "desk \<Rightarrow> ws_pass \<Rightarrow> ws_state \<Rightarrow> ws_state \<Rightarrow> bool" where
  "untouched p e sh sh' \<longleftrightarrow> so_key (fst sh') = None \<and> h_shown (snd sh') = h_shown (snd sh)
     \<and> no_wider (dk_json p) (wp_at e) (h_app (snd sh)) (h_app (snd sh'))"

lemma send_text_key: "so_key (snd (send_text body s)) = so_key s"
  by (auto simp: send_text_def socket_send_def Let_def)

lemma send_outbound_quiet:
  "send_outbound p (s, h) = (r, s', h') \<Longrightarrow>
     so_key s' = so_key s \<and> (h' = h \<or> (\<exists>q. h' = on_app (\<lambda>a. a\<lparr>as_channels := q a\<rparr>) h))"
  unfolding send_outbound_def
  by (auto simp: send_sealed_def sealed_def socket_send_def Let_def
      split: option.splits list.splits prod.splits)

lemma next_inbound_same:
  "next_inbound s = (m, s') \<Longrightarrow> so_key s' = so_key s \<and> so_channel s' = so_channel s"
  by (auto simp: next_inbound_def split: prod.splits option.splits)

lemma auth_type_decision:
  assumes "env_type env = Auth"
  shows "handle_envelope env key = DAuthAccepted \<or> (\<exists>why. handle_envelope env key = DAuthFailed why)"
  using assms by (auto simp: handle_envelope_def split: option.splits)

lemma auth_message:
  assumes "so_key s = None" and "env_type env = Auth"
    and "handle_decision p e env key (s, h) = (r, s', h')"
  shows "untouched p e (s, h) (s', h') \<or>
    (\<exists>device a. handle_envelope env key = DAuthAccepted \<and> decide_attach p (wp_at e) key device (h_app h) = (True, a)
       \<and> attach_phone p e env key device (s, h\<lparr>h_app := a\<rparr>) = (r, s', h'))"
  using auth_type_decision [OF assms(2), of key]
proof
  assume accepted: "handle_envelope env key = DAuthAccepted"
  let ?device = "phone_id (env_payload env) (string_field (env_payload env) ''deviceId'' ''android-phone'')"
  obtain ok a where d: "decide_attach p (wp_at e) key ?device (h_app h) = (ok, a)" by fastforce
  show ?thesis
  proof (cases ok)
    case True
    then show ?thesis
      using assms(3) accepted d by (auto simp: handle_decision_def auth_accepted_def Let_def)
  next
    case False
    then have out: "s' = snd (send_text (auth_failed_text ''not_accepting'') s)" "h' = h\<lparr>h_app := a\<rparr>"
      using assms(3) accepted d by (auto simp: handle_decision_def auth_accepted_def Let_def)
    show ?thesis
      using assms(1) decide_attach_result [OF d] False by (simp add: untouched_def out send_text_key)
  qed
next
  assume "\<exists>why. handle_envelope env key = DAuthFailed why"
  then obtain body where "s' = snd (send_text body s)" "h' = h"
    using assms(3) by (auto simp: handle_decision_def)
  then show ?thesis
    using assms(1) by (simp add: untouched_def send_text_key)
qed

definition attaches ::
  "desk \<Rightarrow> ws_pass \<Rightarrow> envelope \<Rightarrow> string \<Rightarrow> host \<Rightarrow> ws_result \<Rightarrow> bool" where
  "attaches p e env key h res \<longleftrightarrow> env_type env = Auth \<and> handle_envelope env key = DAuthAccepted
     \<and> (\<exists>a0 device a s. expected_pairing_key_for_envelope p (wp_at e) env (h_app h) = (Some key, a0)
          \<and> decide_attach p (wp_at e) key device a0 = (True, a)
          \<and> attach_phone p e env key device (s, h\<lparr>h_app := a\<rparr>) = res)"

lemma untouched_app:
  "untouched p e (s, h\<lparr>h_app := a\<rparr>) sh' \<Longrightarrow> no_wider (dk_json p) (wp_at e) (h_app h) a
    \<Longrightarrow> untouched p e (s0, h) sh'"
  by (auto simp: untouched_def intro: no_wider_trans)

lemma unauthenticated_text:
  assumes "so_key s = None" and "handle_text p e txt (s, h) = (r, s', h')"
  shows "untouched p e (s, h) (s', h') \<or> (\<exists>env key. attaches p e env key h (r, s', h'))"
proof (cases "Option.bind (jt_parse (dk_json p) txt) envelope_of_json")
  case None
  then show ?thesis using assms by (simp add: handle_text_def untouched_def)
next
  case (Some env)
  show ?thesis
  proof (cases "env_type env = Auth")
    case False
    then show ?thesis using assms Some by (simp add: handle_text_def untouched_def active_def)
  next
    case True
    obtain found a0 where x: "expected_pairing_key_for_envelope p (wp_at e) env (h_app h) = (found, a0)"
      by fastforce
    define key where "key = (case found of Some k \<Rightarrow> k | None \<Rightarrow> [])"
    have run: "handle_decision p e env key (s, h\<lparr>h_app := a0\<rparr>) = (r, s', h')"
      using assms Some True x by (simp add: handle_text_def active_def open_envelope_def key_def)
    have same: "no_wider (dk_json p) (wp_at e) (h_app h) a0"
      using expected_key_credential [OF x True] only_looked_no_wider by blast
    from auth_message [OF assms(1) True run] show ?thesis
    proof
      assume "untouched p e (s, h\<lparr>h_app := a0\<rparr>) (s', h')"
      then show ?thesis using untouched_app same by blast
    next
      assume "\<exists>device a. handle_envelope env key = DAuthAccepted
        \<and> decide_attach p (wp_at e) key device (h_app (h\<lparr>h_app := a0\<rparr>)) = (True, a)
        \<and> attach_phone p e env key device (s, h\<lparr>h_app := a0\<rparr>\<lparr>h_app := a\<rparr>) = (r, s', h')"
      then obtain device a where ok: "handle_envelope env key = DAuthAccepted"
        "decide_attach p (wp_at e) key device a0 = (True, a)"
        "attach_phone p e env key device (s, h\<lparr>h_app := a\<rparr>) = (r, s', h')" by auto
      have "found = Some key"
        using ok(1) by (auto simp: key_def handle_envelope_accepted_iff envelope_ok_def split: option.splits)
      then show ?thesis unfolding attaches_def using ok True x by blast
    qed
  qed
qed

lemma unauthenticated_pass:
  assumes "so_key s = None" and "ws_pass_step p e (s, h) = (r, s', h')"
  shows "untouched p e (s, h) (s', h')
    \<or> wp_branch e = BrInbound \<and> (\<exists>env key. attaches p e env key h (r, s', h'))"
proof (cases "wp_branch e")
  case BrInbound
  obtain m s1 where m: "next_inbound s = (m, s1)" by fastforce
  have key: "so_key s1 = None" using next_inbound_same [OF m] assms(1) by simp
  have idle: ?thesis if "so_key s' = None" "h' = h" using that by (simp add: untouched_def)
  show ?thesis
  proof (cases "\<exists>txt. m = Some (Item (TextM txt))")
    case True
    then obtain body where "handle_text p e body (s1, h) = (r, s', h')"
      using assms BrInbound m key by (auto simp: ws_pass_step_def handle_message_def active_def Let_def)
    from unauthenticated_text [OF key this] BrInbound show ?thesis by (simp add: untouched_def)
  next
    case False
    then have "s' = s1 \<and> h' = h"
      using assms BrInbound m key
      by (auto simp: ws_pass_step_def handle_message_def active_def Let_def
          split: option.splits socket_item.splits ws_message.splits)
    then show ?thesis using idle key by blast
  qed
next
  case BrOutbound
  then have "send_outbound p (s, h) = (r, s', h')"
    using assms by (simp add: ws_pass_step_def active_def)
  then show ?thesis
    using send_outbound_quiet [of p s h r s' h'] assms(1)
    by (auto simp: untouched_def on_app_def no_wider_def)
qed (use assms in \<open>auto simp: ws_pass_step_def untouched_def active_def\<close>)

lemma attach_phone_key:
  assumes "attach_phone p e env key device (s, h) = (r, s', h')"
  shows "so_key s' = Some key"
  using assms send_text_key [of "auth_ok_text (nat (wp_at e))" "s\<lparr>so_key := Some key\<rparr>"]
  unfolding attach_phone_def
  by (auto simp: Let_def split: prod.splits sum.splits if_splits)

lemma attaches_facts:
  assumes "attaches p e env key h (r, s', h')"
  shows "so_key s' = Some key \<and> key \<noteq> [] \<and> env_version env = 1 \<and> env_type env = Auth
    \<and> get_str ''pairingKey'' (env_payload env) = Some key
    \<and> credential p (wp_at e) (env_payload env) key (h_app h)
    \<and> (as_paused (h_app h) \<longrightarrow> as_known_phone_allowed (h_app h)
        \<or> (\<exists>c. live_code (dk_json p) (wp_at e) (h_app h) = Some c \<and> ps_pairing_key c = key
             \<and> wp_at e < ps_expires_at c))"
proof -
  obtain a0 device a s where x: "expected_pairing_key_for_envelope p (wp_at e) env (h_app h) = (Some key, a0)"
    and d: "decide_attach p (wp_at e) key device a0 = (True, a)"
    and att: "attach_phone p e env key device (s, h\<lparr>h_app := a\<rparr>) = (r, s', h')"
    and ty: "env_type env = Auth" and ok: "handle_envelope env key = DAuthAccepted"
    using assms unfolding attaches_def by blast
  have looked: "only_looked (dk_json p) (wp_at e) (h_app h) a0"
    and cred: "credential p (wp_at e) (env_payload env) key (h_app h)"
    using expected_key_credential [OF x ty] by auto
  show ?thesis
    using attach_phone_key [OF att] ok cred decide_attach_result [OF d] only_looked_sel [OF looked]
    by (auto simp: handle_envelope_accepted_iff envelope_ok_def)
qed

section \<open>After a manual disconnect\<close>

text \<open>\<open>shut\<close>: the user has disconnected, and nothing in the state would let a phone in.\<close>

definition shut :: "json_text \<Rightarrow> app_state \<Rightarrow> bool" where
  "shut jt s \<longleftrightarrow> as_paused s \<and> \<not> as_known_phone_allowed s \<and> as_phone_sender s = None
     \<and> as_pairing s = None \<and> stored_code jt (db_tables (as_db s)) = None"

lemma shut_live: "shut jt s \<Longrightarrow> live_code jt now s = None"
  by (simp add: shut_def live_code_def)

lemma shut_no_wider: "shut jt s \<Longrightarrow> no_wider jt now s s' \<Longrightarrow> shut jt s'"
  using shut_live [of jt s now] by (auto simp: shut_def no_wider_def)

lemma disconnect_shuts:
  assumes "fst (set_setting PAIRING_SESSION_SETTING [] (as_db s)) = Inr ()"
  shows "shut jt (mark_manual_disconnect s)"
proof -
  obtain d where d: "set_setting PAIRING_SESSION_SETTING [] (as_db s) = (Inr (), d)"
    using assms by (cases "set_setting PAIRING_SESSION_SETTING [] (as_db s)") auto
  have "stored_code jt (db_tables d) = None"
    using set_setting_InrD [OF d] by (simp add: stored_code_def kv.get_put_same)
  then show ?thesis
    by (simp add: shut_def mark_manual_disconnect_def clear_pairing_session_def app_db_def d
        forget_approved_phone_def clear_phone_sender_def update_diagnostics_def Let_def)
qed

text \<open>
  The condition matters: when the setting cannot be written, the failure is only logged, and
  the next reader of the code finds the retired one on disk.
\<close>

lemma disconnect_undone:
  assumes "db_faults (as_db s) = [False]" and "stored_code jt (db_tables (as_db s)) = Some c"
    and "now < ps_expires_at c"
  shows "fst (current_pairing jt now (mark_manual_disconnect s)) = Some c"
  using assms
  by (auto simp: current_pairing_def load_pairing_session_def mark_manual_disconnect_def
      clear_pairing_session_def forget_approved_phone_def clear_phone_sender_def update_diagnostics_def
      app_db_def set_setting_def get_setting_def db_bind_def db_open_def db_update_def db_query_def
      db_exec_def stored_code_def Let_def Option.bind_eq_Some_conv split: option.splits if_splits)

datatype phone_event =
  Connect nat nat bool string instant "socket_item list" "ws_write list" "nat \<Rightarrow> bytes"
| Pass nat ws_pass
| End nat int outcome

fun phone_step :: "desk \<Rightarrow> phone_event \<Rightarrow> (nat \<Rightarrow> ws_socket) \<times> host \<Rightarrow> (nat \<Rightarrow> ws_socket) \<times> host" where
  "phone_step p (Connect i ch loopback ip now input writes random) (ss, h) =
     (ss(i := ws_accept ch loopback ip now input writes random), h)"
| "phone_step p (Pass i e) (ss, h) =
     (case ws_pass_step p e (ss i, h) of (_, s', h') \<Rightarrow> (ss(i := s'), h'))"
| "phone_step p (End i at r) (ss, h) =
     (case ws_finish at r (ss i, h) of (_, s', h') \<Rightarrow> (ss(i := s'), h'))"

lemma shut_pass:
  assumes "shut (dk_json p) (h_app h)" and "ws_pass_step p e (s, h) = (r, s', h')"
  shows "shut (dk_json p) (h_app h') \<and> tables_of h' = tables_of h \<and> h_shown h' = h_shown h"
proof (cases "so_key s")
  case None
  have "\<not> attaches p e env key h (r, s', h')" for env key
    using attaches_facts [of p e env key h r s' h'] assms(1) shut_live [OF assms(1)]
    by (auto simp: shut_def)
  then have "untouched p e (s, h) (s', h')" using unauthenticated_pass [OF None assms(2)] by blast
  then show ?thesis
    using shut_no_wider [OF assms(1)] by (auto simp: untouched_def no_wider_def tables_of_def)
next
  case (Some key)
  have mine: "\<not> is_mine x h" for x
    using assms(1) by (simp add: is_mine_def is_current_phone_sender_def shut_def)
  show ?thesis
  proof (cases "wp_branch e")
    case BrOutbound
    then obtain s0 where "send_outbound p (s0, h) = (r, s', h')"
      using assms(2) by (auto simp: ws_pass_step_def Let_def)
    then show ?thesis
      using send_outbound_quiet [of p s0 h r s' h'] assms(1)
      by (auto simp: on_app_def tables_of_def shut_def)
  next
    case BrInbound
    define s0 where "s0 = s\<lparr>so_pending := pending_clear (so_pending s)\<rparr>"
    obtain m s1 where m: "next_inbound s0 = (m, s1)" by fastforce
    have "active s1" using next_inbound_same [OF m] Some by (simp add: active_def s0_def)
    then have "h' = h"
      using assms(2) BrInbound m Some mine
      by (auto simp: ws_pass_step_def handle_message_def active_def s0_def [symmetric] Let_def
          split: option.splits socket_item.splits)
    then show ?thesis using assms(1) by simp
  next
    case BrWake
    then have "h' = h"
      using assms(2) Some mine by (auto simp: ws_pass_step_def probe_phone_def active_def Let_def
          split: prod.splits option.splits)
    then show ?thesis using assms(1) by simp
  qed (use assms in \<open>auto simp: ws_pass_step_def Let_def\<close>)
qed

lemma shut_finish:
  assumes "shut jt (h_app h)"
  shows "snd (snd (ws_finish at r (s, h))) = h"
  using assms
  by (simp add: ws_finish_def clear_phone_sender_if_current_with_reason_def shut_def Let_def)

lemma shut_step:
  assumes "shut (dk_json p) (h_app h)" and "phone_step p ev (ss, h) = (ss', h')"
  shows "shut (dk_json p) (h_app h') \<and> tables_of h' = tables_of h \<and> h_shown h' = h_shown h"
proof (cases ev)
  case (Pass i e)
  then obtain r s' where "ws_pass_step p e (ss i, h) = (r, s', h')"
    using assms(2) by (auto split: prod.splits)
  then show ?thesis by (rule shut_pass [OF assms(1)])
next
  case (End i at r)
  then have "h' = snd (snd (ws_finish at r (ss i, h)))"
    using assms(2) by (auto split: prod.splits)
  then show ?thesis using shut_finish assms(1) by fastforce
qed (use assms in auto)

lemma shut_run:
  assumes "shut (dk_json p) (h_app h)" and "fold (phone_step p) evs (ss, h) = (ss', h')"
  shows "shut (dk_json p) (h_app h') \<and> tables_of h' = tables_of h \<and> h_shown h' = h_shown h"
  using assms
proof (induction evs arbitrary: ss h)
  case (Cons ev evs)
  obtain ss1 h1 where "phone_step p ev (ss, h) = (ss1, h1)" by fastforce
  then show ?case using shut_step [OF Cons.prems(1)] Cons by fastforce
qed simp

section \<open>Properties\<close>

text \<open>C28: a socket that has not authenticated changes no table and shows the user nothing,
  whatever its peer sends; the one thing that ends this is a version 1 \<open>AUTH\<close> in the clear whose
  key is that of the unexpired code on screen, for the device the code names, or of a saved
  device under the identity presented; and while the PC is paused even that attaches only a
  phone that holds the code on screen or that the user asked for.\<close>

theorem nothing_before_authentication:
  assumes "so_key s = None" and "ws_pass_step p e (s, h) = (r, s', h')"
  shows "so_key s' = None \<and> tables_of h' = tables_of h \<and> h_shown h' = h_shown h
    \<or> (\<exists>payload key. so_key s' = Some key \<and> key \<noteq> [] \<and> get_str ''pairingKey'' payload = Some key
         \<and> credential p (wp_at e) payload key (h_app h)
         \<and> (as_paused (h_app h) \<longrightarrow> as_known_phone_allowed (h_app h)
             \<or> (\<exists>c. live_code (dk_json p) (wp_at e) (h_app h) = Some c \<and> ps_pairing_key c = key
                  \<and> wp_at e < ps_expires_at c)))"
  using unauthenticated_pass [OF assms]
proof
  assume "untouched p e (s, h) (s', h')"
  then have "so_key s' = None" "tables_of h' = tables_of h" "h_shown h' = h_shown h"
    unfolding untouched_def no_wider_def tables_of_def by auto
  then show ?thesis by blast
next
  assume "wp_branch e = BrInbound \<and> (\<exists>env key. attaches p e env key h (r, s', h'))"
  then obtain env key where "attaches p e env key h (r, s', h')" by auto
  note facts = attaches_facts [OF this]
  show ?thesis
    by (rule disjI2, rule exI [of _ "env_payload env"], rule exI [of _ key]) (use facts in simp)
qed


section \<open>Witnesses\<close>

definition auth_desk :: desk where
  "auth_desk = demo_desk\<lparr>dk_json := \<lparr>jt_print = (\<lambda>_. []), jt_parse = (\<lambda>_. Some (JObject
     [(''version'', JNumber (PosInt 1)), (''type'', JString ''AUTH''),
      (''payload'', JObject [(''pairingKey'', JString ''guess'')])]))\<rparr>\<rparr>"

definition auth_pass :: ws_pass where
  "auth_pass = \<lparr>wp_branch = BrInbound, wp_now = 1, wp_at = 1000, wp_rowid = 1,
     wp_during_auth = (\<lambda>h. h), wp_work = []\<rparr>"

definition new_socket :: ws_socket where
  "new_socket = ws_accept 8 False ''192.168.1.3'' 0 [Item (TextM ''auth'')] [] (\<lambda>_. [])"

lemma demo_host_closed: "\<not> credential p now payload key (h_app demo_host)"
  by (simp add: credential_def live_code_def stored_code_def demo_host_def app_new_def empty_db_def Let_def)

theorem nothing_before_authentication_witness:
  "so_key (fst (snd (ws_pass_step auth_desk auth_pass (new_socket, demo_host)))) = None"
proof -
  obtain r s' h' where run: "ws_pass_step auth_desk auth_pass (new_socket, demo_host) = (r, s', h')"
    by (metis prod_cases3)
  have "so_key new_socket = None" by (simp add: new_socket_def ws_accept_def)
  from nothing_before_authentication [OF this run] demo_host_closed run show ?thesis by auto
qed


end
