(* ===== verification/Fallible.thy ===== *)
theory Fallible
  imports Prelude
begin

text \<open>
  Operations that change a state and may fail on the way, keeping what they did until then,
  with Hoare triples that also say what holds when an operation stops with an error.
\<close>

type_synonym ('s, 'a) fallible = "'s \<Rightarrow> (string + 'a) \<times> 's"

definition sreturn :: "'a \<Rightarrow> ('s, 'a) fallible" where
  "sreturn x s = (Inr x, s)"

definition sfail :: "string \<Rightarrow> ('s, 'a) fallible" where
  "sfail e s = (Inl e, s)"

definition sbind :: "('s, 'a) fallible \<Rightarrow> ('a \<Rightarrow> ('s, 'b) fallible) \<Rightarrow> ('s, 'b) fallible" where
  "sbind m f s = (case m s of (Inl e, s') \<Rightarrow> (Inl e, s') | (Inr x, s') \<Rightarrow> f x s')"

definition sensure :: "bool \<Rightarrow> string \<Rightarrow> ('s, unit) fallible" where
  "sensure b e = (if b then sreturn () else sfail e)"

definition swhen :: "bool \<Rightarrow> ('s, unit) fallible \<Rightarrow> ('s, unit) fallible" where
  "swhen b m = (if b then m else sreturn ())"

lemma sbind_return [simp]: "sbind (sreturn x) f = f x"
  by (simp add: fun_eq_iff sbind_def sreturn_def)

lemma sbind_fail [simp]: "sbind (sfail e) f = sfail e"
  by (simp add: fun_eq_iff sbind_def sfail_def)

lemma sbind_InrE:
  assumes "sbind m f s = (Inr y, s')"
  obtains x s1 where "m s = (Inr x, s1)" "f x s1 = (Inr y, s')"
  using assms by (auto simp: sbind_def split: prod.splits sum.splits)

section \<open>Triples\<close>

text \<open>\<open>triple E P m Q\<close>: from \<open>P\<close>, the operation returns with \<open>Q\<close> or stops with \<open>E\<close>.\<close>

definition triple ::
  "('s \<Rightarrow> bool) \<Rightarrow> ('s \<Rightarrow> bool) \<Rightarrow> ('s, 'a) fallible \<Rightarrow> ('a \<Rightarrow> 's \<Rightarrow> bool) \<Rightarrow> bool" where
  "triple E P m Q \<longleftrightarrow> (\<forall>s r s'. P s \<longrightarrow> m s = (r, s') \<longrightarrow>
     (case r of Inl e \<Rightarrow> E s' | Inr x \<Rightarrow> Q x s'))"

lemma triple_return: "triple E (Q x) (sreturn x) Q"
  by (simp add: triple_def sreturn_def)

lemma triple_fail: "triple E E (sfail e) Q"
  by (simp add: triple_def sfail_def)

lemma triple_bind:
  assumes m: "triple E P m Q" and f: "\<And>x. triple E (Q x) (f x) R"
  shows "triple E P (sbind m f) R"
  unfolding triple_def
proof (intro allI impI)
  fix s r s' assume P: "P s" and run: "sbind m f s = (r, s')"
  obtain r1 s1 where one: "m s = (r1, s1)" by fastforce
  show "case r of Inl e \<Rightarrow> E s' | Inr x \<Rightarrow> R x s'"
  proof (cases r1)
    case (Inl e)
    then show ?thesis using m P one run by (fastforce simp: triple_def sbind_def)
  next
    case (Inr x)
    then have "Q x s1" using m P one by (fastforce simp: triple_def)
    moreover have "f x s1 = (r, s')" using run one Inr by (simp add: sbind_def)
    ultimately show ?thesis using f [of x] unfolding triple_def by blast
  qed
qed

lemma triple_weaken:
  "triple E P' m Q' \<Longrightarrow> (\<And>s. P s \<Longrightarrow> P' s) \<Longrightarrow> (\<And>x s. Q' x s \<Longrightarrow> Q x s) \<Longrightarrow> triple E P m Q"
  unfolding triple_def by (fastforce split: sum.splits)

lemma triple_pre: "triple E P' m Q \<Longrightarrow> (\<And>s. P s \<Longrightarrow> P' s) \<Longrightarrow> triple E P m Q"
  by (rule triple_weaken)

lemma triple_ensure:
  "(\<And>s. P s \<Longrightarrow> \<not> b \<Longrightarrow> E s) \<Longrightarrow> triple E P (sensure b e) (\<lambda>_ s. P s \<and> b)"
  by (simp add: triple_def sensure_def sreturn_def sfail_def)

lemma triple_if:
  "(b \<Longrightarrow> triple E P m Q) \<Longrightarrow> (\<not> b \<Longrightarrow> triple E P n Q) \<Longrightarrow> triple E P (if b then m else n) Q"
  by simp

lemma triple_when:
  "(b \<Longrightarrow> triple E P m Q) \<Longrightarrow> (\<And>s. P s \<Longrightarrow> \<not> b \<Longrightarrow> Q () s) \<Longrightarrow> triple E P (swhen b m) Q"
  by (auto simp: swhen_def triple_def sreturn_def)

lemma triple_conj:
  assumes "\<And>s. P s \<Longrightarrow> b" and "b \<Longrightarrow> triple E P m Q"
  shows "triple E P m Q"
proof (cases b)
  case False
  then have "\<not> P s" for s using assms(1) by blast
  then show ?thesis by (simp add: triple_def)
qed (rule assms(2))

lemma tripleD:
  assumes "triple E P m Q" and "P s" and "m s = (r, s')"
  shows "case r of Inl e \<Rightarrow> E s' | Inr x \<Rightarrow> Q x s'"
  using assms unfolding triple_def by blast

end
