(* ===== verification/Database_Key.thy ===== *)
theory Database_Key
  imports Fallible
begin

text \<open>
  desktop/src-tauri/src/security/database_key.rs: the key of the local database, in a file only
  the user's Windows account can unwrap, or in the macOS Keychain. The DPAPI calls are the
  functions \<open>wrap\<close> and \<open>unwrap\<close>; the random key is an argument. A write may stop at any byte.
\<close>

definition FORMAT :: bytes where
  "FORMAT = map of_char ''FocusBridge-DPAPI-key-v1'' @ [0]"

definition PAYLOAD :: bytes where
  "PAYLOAD = map of_char ''FocusBridge-SQLCipher-256-v1'' @ [0]"

definition MAX_ENVELOPE :: nat where [limits]: "MAX_ENVELOPE = 16 * 1024"

definition has_prefix :: "bytes \<Rightarrow> bytes \<Rightarrow> bool" where
  "has_prefix p bs \<longleftrightarrow> take (length p) bs = p"

record dpapi =
  dp_wrap :: "bytes \<Rightarrow> bytes option"
  dp_unwrap :: "bytes \<Rightarrow> bytes option"

text \<open>Reading an existing key file.\<close>

definition unwrap_key :: "dpapi \<Rightarrow> bytes \<Rightarrow> string + bytes" where
  "unwrap_key dp stored =
     (let envelope = take (MAX_ENVELOPE + 1) stored
      in if MAX_ENVELOPE < length envelope then Inl ''invalid database key envelope size''
         else if \<not> has_prefix FORMAT envelope then Inl ''unsupported or corrupt database key envelope''
         else case dp_unwrap dp (drop (length FORMAT) envelope) of
                None \<Rightarrow> Inl ''cannot unwrap database key for this Windows user''
              | Some plaintext \<Rightarrow>
                  if length plaintext = length PAYLOAD + 32 \<and> has_prefix PAYLOAD plaintext
                  then Inr (drop (length PAYLOAD) plaintext)
                  else Inl ''invalid unwrapped database key'')"

text \<open>
  The file system as these functions see it: the key file, and for each step to come whether it
  is taken, stopped, or stopped after some bytes.
\<close>

datatype fate = Go | Stop | Torn nat

record key_files =
  kf_file :: "bytes option"
  kf_fates :: "fate list"

definition key_step :: "string \<Rightarrow> (key_files \<Rightarrow> key_files) \<Rightarrow> (nat \<Rightarrow> key_files \<Rightarrow> key_files)
    \<Rightarrow> (key_files, unit) fallible" where
  "key_step ctx whole part s =
     (case kf_fates s of
        Stop # fs \<Rightarrow> (Inl ctx, s\<lparr>kf_fates := fs\<rparr>)
      | Torn n # fs \<Rightarrow> (Inl ctx, part n (s\<lparr>kf_fates := fs\<rparr>))
      | fs \<Rightarrow> (Inr (), whole (s\<lparr>kf_fates := tl fs\<rparr>)))"

definition append_key :: "bytes \<Rightarrow> (key_files, unit) fallible" where
  "append_key bs =
     key_step ''write database key''
       (\<lambda>s. s\<lparr>kf_file := map_option (\<lambda>old. old @ bs) (kf_file s)\<rparr>)
       (\<lambda>n s. s\<lparr>kf_file := map_option (\<lambda>old. old @ take n bs) (kf_file s)\<rparr>)"

definition read_key :: "dpapi \<Rightarrow> (key_files, bytes) fallible" where
  "read_key dp s =
     (case kf_file s of
        None \<Rightarrow> (Inl ''database key is missing'', s)
      | Some stored \<Rightarrow> (unwrap_key dp stored, s))"

definition create_key_file :: "(key_files, unit) fallible" where
  "create_key_file s =
     (if kf_file s \<noteq> None
      then (Inl ''create protected database key without overwriting an existing key'', s)
      else key_step ''create protected database key without overwriting an existing key''
             (\<lambda>s. s\<lparr>kf_file := Some []\<rparr>) (\<lambda>_ s. s) s)"

definition windows_load_or_create :: "dpapi \<Rightarrow> bytes \<Rightarrow> bool \<Rightarrow> (key_files, bytes) fallible" where
  "windows_load_or_create dp random allow_create s =
     (if kf_file s \<noteq> None then read_key dp s
      else if \<not> allow_create then (Inl ''database key is missing'', s)
      else case dp_wrap dp (PAYLOAD @ random) of
             None \<Rightarrow> (Inl ''wrap database key with Windows user DPAPI'', s)
           | Some wrapped \<Rightarrow>
               sbind create_key_file (\<lambda>_.
               sbind (append_key FORMAT) (\<lambda>_.
               sbind (append_key wrapped) (\<lambda>_.
               sbind (key_step ''flush protected database key'' id (\<lambda>_ s. s)) (\<lambda>_.
               sbind (read_key dp) (\<lambda>persisted.
               sbind (sensure (persisted = random) ''persisted database key does not match'') (\<lambda>_.
               sreturn persisted)))))) s)"

text \<open>The macOS Keychain: an item that is added, never updated.\<close>

definition keychain_load ::
  "bytes \<Rightarrow> bool \<Rightarrow> bool \<Rightarrow> bytes option \<Rightarrow> (string + bytes \<times> bool) \<times> bytes option" where
  "keychain_load random add_ok allow_create item =
     (case item of
        Some password \<Rightarrow>
          (if length password = 32 then Inr (password, False)
           else Inl ''invalid Keychain database key; key was not reset'', item)
      | None \<Rightarrow>
          if \<not> allow_create then (Inl ''database Keychain key missing, locked, or inaccessible'', None)
          else if \<not> add_ok then (Inl ''create database key in user Keychain without replacement'', None)
          else (Inr (random, True), Some random))"

definition macos_load_or_create ::
  "bytes \<Rightarrow> bool \<Rightarrow> bool \<Rightarrow> bool \<Rightarrow> bool \<Rightarrow> bytes option \<Rightarrow> (string + bytes) \<times> bytes option" where
  "macos_load_or_create random add_ok database_exists recovery_exists allow_create item =
     (case keychain_load random add_ok allow_create item of
        (Inl e, item') \<Rightarrow> (Inl e, item')
      | (Inr (key, fresh), item') \<Rightarrow>
          (if database_exists \<or> fresh \<or> recovery_exists then Inr key
           else Inl ''database is missing but its Keychain key exists'', item'))"

definition sqlcipher_key :: "bytes \<Rightarrow> string" where
  "sqlcipher_key key =
     ''x'' @ [CHR 0x27]
     @ concat (map (\<lambda>b. map (\<lambda>d. ''0123456789abcdef'' ! d) [unat b div 16, unat b mod 16]) key)
     @ [CHR 0x27]"

section \<open>A key is kept once it can be read\<close>

text \<open>
  \<open>dpapi_laws\<close>: the documented behaviour of DPAPI for one user, which unwraps what it wrapped.
\<close>

definition dpapi_laws :: "dpapi \<Rightarrow> bool" where
  "dpapi_laws dp \<longleftrightarrow> (\<forall>plain wrapped. dp_wrap dp plain = Some wrapped \<longrightarrow>
     dp_unwrap dp wrapped = Some plain)"

definition stored_key :: "dpapi \<Rightarrow> bytes option \<Rightarrow> bytes option" where
  "stored_key dp file =
     Option.bind file (\<lambda>stored. case unwrap_key dp stored of Inl _ \<Rightarrow> None | Inr k \<Rightarrow> Some k)"

lemma read_key_stored: "read_key dp s = (Inr k, s') \<Longrightarrow> s' = s \<and> stored_key dp (kf_file s) = Some k"
  by (auto simp: read_key_def stored_key_def split: option.splits sum.splits)

text \<open>Whatever happens, a key file that exists is never touched.\<close>

lemma key_file_kept:
  "kf_file s \<noteq> None \<Longrightarrow> windows_load_or_create dp random allow s = (r, s') \<Longrightarrow> s' = s"
  by (auto simp: windows_load_or_create_def read_key_def split: option.splits)

lemma key_not_created: "windows_load_or_create dp random False s = (r, s') \<Longrightarrow> s' = s"
  by (auto simp: windows_load_or_create_def read_key_def split: option.splits if_splits)

lemma loaded_key_stored:
  assumes "windows_load_or_create dp random allow s = (Inr k, s')"
  shows "stored_key dp (kf_file s') = Some k"
proof (cases "kf_file s = None \<and> allow")
  case False
  then have "read_key dp s = (Inr k, s')"
    using assms by (auto simp: windows_load_or_create_def split: if_splits)
  then show ?thesis using read_key_stored by blast
next
  case True
  then obtain wrapped where "dp_wrap dp (PAYLOAD @ random) = Some wrapped"
    using assms by (auto simp: windows_load_or_create_def split: option.splits)
  then have "\<exists>s1. read_key dp s1 = (Inr k, s')"
    using assms True
    by (auto simp: windows_load_or_create_def sensure_def sreturn_def sfail_def
        elim!: sbind_InrE split: if_splits)
  then show ?thesis using read_key_stored by blast
qed

end
