(* ===== verification/Encrypted_Db.thy ===== *)
theory Encrypted_Db
  imports Database_Key
begin

text \<open>
  desktop/src-tauri/src/db/encrypted.rs: opening the database, and the migration of a plaintext
  database to an encrypted one with its recovery. The three files are slots with a content and
  a write-ahead log; the data \<open>'d\<close> of a database is what its log holds, or its file. SQLCipher and
  the digest are the parameters \<open>engine\<close>. Every access to the disk may fail or be where the
  program dies: it then stops, and leaves what it had done.
\<close>

datatype slot = Main | Staged | Backup

datatype 'd content = Reserved | Short | Plain 'd | Cipher bytes 'd | Damaged

datatype file_kind = Missing | Plaintext | EncryptedFile

record 'd disk =
  di_files :: "slot \<Rightarrow> 'd content option"
  di_wal :: "slot \<Rightarrow> 'd option"
  di_key :: "bytes option"
  di_fates :: "fate list"

record 'd engine =
  en_blank :: 'd
  en_torn :: "nat \<Rightarrow> 'd content"
  en_digest :: "'d \<Rightarrow> bytes"
  en_atomic_move :: bool
  en_dpapi :: dpapi
  en_random :: bytes

type_synonym ('d, 'a) disk_op = "('d disk, 'a) fallible"

definition put_file :: "slot \<Rightarrow> 'd content option \<Rightarrow> 'd disk \<Rightarrow> 'd disk" where
  "put_file x c s = s\<lparr>di_files := (di_files s)(x := c)\<rparr>"

definition put_wal :: "slot \<Rightarrow> 'd option \<Rightarrow> 'd disk \<Rightarrow> 'd disk" where
  "put_wal x w s = s\<lparr>di_wal := (di_wal s)(x := w)\<rparr>"

text \<open>One access: taken, or stopped before it, or torn.\<close>

definition access_torn ::
  "string \<Rightarrow> ('d disk \<Rightarrow> 'a \<times> 'd disk) \<Rightarrow> (nat \<Rightarrow> 'd disk \<Rightarrow> 'd disk) \<Rightarrow> ('d, 'a) disk_op" where
  "access_torn ctx whole part s =
     (case di_fates s of
        Stop # fs \<Rightarrow> (Inl ctx, s\<lparr>di_fates := fs\<rparr>)
      | Torn n # fs \<Rightarrow> (Inl ctx, part n (s\<lparr>di_fates := fs\<rparr>))
      | fs \<Rightarrow> (case whole (s\<lparr>di_fates := tl fs\<rparr>) of (x, s') \<Rightarrow> (Inr x, s')))"

definition access :: "string \<Rightarrow> ('d disk \<Rightarrow> 'a \<times> 'd disk) \<Rightarrow> ('d, 'a) disk_op" where
  "access ctx whole = access_torn ctx whole (\<lambda>_ s. s)"

definition regular_file_exists :: "slot \<Rightarrow> ('d, bool) disk_op" where
  "regular_file_exists x =
     access ''inspect database or recovery artifact'' (\<lambda>s. (di_files s x \<noteq> None, s))"

fun kind_of :: "'d content option \<Rightarrow> string + file_kind" where
  "kind_of None = Inr Missing"
| "kind_of (Some Reserved) = Inl ''database is truncated or empty; it will not be reset''"
| "kind_of (Some Short) = Inl ''database is truncated or empty; it will not be reset''"
| "kind_of (Some (Plain d)) = Inr Plaintext"
| "kind_of (Some _) = Inr EncryptedFile"

definition kind :: "slot \<Rightarrow> ('d, file_kind) disk_op" where
  "kind x =
     sbind (access ''inspect database or recovery artifact'' (\<lambda>s. (kind_of (di_files s x), s))) (\<lambda>k.
       case k of Inl e \<Rightarrow> sfail e | Inr k' \<Rightarrow> sreturn k')"

section \<open>Connections\<close>

text \<open>The data a connection sees.\<close>

definition data_of :: "'d disk \<Rightarrow> slot \<Rightarrow> 'd \<Rightarrow> 'd" where
  "data_of s x d = (case di_wal s x of Some w \<Rightarrow> w | None \<Rightarrow> d)"

text \<open>
  Opening proves the key: without one only a plaintext database opens, with one only a database
  under it, or the file just reserved, which is still empty.
\<close>

definition open_data :: "'d engine \<Rightarrow> bytes option \<Rightarrow> slot \<Rightarrow> 'd disk \<Rightarrow> 'd option" where
  "open_data en key x s =
     (case (di_files s x, key) of
        (Some (Plain d), None) \<Rightarrow> Some (data_of s x d)
      | (Some (Cipher k d), Some key') \<Rightarrow> if k = key' then Some (data_of s x d) else None
      | (Some Reserved, Some _) \<Rightarrow> Some (en_blank en)
      | _ \<Rightarrow> None)"

definition connection :: "'d engine \<Rightarrow> slot \<Rightarrow> bytes option \<Rightarrow> ('d, 'd) disk_op" where
  "connection en x key =
     sbind (if key = None
            then sbind (kind x) (\<lambda>k. sensure (k = Plaintext)
                   ''plaintext access is restricted to a recognized legacy migration source'')
            else sreturn ()) (\<lambda>_.
     sbind (access ''open database without creation'' (\<lambda>s. (open_data en key x s, s))) (\<lambda>found.
     case found of None \<Rightarrow> sfail ''database key or database integrity is invalid; no reset was performed''
     | Some d \<Rightarrow> sreturn d))"

text \<open>Closing the last connection, or a truncating checkpoint: the log goes into the file.\<close>

definition checkpoint :: "bytes option \<Rightarrow> slot \<Rightarrow> 'd disk \<Rightarrow> 'd disk" where
  "checkpoint key x s =
     (case di_wal s x of
        None \<Rightarrow> s
      | Some w \<Rightarrow> put_wal x None (put_file x (Some (case key of None \<Rightarrow> Plain w | Some k \<Rightarrow> Cipher k w)) s))"

definition close_connection :: "bytes option \<Rightarrow> slot \<Rightarrow> ('d, unit) disk_op" where
  "close_connection key x = access ''close database'' (\<lambda>s. ((), checkpoint key x s))"

definition ensure_no_sidecars :: "slot \<Rightarrow> ('d, unit) disk_op" where
  "ensure_no_sidecars x =
     sbind (access ''inspect database or recovery artifact'' (\<lambda>s. (di_wal s x, s))) (\<lambda>w.
       sensure (w = None) ''database journal sidecars remain'')"

definition legacy_locked :: "'d engine \<Rightarrow> slot \<Rightarrow> ('d, 'd) disk_op" where
  "legacy_locked en x =
     sbind (connection en x None) (\<lambda>d.
     sbind (access ''legacy database WAL is busy'' (\<lambda>s. ((), checkpoint None x s))) (\<lambda>_.
     sreturn d))"

definition sync_file :: "slot \<Rightarrow> ('d, unit) disk_op" where
  "sync_file x = access ''flush database before migration publication'' (\<lambda>s. ((), s))"

section \<open>The steps of the migration\<close>

definition create_empty :: "slot \<Rightarrow> ('d, unit) disk_op" where
  "create_empty x =
     sbind (access ''reserve new database'' (\<lambda>s. (di_files s x = None, s))) (\<lambda>free.
     sbind (sensure free ''reserve new database without overwriting any file'') (\<lambda>_.
     access ''reserve new database'' (\<lambda>s. ((), put_file x (Some Reserved) s))))"

text \<open>The export is one transaction on the candidate, which an interruption may leave in any state.\<close>

definition export :: "'d engine \<Rightarrow> 'd \<Rightarrow> bytes \<Rightarrow> ('d, unit) disk_op" where
  "export en d key =
     sbind (create_empty Staged) (\<lambda>_.
     sbind (access_torn ''export legacy database''
              (\<lambda>s. ((), put_file Staged (Some (Cipher key d)) s))
              (\<lambda>n s. put_file Staged (Some (en_torn en n)) s)) (\<lambda>_.
     sync_file Staged))"

definition verify_export :: "'d engine \<Rightarrow> slot \<Rightarrow> bytes \<Rightarrow> bytes \<Rightarrow> ('d, unit) disk_op" where
  "verify_export en x key expected =
     sbind (kind x) (\<lambda>k.
     sbind (sensure (k = EncryptedFile) ''migration output is not an encrypted database'') (\<lambda>_.
     sbind (connection en x (Some key)) (\<lambda>d.
     sbind (sensure (en_digest en d = expected) ''export does not match the legacy schema/data'') (\<lambda>_.
     sbind (close_connection (Some key) x) (\<lambda>_.
     sbind (sync_file x) (\<lambda>_.
     ensure_no_sidecars x))))))"

text \<open>
  A move is one step on Windows; elsewhere the new name is linked first and the old one removed
  after.
\<close>

definition move_without_replace :: "'d engine \<Rightarrow> slot \<Rightarrow> slot \<Rightarrow> ('d, unit) disk_op" where
  "move_without_replace en x y =
     sbind (regular_file_exists y) (\<lambda>there.
     sbind (sensure (\<not> there) ''migration destination already exists; refusing to overwrite it'') (\<lambda>_.
     if en_atomic_move en
     then access ''publish database migration without overwrite''
            (\<lambda>s. ((), put_file x None (put_file y (di_files s x) s)))
     else sbind (access ''publish database without overwrite'' (\<lambda>s. ((), put_file y (di_files s x) s))) (\<lambda>_.
          access ''remove moved database'' (\<lambda>s. ((), put_file x None s)))))"

definition cleanup_backup :: "'d engine \<Rightarrow> bytes \<Rightarrow> ('d, unit) disk_op" where
  "cleanup_backup en key =
     sbind (ensure_no_sidecars Main) (\<lambda>_.
     sbind (ensure_no_sidecars Backup) (\<lambda>_.
     sbind (legacy_locked en Backup) (\<lambda>d.
     sbind (verify_export en Main key (en_digest en d)) (\<lambda>_.
     sbind (close_connection None Backup) (\<lambda>_.
     sbind (ensure_no_sidecars Backup) (\<lambda>_.
     access ''remove verified plaintext migration backup'' (\<lambda>s. ((), put_file Backup None s))))))))"

definition install :: "'d engine \<Rightarrow> bytes \<Rightarrow> ('d, unit) disk_op" where
  "install en key =
     sbind (ensure_no_sidecars Main) (\<lambda>_.
     sbind (ensure_no_sidecars Backup) (\<lambda>_.
     sbind (legacy_locked en Backup) (\<lambda>d.
     sbind (verify_export en Staged key (en_digest en d)) (\<lambda>_.
     sbind (close_connection None Backup) (\<lambda>_.
     sbind (move_without_replace en Staged Main) (\<lambda>_.
     cleanup_backup en key))))))"

definition prepare_new :: "'d engine \<Rightarrow> bytes \<Rightarrow> ('d, unit) disk_op" where
  "prepare_new en key =
     sbind (create_empty Main) (\<lambda>_.
     sbind (connection en Main (Some key)) (\<lambda>d.
     sbind (access_torn ''create database'' (\<lambda>s. ((), put_file Main (Some (Cipher key d)) s))
              (\<lambda>n s. put_file Main (Some (en_torn en n)) s)) (\<lambda>_.
     sbind (close_connection (Some key) Main) (\<lambda>_.
     sync_file Main))))"

definition prepare_plain :: "'d engine \<Rightarrow> bytes \<Rightarrow> ('d, unit) disk_op" where
  "prepare_plain en key =
     sbind (regular_file_exists Backup) (\<lambda>backup.
     sbind (sensure (\<not> backup) ''both a legacy database and its migration backup exist'') (\<lambda>_.
     sbind (legacy_locked en Main) (\<lambda>d.
     sbind (regular_file_exists Staged) (\<lambda>staged.
     sbind (swhen (\<not> staged) (export en d key)) (\<lambda>_.
     sbind (verify_export en Staged key (en_digest en d)) (\<lambda>_.
     sbind (close_connection None Main) (\<lambda>_.
     sbind (ensure_no_sidecars Main) (\<lambda>_.
     sbind (sync_file Main) (\<lambda>_.
     sbind (move_without_replace en Main Backup) (\<lambda>_.
     sbind (ensure_no_sidecars Main) (\<lambda>_.
     install en key)))))))))))"

definition prepare_missing :: "'d engine \<Rightarrow> bytes \<Rightarrow> ('d, unit) disk_op" where
  "prepare_missing en key =
     sbind (kind Backup) (\<lambda>k.
     sbind (regular_file_exists Staged) (\<lambda>staged.
     sbind (sensure (k = Plaintext \<and> staged) ''incomplete database migration'') (\<lambda>_.
     install en key)))"

definition prepare_encrypted :: "'d engine \<Rightarrow> bytes \<Rightarrow> ('d, unit) disk_op" where
  "prepare_encrypted en key =
     sbind (connection en Main (Some key)) (\<lambda>_.
     sbind (close_connection (Some key) Main) (\<lambda>_.
     sbind (regular_file_exists Staged) (\<lambda>staged.
     sbind (sensure (\<not> staged) ''unexpected encrypted candidate beside the live database'') (\<lambda>_.
     sbind (regular_file_exists Backup) (\<lambda>backup.
     swhen backup (cleanup_backup en key))))))"

definition prepare :: "'d engine \<Rightarrow> bytes \<Rightarrow> ('d, unit) disk_op" where
  "prepare en key =
     sbind (kind Main) (\<lambda>k.
     case k of
       Plaintext \<Rightarrow> prepare_plain en key
     | EncryptedFile \<Rightarrow> prepare_encrypted en key
     | Missing \<Rightarrow>
         sbind (regular_file_exists Backup) (\<lambda>backup.
         sbind (if backup then sreturn True else regular_file_exists Staged) (\<lambda>interrupted.
         if interrupted then prepare_missing en key else prepare_new en key)))"

section \<open>Starting\<close>

text \<open>The key, on the same disk.\<close>

definition load_key :: "'d engine \<Rightarrow> bool \<Rightarrow> ('d, bytes) disk_op" where
  "load_key en allow_create s =
     (case windows_load_or_create (en_dpapi en) (en_random en) allow_create
             \<lparr>kf_file = di_key s, kf_fates = di_fates s\<rparr> of
        (r, k) \<Rightarrow> (r, s\<lparr>di_key := kf_file k, di_fates := kf_fates k\<rparr>))"

definition initialize_impl :: "'d engine \<Rightarrow> ('d, bytes) disk_op" where
  "initialize_impl en =
     sbind (access ''database is in use by another process'' (\<lambda>s. ((), s))) (\<lambda>_.
     sbind (kind Main) (\<lambda>main.
     sbind (regular_file_exists Staged) (\<lambda>has_staged.
     sbind (regular_file_exists Backup) (\<lambda>has_backup.
     sbind (access ''inspect database key'' (\<lambda>s. (di_key s \<noteq> None, s))) (\<lambda>has_key.
     sbind (sensure (main \<noteq> Missing \<or> \<not> has_key \<or> has_staged \<or> has_backup)
              ''database is missing but its protected key exists'') (\<lambda>_.
     sbind (if main = Missing then ensure_no_sidecars Main else sreturn ()) (\<lambda>_.
     sbind (load_key en (main \<noteq> EncryptedFile \<and> \<not> has_staged \<and> \<not> has_backup)) (\<lambda>key.
     sbind (prepare en key) (\<lambda>_.
     sreturn key)))))))))"

text \<open>An ordinary connection: never creates, migrates or replaces.\<close>

definition open_encrypted :: "'d engine \<Rightarrow> bytes option \<Rightarrow> ('d, 'd) disk_op" where
  "open_encrypted en registered =
     (case registered of
        None \<Rightarrow> sfail ''database has not been securely initialized; refusing an unkeyed connection''
      | Some key \<Rightarrow>
          sbind (kind Main) (\<lambda>k.
          sbind (sensure (k = EncryptedFile) ''encrypted database is missing or was replaced'') (\<lambda>_.
          connection en Main (Some key))))"

end
