(* ===== verification/Encrypted_Facts.thy ===== *)
theory Encrypted_Facts
  imports Encrypted_Db
begin

text \<open>
  The migration never loses the data: wherever it stops, a file holds it, and nothing that is
  opened as the database holds anything else; to hold it is to have its digest. Triples whose error condition is this invariant
  are carried through every step.
\<close>

section \<open>The invariant\<close>

definition holds :: "'d engine \<Rightarrow> 'd \<Rightarrow> slot \<Rightarrow> 'd disk \<Rightarrow> bool" where
  "holds en d x s \<longleftrightarrow>
     (case di_files s x of
        Some (Plain y) \<Rightarrow> en_digest en (data_of s x y) = en_digest en d
      | Some (Cipher k y) \<Rightarrow> stored_key (en_dpapi en) (di_key s) = Some k
          \<and> en_digest en (data_of s x y) = en_digest en d
      | _ \<Rightarrow> False)"

definition is_plain :: "slot \<Rightarrow> 'd disk \<Rightarrow> bool" where
  "is_plain x s \<longleftrightarrow> (\<exists>y. di_files s x = Some (Plain y))"

definition safe :: "'d engine \<Rightarrow> 'd \<Rightarrow> 'd disk \<Rightarrow> bool" where
  "safe en d s \<longleftrightarrow>
     (if di_files s Main = None then holds en d Backup s \<and> di_wal s Main = None else holds en d Main s)
     \<and> (if di_files s Backup = None then di_wal s Backup = None
        else holds en d Backup s \<and> is_plain Backup s)"

definition keyed :: "'d engine \<Rightarrow> bytes \<Rightarrow> 'd disk \<Rightarrow> bool" where
  "keyed en key s \<longleftrightarrow> stored_key (en_dpapi en) (di_key s) = Some key"

lemma fates_irrelevant [simp]:
  "holds en d x (s\<lparr>di_fates := fs\<rparr>) = holds en d x s"
  "is_plain x (s\<lparr>di_fates := fs\<rparr>) = is_plain x s"
  "safe en d (s\<lparr>di_fates := fs\<rparr>) = safe en d s"
  "keyed en key (s\<lparr>di_fates := fs\<rparr>) = keyed en key s"
  "open_data en k x (s\<lparr>di_fates := fs\<rparr>) = open_data en k x s"
  "data_of (s\<lparr>di_fates := fs\<rparr>) x y = data_of s x y"
proof -
  show data: "data_of (s\<lparr>di_fates := fs\<rparr>) x y = data_of s x y" for x y
    by (simp add: data_of_def)
  show holds: "holds en d x (s\<lparr>di_fates := fs\<rparr>) = holds en d x s" for x
    by (simp add: holds_def data split: option.split content.split)
  show "is_plain x (s\<lparr>di_fates := fs\<rparr>) = is_plain x s" by (simp add: is_plain_def)
  then show "safe en d (s\<lparr>di_fates := fs\<rparr>) = safe en d s"
    by (simp add: safe_def holds is_plain_def)
  show "keyed en key (s\<lparr>di_fates := fs\<rparr>) = keyed en key s" by (simp add: keyed_def)
  show "open_data en k x (s\<lparr>di_fates := fs\<rparr>) = open_data en k x s"
    by (simp add: open_data_def data split: option.split content.split)
qed

lemma put_simps [simp]:
  "di_files (put_file x c s) = (di_files s)(x := c)" "di_wal (put_file x c s) = di_wal s"
  "di_key (put_file x c s) = di_key s" "di_files (put_wal x w s) = di_files s"
  "di_wal (put_wal x w s) = (di_wal s)(x := w)" "di_key (put_wal x w s) = di_key s"
  by (simp_all add: put_file_def put_wal_def)

definition stable :: "('d disk \<Rightarrow> bool) \<Rightarrow> bool" where
  "stable P \<longleftrightarrow> (\<forall>s fs. P s \<longrightarrow> P (s\<lparr>di_fates := fs\<rparr>))"

section \<open>Steps\<close>

lemma triple_access_torn:
  assumes "stable P" and "\<And>s. P s \<Longrightarrow> E s" and "\<And>s n. P s \<Longrightarrow> E (g n s)"
    and "\<And>s. P s \<Longrightarrow> Q (fst (f s)) (snd (f s))"
  shows "triple E P (access_torn ctx f g) Q"
  unfolding triple_def
proof (intro allI impI)
  fix s r s' assume P: "P s" and run: "access_torn ctx f g s = (r, s')"
  have all: "E (s\<lparr>di_fates := fs\<rparr>)" "E (g n (s\<lparr>di_fates := fs\<rparr>))"
    "Q (fst (f (s\<lparr>di_fates := fs\<rparr>))) (snd (f (s\<lparr>di_fates := fs\<rparr>)))" for fs n
    using assms P unfolding stable_def by blast+
  show "case r of Inl e \<Rightarrow> E s' | Inr x \<Rightarrow> Q x s'"
    using run all unfolding access_torn_def
    by (auto split: list.splits fate.splits prod.splits) (metis fst_conv snd_conv)+
qed

lemma triple_access:
  assumes "stable P" and "\<And>s. P s \<Longrightarrow> E s" and "\<And>s. P s \<Longrightarrow> Q (fst (f s)) (snd (f s))"
  shows "triple E P (access ctx f) Q"
  unfolding access_def by (rule triple_access_torn) (use assms in auto)

text \<open>Operations that only look: they change nothing but the fates to come.\<close>

definition looks :: "('d, 'a) disk_op \<Rightarrow> ('a \<Rightarrow> 'd disk \<Rightarrow> bool) \<Rightarrow> bool" where
  "looks m F \<longleftrightarrow> (\<forall>P E. stable P \<longrightarrow> (\<forall>s. P s \<longrightarrow> E s) \<longrightarrow> triple E P m (\<lambda>x s. P s \<and> F x s))"

lemma looksD:
  "looks m F \<Longrightarrow> stable P \<Longrightarrow> (\<And>s. P s \<Longrightarrow> E s) \<Longrightarrow> triple E P m (\<lambda>x s. P s \<and> F x s)"
  by (simp add: looks_def)

lemma looks_access: "(\<And>s. F (g s) s) \<Longrightarrow> looks (access ctx (\<lambda>s. (g s, s))) F"
  unfolding looks_def by (intro allI impI triple_access) auto

lemma looks_bind:
  fixes m :: "('d, 'a) disk_op"
  assumes "looks m F" and "\<And>x. stable (F x)" and "\<And>x. looks (f x) (G x)"
    and "\<And>x y s. F x s \<Longrightarrow> G x y s \<Longrightarrow> H y s"
  shows "looks (sbind m f) H"
  unfolding looks_def
proof (intro allI impI)
  fix P E :: "'d disk \<Rightarrow> bool" assume P: "stable P" "\<forall>s. P s \<longrightarrow> E s"
  have two: "triple E (\<lambda>s. P s \<and> F x s) (f x) (\<lambda>y s. P s \<and> H y s)" for x
  proof -
    have "stable (\<lambda>s. P s \<and> F x s)" using P(1) assms(2) [of x] by (simp add: stable_def)
    then have "triple E (\<lambda>s. P s \<and> F x s) (f x) (\<lambda>y s. (P s \<and> F x s) \<and> G x y s)"
      using P(2) by (intro looksD [OF assms(3)]) auto
    then show ?thesis by (rule triple_weaken) (use assms(4) in blast)+
  qed
  show "triple E P (sbind m f) (\<lambda>y s. P s \<and> H y s)"
    using looksD [OF assms(1) P(1), of E] P(2) two by (blast intro: triple_bind)
qed

lemma looks_weaken: "looks m F \<Longrightarrow> (\<And>x s. F x s \<Longrightarrow> G x s) \<Longrightarrow> looks m G"
  unfolding looks_def by (blast intro: triple_weaken)

lemma looks_return: "(\<And>s. F x s) \<Longrightarrow> looks (sreturn x) F"
  by (simp add: looks_def triple_def sreturn_def)

lemma looks_fail: "looks (sfail e) F"
  by (auto simp: looks_def triple_def sfail_def)

lemma looks_ensure: "(\<And>s. b \<Longrightarrow> F () s) \<Longrightarrow> looks (sensure b e) F"
  by (auto simp: looks_def triple_def sensure_def sreturn_def sfail_def)

lemma looks_exists: "looks (regular_file_exists x) (\<lambda>b s. b \<longleftrightarrow> di_files s x \<noteq> None)"
  unfolding regular_file_exists_def by (rule looks_access) simp

lemma looks_kind: "looks (kind x) (\<lambda>k s. kind_of (di_files s x) = Inr k)"
  unfolding kind_def
proof (rule looks_bind)
  show "looks (access ''inspect database or recovery artifact'' (\<lambda>s. (kind_of (di_files s x), s)))
      (\<lambda>k s. kind_of (di_files s x) = k)" by (rule looks_access) simp
  show "looks (case k of Inl e \<Rightarrow> sfail e | Inr k' \<Rightarrow> sreturn k') (\<lambda>k' _. k = Inr k')" for k
    by (cases k) (auto intro: looks_fail looks_return)
qed (auto simp: stable_def)

lemma looks_connection: "looks (connection en x key) (\<lambda>d s. open_data en key x s = Some d)"
  unfolding connection_def
proof (rule looks_bind)
  show "looks (if key = None then sbind (kind x) (\<lambda>k. sensure (k = Plaintext)
        ''plaintext access is restricted to a recognized legacy migration source'') else sreturn ())
      (\<lambda>_ _. True)"
    by (auto intro!: looks_return looks_bind [OF looks_kind] looks_ensure simp: stable_def)
  show "looks (sbind (access ''open database without creation'' (\<lambda>s. (open_data en key x s, s))) (\<lambda>found.
        case found of None \<Rightarrow> sfail ''database key or database integrity is invalid; no reset was performed''
        | Some d \<Rightarrow> sreturn d)) (\<lambda>d s. open_data en key x s = Some d)" for u :: unit
  proof (rule looks_bind)
    show "looks (access ''open database without creation'' (\<lambda>s. (open_data en key x s, s)))
        (\<lambda>f s. open_data en key x s = f)" by (rule looks_access) simp
    show "looks (case found of None \<Rightarrow> sfail ''database key or database integrity is invalid; no reset was performed''
        | Some d \<Rightarrow> sreturn d) (\<lambda>d _. found = Some d)" for found :: "'a option"
      by (cases found) (auto intro: looks_fail looks_return)
  qed (auto simp: stable_def)
qed (auto simp: stable_def)

lemma looks_sync: "looks (sync_file x) (\<lambda>_ _. True)"
  unfolding sync_file_def by (rule looks_access) simp

lemma looks_no_sidecars: "looks (ensure_no_sidecars x) (\<lambda>_ s. di_wal s x = None)"
  unfolding ensure_no_sidecars_def
proof (rule looks_bind)
  show "looks (access ''inspect database or recovery artifact'' (\<lambda>s. (di_wal s x, s)))
      (\<lambda>w s. di_wal s x = w)" by (rule looks_access) simp
  show "looks (sensure (w = None) ''database journal sidecars remain'') (\<lambda>_ _. w = None)" for w :: "'a option"
    by (rule looks_ensure)
qed (auto simp: stable_def)

section \<open>Operations that write\<close>

lemma stable_safe: "stable (safe en d)"
  by (simp add: stable_def)

lemma triple_checkpoint:
  assumes "stable P" "\<And>s. P s \<Longrightarrow> E s" "\<And>s. P s \<Longrightarrow> Q (checkpoint key x s)"
  shows "triple E P (close_connection key x) (\<lambda>_. Q)"
  unfolding close_connection_def by (rule triple_access) (use assms in auto)

lemma triple_legacy:
  fixes en :: "'d engine"
  assumes "stable P" "\<And>s. P s \<Longrightarrow> E s"
    "\<And>s d'. P s \<Longrightarrow> open_data en None x s = Some d' \<Longrightarrow> Q d' (checkpoint None x s)"
  shows "triple E P (legacy_locked en x) Q"
  unfolding legacy_locked_def
proof (rule triple_bind)
  show "triple E P (connection en x None) (\<lambda>d' s. P s \<and> open_data en None x s = Some d')"
    by (rule looksD [OF looks_connection assms(1,2)])
  show "triple E (\<lambda>s. P s \<and> open_data en None x s = Some d')
      (sbind (access ''legacy database WAL is busy'' (\<lambda>s. ((), checkpoint None x s))) (\<lambda>_. sreturn d')) Q" for d'
  proof (rule triple_bind)
    show "triple E (\<lambda>s. P s \<and> open_data en None x s = Some d')
        (access ''legacy database WAL is busy'' (\<lambda>s. ((), checkpoint None x s))) (\<lambda>_. Q d')"
      by (rule triple_access) (use assms in \<open>auto simp: stable_def\<close>)
  qed (rule triple_return)
qed

lemma triple_looks:
  assumes "looks m F" "stable P" "\<And>s. P s \<Longrightarrow> E s" "\<And>x. triple E (\<lambda>s. P s \<and> F x s) (f x) Q"
  shows "triple E P (sbind m f) Q"
  by (rule triple_bind [OF looksD [OF assms(1-3)] assms(4)])

lemma triple_skip:
  assumes "looks m F" "stable P" "\<And>s. P s \<Longrightarrow> E s" "\<And>x. triple E P (f x) Q"
  shows "triple E P (sbind m f) Q"
  by (rule triple_looks [OF assms(1-3)], assumption) (rule triple_pre [OF assms(4)], simp)

lemma triple_sensure:
  assumes "\<And>s. P s \<Longrightarrow> E s" "b \<Longrightarrow> triple E P m Q"
  shows "triple E P (sbind (sensure b e) (\<lambda>_. m)) Q"
proof (cases b)
  case True
  then show ?thesis using assms(2) by (simp add: sensure_def sbind_def sreturn_def triple_def)
next
  case False
  then show ?thesis using assms(1) by (simp add: sensure_def sbind_def sfail_def triple_def)
qed

lemma stable_conj: "stable P \<Longrightarrow> stable Q \<Longrightarrow> stable (\<lambda>s. P s \<and> Q s)"
  by (simp add: stable_def)

lemma stable_facts [simp]:
  "stable (\<lambda>s. F (di_files s))" "stable (\<lambda>s. F' (di_wal s))" "stable (\<lambda>s. open_data en k x s = v)"
  "stable (\<lambda>_. b)"
  by (simp_all add: stable_def)

text \<open>What passes the verification is the data under the key, with its log folded in.\<close>

lemma triple_verify:
  fixes en :: "'d engine"
  assumes P: "stable P" "\<And>s. P s \<Longrightarrow> E s"
    and R: "stable R" "\<And>s. R s \<Longrightarrow> E s"
    and step: "\<And>s y. P s \<Longrightarrow> di_files s x = Some (Cipher key y) \<Longrightarrow> en_digest en (data_of s x y) = expected
      \<Longrightarrow> R (checkpoint (Some key) x s)"
  shows "triple E P (verify_export en x key expected) (\<lambda>_ s. R s \<and> di_wal s x = None)"
proof -
  have closed: "triple E (\<lambda>s. (P s \<and> kind_of (di_files s x) = Inr EncryptedFile) \<and>
      open_data en (Some key) x s = Some d' \<and> en_digest en d' = expected)
      (close_connection (Some key) x) (\<lambda>_. R)" for d'
    by (rule triple_checkpoint)
      (use P step in \<open>auto simp: stable_def open_data_def split: option.splits content.splits if_splits\<close>)
  have last: "triple E R (ensure_no_sidecars x) (\<lambda>_ s. R s \<and> di_wal s x = None)"
    by (rule looksD [OF looks_no_sidecars R])
  have tail: "triple E R (sbind (sync_file x) (\<lambda>_. ensure_no_sidecars x)) (\<lambda>_ s. R s \<and> di_wal s x = None)"
    by (rule triple_looks [OF looks_sync R(1)], rule R(2), assumption) (rule triple_weaken [OF last], simp_all)
  have stables: "stable (\<lambda>s. P s \<and> kind_of (di_files s x) = Inr k)" for k
    using P by (simp add: stable_def)
  show ?thesis
    unfolding verify_export_def
  proof (rule triple_looks [OF looks_kind P(1)], rule P(2), assumption, rule triple_sensure)
    show "triple E (\<lambda>s. P s \<and> kind_of (di_files s x) = Inr k)
        (sbind (connection en x (Some key)) (\<lambda>d.
         sbind (sensure (en_digest en d = expected) ''export does not match the legacy schema/data'') (\<lambda>_.
         sbind (close_connection (Some key) x) (\<lambda>_. sbind (sync_file x) (\<lambda>_. ensure_no_sidecars x)))))
        (\<lambda>_ s. R s \<and> di_wal s x = None)" if "k = EncryptedFile" for k
    proof (rule triple_looks [OF looks_connection stables])
      show "triple E (\<lambda>s. (P s \<and> kind_of (di_files s x) = Inr k) \<and> open_data en (Some key) x s = Some d')
          (sbind (sensure (en_digest en d' = expected) ''export does not match the legacy schema/data'') (\<lambda>_.
           sbind (close_connection (Some key) x) (\<lambda>_. sbind (sync_file x) (\<lambda>_. ensure_no_sidecars x))))
          (\<lambda>_ s. R s \<and> di_wal s x = None)" for d'
        by (rule triple_sensure, use P in simp)
          (rule triple_bind [OF triple_weaken [OF closed [of d']] tail], use that in simp, simp)
    qed (use P in auto)
  qed (use P in auto)
qed

text \<open>A move that is stopped half way has both names.\<close>

lemma triple_move:
  fixes en :: "'d engine"
  assumes P: "stable P" "\<And>s. P s \<Longrightarrow> E s" and "x \<noteq> y"
    and half: "\<And>s. \<not> en_atomic_move en \<Longrightarrow> P s \<Longrightarrow> di_files s y = None \<Longrightarrow> E (put_file y (di_files s x) s)"
    and moved: "\<And>s. P s \<Longrightarrow> di_files s y = None \<Longrightarrow> Q (put_file x None (put_file y (di_files s x) s))"
  shows "triple E P (move_without_replace en x y) (\<lambda>_. Q)"
proof -
  define H where "H s \<longleftrightarrow> E s \<and> Q (put_file x None s) \<and> (\<forall>fs. E (s\<lparr>di_fates := fs\<rparr>)) \<and> (\<forall>fs. Q (put_file x None (s\<lparr>di_fates := fs\<rparr>)))" for s
  have fates: "put_file z c (s\<lparr>di_fates := fs\<rparr>) = (put_file z c s)\<lparr>di_fates := fs\<rparr>" for z c s fs
    by (simp add: put_file_def)
  have half': "E ((put_file y (di_files s x) s)\<lparr>di_fates := fs\<rparr>)"
    if "\<not> en_atomic_move en" "P s" "di_files s y = None" for s fs
    using half [of "s\<lparr>di_fates := fs\<rparr>"] that P(1) by (simp add: fates stable_def)
  have moved': "Q ((put_file x None (put_file y (di_files s x) s))\<lparr>di_fates := fs\<rparr>)"
    if "P s" "di_files s y = None" for s fs
    using moved [of "s\<lparr>di_fates := fs\<rparr>"] that P(1) by (simp add: fates stable_def)
  have P': "stable (\<lambda>s. P s \<and> di_files s y = None)" using P by (simp add: stable_def)
  have one: "triple E (\<lambda>s. P s \<and> di_files s y = None) (access c
      (\<lambda>s. ((), put_file x None (put_file y (di_files s x) s)))) (\<lambda>_. Q)" for c
    by (rule triple_access [OF P']) (use P moved in auto)
  have two: "triple E (\<lambda>s. P s \<and> di_files s y = None)
      (sbind (access c (\<lambda>s. ((), put_file y (di_files s x) s))) (\<lambda>_.
       access c' (\<lambda>s. ((), put_file x None s)))) (\<lambda>_. Q)" if "\<not> en_atomic_move en" for c c'
  proof (rule triple_bind)
    show "triple E (\<lambda>s. P s \<and> di_files s y = None) (access c (\<lambda>s. ((), put_file y (di_files s x) s))) (\<lambda>_. H)"
      by (rule triple_access [OF P']) (use that P half half' moved moved' in \<open>auto simp: H_def fates\<close>)
    show "triple E H (access c' (\<lambda>s. ((), put_file x None s))) (\<lambda>_. Q)" for u :: unit
      by (rule triple_access) (auto simp: H_def stable_def)
  qed
  show ?thesis
    unfolding move_without_replace_def
  proof (rule triple_looks [OF looks_exists P(1)], rule P(2), assumption, rule triple_sensure)
    fix there assume "\<not> there"
    then show "triple E (\<lambda>s. P s \<and> there = (di_files s y \<noteq> None))
        (if en_atomic_move en
         then access ''publish database migration without overwrite''
                (\<lambda>s. ((), put_file x None (put_file y (di_files s x) s)))
         else sbind (access ''publish database without overwrite'' (\<lambda>s. ((), put_file y (di_files s x) s))) (\<lambda>_.
              access ''remove moved database'' (\<lambda>s. ((), put_file x None s)))) (\<lambda>_. Q)"
      using one two by simp
  qed (use P in auto)
qed

end
