(* ===== verification/Migration.thy ===== *)
theory Migration
  imports Encrypted_Facts
begin

text \<open>
  The migration of desktop/src-tauri/src/db/encrypted.rs as a whole: each of its phases keeps the
  data safe whatever stops it, a start that completes leaves one encrypted database, and a start
  nothing stops completes from every state an interruption of the moves leaves.
\<close>

section \<open>The invariant under the writes\<close>

definition wrapped :: "bytes option \<Rightarrow> 'd \<Rightarrow> 'd content" where
  "wrapped key y = (case key of None \<Rightarrow> Plain y | Some k \<Rightarrow> Cipher k y)"

lemma wrapped_simps [simp]: "wrapped None y = Plain y" "wrapped (Some k) y = Cipher k y"
  by (simp_all add: wrapped_def)

definition fits :: "bytes option \<Rightarrow> slot \<Rightarrow> 'd disk \<Rightarrow> bool" where
  "fits key x s \<longleftrightarrow> (\<exists>y. di_files s x = Some (wrapped key y))"

lemma checkpoint_parts [simp]:
  "di_key (checkpoint key x s) = di_key s"
  "di_wal (checkpoint key x s) = (di_wal s)(x := None)"
  "x \<noteq> y \<Longrightarrow> di_files (checkpoint key x s) y = di_files s y"
  by (auto simp: checkpoint_def fun_eq_iff split: option.splits)

lemma checkpoint_file:
  assumes "fits key x s"
  obtains y where "di_files s x = Some (wrapped key y)"
    "di_files (checkpoint key x s) x = Some (wrapped key (data_of s x y))"
  using assms that
  by (cases "di_wal s x") (auto simp: checkpoint_def fits_def wrapped_def data_of_def split: option.splits)

lemma checkpoint_present [simp]:
  "fits key x s \<Longrightarrow> (di_files (checkpoint key x s) y = None) = (di_files s y = None)"
  by (cases "x = y") (auto elim: checkpoint_file)

lemma checkpoint_plain [simp]:
  "fits key x s \<Longrightarrow> is_plain y (checkpoint key x s) = is_plain y s"
  by (cases "x = y"; cases key) (auto simp: is_plain_def elim!: checkpoint_file)

lemma fits_plain [simp]: "fits None x s = is_plain x s"
  by (simp add: fits_def is_plain_def)

lemma checkpoint_holds [simp]:
  assumes "fits key x s"
  shows "holds en d y (checkpoint key x s) = holds en d y s"
proof (cases "x = y")
  case True
  obtain z where z: "di_files s x = Some (wrapped key z)"
    "di_files (checkpoint key x s) x = Some (wrapped key (data_of s x z))"
    using checkpoint_file [OF assms] .
  have folded: "data_of (checkpoint key x s) x w = w" for w by (simp add: data_of_def)
  show ?thesis using True z folded by (cases key) (simp_all add: holds_def)
next
  case False
  then show ?thesis by (simp add: holds_def data_of_def split: option.split content.split)
qed

lemma holds_present: "holds en d x s \<Longrightarrow> di_files s x \<noteq> None"
  by (cases "di_files s x") (simp_all add: holds_def)

lemma checkpoint_safe [simp]: "fits key x s \<Longrightarrow> safe en d (checkpoint key x s) = safe en d s"
  by (cases x) (auto simp: safe_def fits_def)

lemma keyed_parts [simp]:
  "keyed en key (checkpoint k x s) = keyed en key s" "keyed en key (put_file x c s) = keyed en key s"
  by (simp_all add: keyed_def)

lemma open_plain: "open_data en None x s = Some d' \<Longrightarrow> fits None x s \<and> is_plain x s"
  by (auto simp: open_data_def fits_def is_plain_def split: option.splits content.splits)

lemma opened_holds: "holds en d x s \<Longrightarrow> open_data en None x s = Some d' \<Longrightarrow> en_digest en d' = en_digest en d"
  by (auto simp: open_data_def holds_def split: option.splits content.splits)

lemma put_other [simp]:
  "x \<noteq> y \<Longrightarrow> holds en d x (put_file y c s) = holds en d x s"
  "x \<noteq> y \<Longrightarrow> is_plain x (put_file y c s) = is_plain x s"
  by (simp_all add: holds_def is_plain_def data_of_def split: option.split content.split)

lemma put_same [simp]:
  "di_files s x = c \<Longrightarrow> di_wal s y = None \<Longrightarrow> di_wal s x = None
     \<Longrightarrow> holds en d y (put_file y c s) = holds en d x s"
  "is_plain y (put_file y c s) \<longleftrightarrow> (\<exists>z. c = Some (Plain z))"
  by (auto simp add: holds_def is_plain_def data_of_def split: option.split content.split)

lemma staged_safe [simp]: "safe en d (put_file Staged c s) = safe en d s"
  by (simp add: safe_def)

lemma stable_parts [simp]:
  "stable (safe en d)" "stable (keyed en key)" "stable (is_plain x)"
  by (simp_all add: stable_def)

section \<open>What is kept\<close>

definition verified :: "'d engine \<Rightarrow> 'd \<Rightarrow> bytes \<Rightarrow> slot \<Rightarrow> 'd disk \<Rightarrow> bool" where
  "verified en d key x s \<longleftrightarrow> (\<exists>y. di_files s x = Some (Cipher key y) \<and> en_digest en y = en_digest en d)"

lemma verified_checkpoint:
  assumes "di_files s x = Some (Cipher key y)" and "en_digest en (data_of s x y) = en_digest en d"
  shows "fits (Some key) x s" and "verified en d key x (checkpoint (Some key) x s)"
proof -
  show "fits (Some key) x s" using assms(1) by (simp add: fits_def)
  then show "verified en d key x (checkpoint (Some key) x s)"
    using assms by (auto simp: verified_def elim: checkpoint_file)
qed

lemma verified_other [simp]:
  "x \<noteq> y \<Longrightarrow> verified en d key x (checkpoint k y s) = verified en d key x s"
  "x \<noteq> y \<Longrightarrow> verified en d key x (put_file y c s) = verified en d key x s"
  "stable (verified en d key x)"
  by (simp_all add: verified_def stable_def)

lemma verified_present: "verified en d key x s \<Longrightarrow> di_files s x \<noteq> None"
  by (auto simp: verified_def)

text \<open>
  Where the moves are atomic more is kept: the verified candidate while the database has no file,
  no backup beside a plaintext one, and no candidate beside any other.
\<close>

definition orderly :: "'d engine \<Rightarrow> 'd \<Rightarrow> 'd disk \<Rightarrow> bool" where
  "orderly en d s \<longleftrightarrow>
     di_wal s Backup = None \<and>
     (case di_files s Main of
        None \<Rightarrow> di_wal s Staged = None \<and> (\<exists>key. keyed en key s \<and> verified en d key Staged s)
      | Some (Plain _) \<Rightarrow> di_files s Backup = None
      | Some _ \<Rightarrow> di_files s Staged = None)"

definition sound :: "'d engine \<Rightarrow> 'd \<Rightarrow> 'd disk \<Rightarrow> bool" where
  "sound en d s \<longleftrightarrow> safe en d s \<and> (di_files s Staged = None \<longrightarrow> di_wal s Staged = None)
     \<and> (en_atomic_move en \<longrightarrow> orderly en d s)"

lemma sound_fates [simp]: "sound en d (s\<lparr>di_fates := fs\<rparr>) = sound en d s"
  by (simp add: sound_def orderly_def verified_def split: option.split content.split)

lemma stable_sound [simp]: "stable (sound en d)"
  by (simp add: stable_def)

lemma sound_safe: "sound en d s \<Longrightarrow> safe en d s"
  by (simp add: sound_def)

lemma unlogged_checkpoint: "di_wal s x = None \<Longrightarrow> checkpoint key x s = s"
  by (simp add: checkpoint_def)

lemma checkpoint_sound [simp]:
  assumes fits: "fits key x s" and sound: "sound en d s"
  shows "sound en d (checkpoint key x s)"
proof (cases "x = Main")
  case True
  then obtain y where "di_files s Main = Some (wrapped key y)"
    "di_files (checkpoint key x s) Main = Some (wrapped key (data_of s x y))"
    using checkpoint_file fits by metis
  then show ?thesis using fits sound True by (cases key) (simp_all add: sound_def orderly_def)
next
  case False
  show ?thesis
  proof (cases "di_files s Main = None \<and> x = Staged \<and> en_atomic_move en")
    case True
    then show ?thesis using sound by (simp add: sound_def orderly_def unlogged_checkpoint)
  next
    case False
    then show ?thesis using fits sound \<open>x \<noteq> Main\<close>
      by (cases x) (auto simp: sound_def orderly_def split: option.splits content.splits)
  qed
qed

lemma staged_sound [simp]:
  "is_plain Main s \<Longrightarrow> sound en d s \<Longrightarrow> sound en d (put_file Staged (Some c) s)"
  by (auto simp: sound_def orderly_def is_plain_def)

section \<open>Phases\<close>

definition ready :: "'d engine \<Rightarrow> 'd \<Rightarrow> bytes \<Rightarrow> 'd disk \<Rightarrow> bool" where
  "ready en d key s \<longleftrightarrow> sound en d s \<and> keyed en key s"

definition completed :: "'d engine \<Rightarrow> 'd \<Rightarrow> bytes \<Rightarrow> 'd disk \<Rightarrow> bool" where
  "completed en d key s \<longleftrightarrow>
     keyed en key s \<and> di_files s Staged = None \<and> di_files s Backup = None
     \<and> di_wal s = Map.empty
     \<and> (\<exists>y. di_files s Main = Some (Cipher key y) \<and> en_digest en y = en_digest en d)"

lemma completed_sound: "completed en d key s \<Longrightarrow> sound en d s"
  by (auto simp: completed_def sound_def orderly_def safe_def holds_def keyed_def data_of_def)

lemma backup_opened:
  "sound en d s \<Longrightarrow> open_data en None Backup s = Some d' \<Longrightarrow> en_digest en d' = en_digest en d"
  by (rule opened_holds) (auto simp: sound_def safe_def open_data_def split: if_splits option.splits)

text \<open>A verified candidate may take the name of the database.\<close>

lemma published:
  assumes sound: "sound en d s" and key: "keyed en key s" and gone: "di_files s Main = None"
    and plain: "is_plain Backup s" and good: "verified en d key Staged s" "di_wal s Staged = None"
  shows "\<not> en_atomic_move en \<Longrightarrow> sound en d (put_file Main (di_files s Staged) s)"
    "sound en d (put_file Staged None (put_file Main (di_files s Staged) s))"
proof -
  have "holds en d Main (put_file Main (di_files s Staged) s)"
    using assms by (auto simp: verified_def holds_def keyed_def sound_def safe_def data_of_def)
  then have safe: "safe en d (put_file Main (di_files s Staged) s)"
    using assms by (auto simp: sound_def safe_def verified_def)
  then show "\<not> en_atomic_move en \<Longrightarrow> sound en d (put_file Main (di_files s Staged) s)"
    using good by (simp add: sound_def)
  show "sound en d (put_file Staged None (put_file Main (di_files s Staged) s))"
    using sound safe good by (auto simp: sound_def orderly_def verified_def)
qed

lemma main_opened:
  "sound en d s \<Longrightarrow> open_data en None Main s = Some d' \<Longrightarrow> en_digest en d' = en_digest en d"
  by (rule opened_holds) (auto simp: sound_def safe_def open_data_def split: if_splits option.splits)

lemma no_logs: "di_wal s = Map.empty \<longleftrightarrow> di_wal s Main = None \<and> di_wal s Staged = None \<and> di_wal s Backup = None"
  by (auto simp: fun_eq_iff) (metis slot.exhaust)

lemma sound_unlogged: "sound en d s \<Longrightarrow> di_files s Staged = None \<Longrightarrow> di_wal s Staged = None"
  by (simp add: sound_def)

lemma triple_cleanup:
  "triple (sound en d) (\<lambda>s. ready en d key s \<and> di_files s Staged = None \<and> di_files s Main \<noteq> None)
     (cleanup_backup en key) (\<lambda>_. completed en d key)"
  (is "triple ?E ?P _ _")
proof -
  let ?B = "\<lambda>s. ?P s \<and> is_plain Backup s"
  let ?V = "\<lambda>s. ?B s \<and> verified en d key Main s \<and> di_wal s Main = None"
  have P: "stable ?P" "\<And>s. ?P s \<Longrightarrow> ?E s" by (auto simp: stable_def ready_def keyed_def)
  have B: "stable ?B" "\<And>s. ?B s \<Longrightarrow> ?E s" using P by (auto simp: stable_def is_plain_def)
  have R: "stable (\<lambda>s. ?B s \<and> verified en d key Main s)" "\<And>s. ?B s \<and> verified en d key Main s \<Longrightarrow> ?E s"
    using B by (auto simp: stable_def verified_def)
  have V: "stable ?V" "\<And>s. ?V s \<Longrightarrow> ?E s" using B by (auto simp: stable_def verified_def)
  have V': "stable (\<lambda>s. ?V s \<and> di_wal s Backup = None)" using V(1) by (simp add: stable_def)
  have lock: "triple ?E ?P (legacy_locked en Backup) (\<lambda>d' s. ?B s \<and> en_digest en d' = en_digest en d)"
    by (rule triple_legacy [OF P]) (auto simp: ready_def fits_def dest: open_plain backup_opened)
  have verify: "triple ?E (\<lambda>s. ?B s \<and> en_digest en d' = en_digest en d)
      (verify_export en Main key (en_digest en d')) (\<lambda>_. ?V)" for d'
  proof -
    have "triple ?E (\<lambda>s. ?B s \<and> en_digest en d' = en_digest en d)
        (verify_export en Main key (en_digest en d'))
        (\<lambda>_ s. (?B s \<and> verified en d key Main s) \<and> di_wal s Main = None)"
    proof (rule triple_verify [OF _ _ R])
      show "?B (checkpoint (Some key) Main s) \<and> verified en d key Main (checkpoint (Some key) Main s)"
        if "?B s \<and> en_digest en d' = en_digest en d" "di_files s Main = Some (Cipher key y)"
          "en_digest en (data_of s Main y) = en_digest en d'" for s y
      proof -
        note good = verified_checkpoint [of s Main key y en d]
        show ?thesis using good that by (simp add: ready_def verified_present)
      qed
    qed (use B in \<open>auto simp: stable_def\<close>)
    then show ?thesis by simp
  qed
  have shut: "triple ?E ?V (close_connection None Backup) (\<lambda>_. ?V)"
    by (rule triple_checkpoint [OF V]) (auto simp: ready_def)
  have gone: "triple ?E (\<lambda>s. ?V s \<and> di_wal s Backup = None)
      (access c (\<lambda>s. ((), put_file Backup None s))) (\<lambda>_. completed en d key)" for c
    by (rule triple_access [OF V']) (auto simp: ready_def completed_def verified_def no_logs sound_unlogged)
  have finish: "triple ?E ?V (sbind (ensure_no_sidecars Backup) (\<lambda>_.
      access c (\<lambda>s. ((), put_file Backup None s)))) (\<lambda>_. completed en d key)" for c
    by (rule triple_looks [OF looks_no_sidecars V(1)], erule V(2), rule gone)
  have P': "stable (\<lambda>s. ?P s \<and> di_wal s Main = None)" "\<And>s. ?P s \<and> di_wal s Main = None \<Longrightarrow> ?E s"
    using P by (auto simp: stable_def)
  show ?thesis
    unfolding cleanup_backup_def
    by (rule triple_looks [OF looks_no_sidecars P(1)], erule P(2),
        rule triple_looks [OF looks_no_sidecars P'(1)], erule P'(2),
        rule triple_bind [OF triple_pre [OF lock]], blast,
        rule triple_bind [OF verify], rule triple_bind [OF shut], rule finish)
qed

text \<open>Publishing the verified candidate.\<close>

lemma triple_install:
  "triple (sound en d) (\<lambda>s. ready en d key s \<and> di_files s Main = None)
     (install en key) (\<lambda>_. completed en d key)"
  (is "triple ?E ?P _ _")
proof -
  let ?B = "\<lambda>s. ?P s \<and> is_plain Backup s"
  let ?V = "\<lambda>s. ?B s \<and> verified en d key Staged s \<and> di_wal s Staged = None"
  have P: "stable ?P" "\<And>s. ?P s \<Longrightarrow> ?E s" by (auto simp: stable_def ready_def keyed_def)
  have P': "stable (\<lambda>s. ?P s \<and> di_wal s Main = None)" "\<And>s. ?P s \<and> di_wal s Main = None \<Longrightarrow> ?E s"
    using P by (auto simp: stable_def)
  have B: "stable ?B" "\<And>s. ?B s \<Longrightarrow> ?E s" using P by (auto simp: stable_def is_plain_def)
  have R: "stable (\<lambda>s. ?B s \<and> verified en d key Staged s)"
    "\<And>s. ?B s \<and> verified en d key Staged s \<Longrightarrow> ?E s"
    using B by (auto simp: stable_def verified_def)
  have V: "stable ?V" "\<And>s. ?V s \<Longrightarrow> ?E s" using B by (auto simp: stable_def verified_def)
  have lock: "triple ?E ?P (legacy_locked en Backup) (\<lambda>d' s. ?B s \<and> en_digest en d' = en_digest en d)"
    by (rule triple_legacy [OF P]) (auto simp: ready_def dest: open_plain backup_opened)
  have verify: "triple ?E (\<lambda>s. ?B s \<and> en_digest en d' = en_digest en d)
      (verify_export en Staged key (en_digest en d')) (\<lambda>_. ?V)" for d'
  proof -
    have "triple ?E (\<lambda>s. ?B s \<and> en_digest en d' = en_digest en d)
        (verify_export en Staged key (en_digest en d'))
        (\<lambda>_ s. (?B s \<and> verified en d key Staged s) \<and> di_wal s Staged = None)"
    proof (rule triple_verify [OF _ _ R])
      show "?B (checkpoint (Some key) Staged s) \<and> verified en d key Staged (checkpoint (Some key) Staged s)"
        if "?B s \<and> en_digest en d' = en_digest en d" "di_files s Staged = Some (Cipher key y)"
          "en_digest en (data_of s Staged y) = en_digest en d'" for s y
        using verified_checkpoint [of s Staged key y en d] that by (simp add: ready_def)
    qed (use B in \<open>auto simp: stable_def\<close>)
    then show ?thesis by simp
  qed
  have shut: "triple ?E ?V (close_connection None Backup) (\<lambda>_. ?V)"
    by (rule triple_checkpoint [OF V]) (auto simp: ready_def)
  have publish: "triple ?E ?V (move_without_replace en Staged Main)
      (\<lambda>_ s. ready en d key s \<and> di_files s Staged = None \<and> di_files s Main \<noteq> None)"
    by (rule triple_move [OF V]) (auto simp: ready_def intro: published dest: verified_present)
  show ?thesis
    unfolding install_def
    by (rule triple_looks [OF looks_no_sidecars P(1)], erule P(2),
        rule triple_looks [OF looks_no_sidecars P'(1)], erule P'(2),
        rule triple_bind [OF triple_pre [OF lock]], blast,
        rule triple_bind [OF verify], rule triple_bind [OF shut], rule triple_bind [OF publish],
        rule triple_cleanup)
qed

text \<open>The four kinds of start.\<close>

lemma triple_export:
  assumes "stable P" "\<And>s. P s \<Longrightarrow> E s" and staged: "\<And>s c. P s \<Longrightarrow> P (put_file Staged (Some c) s)"
  shows "triple E P (export en d' key) (\<lambda>_. P)"
proof -
  note P = assms(1,2)
  have free: "stable (\<lambda>s. P s \<and> free = (di_files s Staged = None))" for free
    using P(1) by (simp add: stable_def)
  have look: "looks (access c (\<lambda>s. (di_files s Staged = None, s))) (\<lambda>b s. b = (di_files s Staged = None))" for c
    by (rule looks_access) simp
  have reserve: "triple E P (create_empty Staged) (\<lambda>_. P)"
    unfolding create_empty_def
  proof (rule triple_looks [OF look P(1)], erule P(2), rule triple_sensure)
    show "triple E (\<lambda>s. P s \<and> b = (di_files s Staged = None))
        (access c (\<lambda>s. ((), put_file Staged (Some Reserved) s))) (\<lambda>_. P)" for b c
      by (rule triple_access [OF free]) (use P staged in auto)
  qed (use P in auto)
  have copied: "triple E P (access_torn c (\<lambda>s. ((), put_file Staged (Some (Cipher key d')) s))
      (\<lambda>n s. put_file Staged (Some (en_torn en n)) s)) (\<lambda>_. P)" for c
    by (rule triple_access_torn) (use P staged in auto)
  show ?thesis
    unfolding export_def
    by (rule triple_bind [OF reserve], rule triple_bind [OF copied],
        rule triple_weaken [OF looksD [OF looks_sync P(1)]]) (use P in auto)
qed

lemma moved_aside:
  assumes sound: "sound en d s" and key: "keyed en key s" and plain: "is_plain Main s"
    and alone: "di_files s Backup = None" "di_wal s Main = None"
    and good: "verified en d key Staged s" "di_wal s Staged = None"
  shows "\<not> en_atomic_move en \<Longrightarrow> sound en d (put_file Backup (di_files s Main) s)"
    "sound en d (put_file Main None (put_file Backup (di_files s Main) s))"
proof -
  have "safe en d (put_file Backup (di_files s Main) s)"
    "safe en d (put_file Main None (put_file Backup (di_files s Main) s))"
    using assms by (auto simp: sound_def safe_def is_plain_def holds_def data_of_def)
  then show "\<not> en_atomic_move en \<Longrightarrow> sound en d (put_file Backup (di_files s Main) s)"
    "sound en d (put_file Main None (put_file Backup (di_files s Main) s))"
    using sound alone key good by (auto simp: sound_def orderly_def safe_def)
qed

lemma triple_prepare_plain:
  "triple (sound en d) (\<lambda>s. ready en d key s \<and> is_plain Main s) (prepare_plain en key)
     (\<lambda>_. completed en d key)"
  (is "triple ?E ?P _ _")
proof -
  let ?B = "\<lambda>s. ?P s \<and> di_files s Backup = None"
  let ?V = "\<lambda>s. ?B s \<and> verified en d key Staged s \<and> di_wal s Staged = None"
  let ?W = "\<lambda>s. ?V s \<and> di_wal s Main = None"
  have P: "stable ?P" "\<And>s. ?P s \<Longrightarrow> ?E s" by (auto simp: stable_def ready_def keyed_def is_plain_def)
  have B: "stable ?B" "\<And>s. ?B s \<Longrightarrow> ?E s" using P by (auto simp: stable_def)
  have R: "stable (\<lambda>s. ?B s \<and> verified en d key Staged s)"
    "\<And>s. ?B s \<and> verified en d key Staged s \<Longrightarrow> ?E s"
    using B by (auto simp: stable_def verified_def)
  have V: "stable ?V" "\<And>s. ?V s \<Longrightarrow> ?E s" using B by (auto simp: stable_def verified_def)
  have W: "stable ?W" "\<And>s. ?W s \<Longrightarrow> ?E s" using V by (auto simp: stable_def)
  let ?D = "\<lambda>d' s. ?B s \<and> en_digest en d' = en_digest en d"
  have D: "stable (?D d')" "\<And>s. ?D d' s \<Longrightarrow> ?E s" for d' using B by (auto simp: stable_def)
  have lock: "triple ?E ?B (legacy_locked en Main) ?D"
    by (rule triple_legacy [OF B]) (auto simp: ready_def dest: main_opened)
  have staged: "triple ?E (?D d') (swhen b (export en d' key)) (\<lambda>_. ?D d')" for b d'
    by (rule triple_when, rule triple_export [OF D]) (auto simp: ready_def)
  have verify: "triple ?E (\<lambda>s. ?B s \<and> en_digest en d' = en_digest en d)
      (verify_export en Staged key (en_digest en d')) (\<lambda>_. ?V)" for d'
  proof -
    have "triple ?E (\<lambda>s. ?B s \<and> en_digest en d' = en_digest en d)
        (verify_export en Staged key (en_digest en d'))
        (\<lambda>_ s. (?B s \<and> verified en d key Staged s) \<and> di_wal s Staged = None)"
    proof (rule triple_verify [OF _ _ R])
      show "?B (checkpoint (Some key) Staged s) \<and> verified en d key Staged (checkpoint (Some key) Staged s)"
        if "?B s \<and> en_digest en d' = en_digest en d" "di_files s Staged = Some (Cipher key y)"
          "en_digest en (data_of s Staged y) = en_digest en d'" for s y
        using verified_checkpoint [of s Staged key y en d] that by (simp add: ready_def)
    qed (use B in \<open>auto simp: stable_def\<close>)
    then show ?thesis by simp
  qed
  have shut: "triple ?E ?V (close_connection None Main) (\<lambda>_. ?V)"
    by (rule triple_checkpoint [OF V]) (auto simp: ready_def)
  have aside: "triple ?E ?W (move_without_replace en Main Backup)
      (\<lambda>_ s. ready en d key s \<and> di_files s Main = None)"
    by (rule triple_move [OF W]) (auto simp: ready_def intro: moved_aside)
  have A: "stable (\<lambda>s. ready en d key s \<and> di_files s Main = None)"
    "\<And>s. ready en d key s \<and> di_files s Main = None \<Longrightarrow> ?E s"
    by (auto simp: stable_def ready_def keyed_def)
  have rest: "triple ?E ?V (sbind (close_connection None Main) (\<lambda>_. sbind (ensure_no_sidecars Main) (\<lambda>_.
      sbind (sync_file Main) (\<lambda>_. sbind (move_without_replace en Main Backup) (\<lambda>_.
      sbind (ensure_no_sidecars Main) (\<lambda>_. install en key)))))) (\<lambda>_. completed en d key)"
    by (rule triple_bind [OF shut], rule triple_looks [OF looks_no_sidecars V(1)], erule V(2),
        rule triple_looks [OF looks_sync W(1)], erule W(2),
        rule triple_bind [OF triple_pre [OF aside]], blast,
        rule triple_looks [OF looks_no_sidecars A(1)], erule A(2),
        rule triple_pre [OF triple_install], blast)
  show ?thesis
    unfolding prepare_plain_def
  proof (rule triple_looks [OF looks_exists P(1)], erule P(2), rule triple_sensure, use P in blast)
    fix there assume "\<not> there"
    then have first: "?P s \<and> there = (di_files s Backup \<noteq> None) \<Longrightarrow> ?B s" for s by blast
    show "triple ?E (\<lambda>s. ?P s \<and> there = (di_files s Backup \<noteq> None))
      (sbind (legacy_locked en Main) (\<lambda>d'. sbind (regular_file_exists Staged) (\<lambda>staged.
       sbind (swhen (\<not> staged) (export en d' key)) (\<lambda>_. sbind (verify_export en Staged key (en_digest en d')) (\<lambda>_.
       sbind (close_connection None Main) (\<lambda>_. sbind (ensure_no_sidecars Main) (\<lambda>_.
       sbind (sync_file Main) (\<lambda>_. sbind (move_without_replace en Main Backup) (\<lambda>_.
       sbind (ensure_no_sidecars Main) (\<lambda>_. install en key)))))))))) (\<lambda>_. completed en d key)"
      by (rule triple_bind [OF triple_pre [OF lock]], erule first,
          rule triple_looks [OF looks_exists D(1)], erule D(2),
          rule triple_bind [OF triple_pre [OF staged]], blast,
          rule triple_bind [OF verify], rule rest)
  qed
qed

lemma triple_prepare_missing:
  "triple (sound en d) (\<lambda>s. ready en d key s \<and> di_files s Main = None) (prepare_missing en key)
     (\<lambda>_. completed en d key)"
  (is "triple ?E ?P _ _")
proof -
  have P: "stable ?P" "\<And>s. ?P s \<Longrightarrow> ?E s" by (auto simp: stable_def ready_def keyed_def)
  have K: "stable (\<lambda>s. ?P s \<and> kind_of (di_files s Backup) = Inr k)" for k
    using P by (simp add: stable_def)
  show ?thesis
    unfolding prepare_missing_def
    by (rule triple_looks [OF looks_kind P(1)], erule P(2), rule triple_looks [OF looks_exists K], use P in blast,
        rule triple_sensure, use P in blast, rule triple_pre [OF triple_install], blast)
qed

lemma triple_prepare_encrypted:
  "triple (sound en d) (ready en d key) (prepare_encrypted en key) (\<lambda>_. completed en d key)"
  (is "triple ?E ?P _ _")
proof -
  let ?V = "\<lambda>s. ?P s \<and> verified en d key Main s \<and> di_wal s Main = None"
  have P: "stable ?P" "\<And>s. ?P s \<Longrightarrow> ?E s" by (auto simp: stable_def ready_def keyed_def)
  have K: "stable (\<lambda>s. ?P s \<and> open_data en (Some key) Main s = Some d')" for d'
    using P by (simp add: stable_def)
  have V: "stable ?V" "\<And>s. ?V s \<Longrightarrow> ?E s" using P by (auto simp: stable_def verified_def)
  have V': "stable (\<lambda>s. ?V s \<and> b = (di_files s Staged \<noteq> None))" for b
    using V(1) by (simp add: stable_def)
  have shut: "triple ?E (\<lambda>s. ?P s \<and> open_data en (Some key) Main s = Some d')
      (close_connection (Some key) Main) (\<lambda>_. ?V)" for d'
  proof (rule triple_checkpoint [OF K])
    fix s assume pre: "?P s \<and> open_data en (Some key) Main s = Some d'"
    then have "holds en d Main s"
      by (auto simp: ready_def sound_def safe_def open_data_def split: if_splits option.splits)
    then obtain y where "di_files s Main = Some (Cipher key y)" "en_digest en (data_of s Main y) = en_digest en d"
      using pre by (auto simp: holds_def open_data_def split: option.splits content.splits if_splits)
    then show "?V (checkpoint (Some key) Main s)"
      using verified_checkpoint [of s Main key y en d] pre by (simp add: ready_def)
  qed (use P in blast)
  have cleaned: "triple ?E (\<lambda>s. ?V s \<and> di_files s Staged = None \<and> backup = (di_files s Backup \<noteq> None))
      (swhen backup (cleanup_backup en key)) (\<lambda>_. completed en d key)" for backup
  proof (rule triple_when)
    show "triple ?E (\<lambda>s. ?V s \<and> di_files s Staged = None \<and> backup = (di_files s Backup \<noteq> None))
        (cleanup_backup en key) (\<lambda>_. completed en d key)"
      by (rule triple_pre [OF triple_cleanup]) (auto dest: verified_present)
  qed (auto simp: ready_def completed_def verified_def no_logs sound_def safe_def)
  show ?thesis
    unfolding prepare_encrypted_def
    by (rule triple_looks [OF looks_connection P(1)], erule P(2), rule triple_bind [OF shut],
        rule triple_looks [OF looks_exists V(1)], erule V(2), rule triple_sensure, use V in blast,
        rule triple_looks [OF looks_exists V'], use V in blast, rule triple_pre [OF cleaned], blast)
qed

lemma triple_prepare: "triple (sound en d) (ready en d key) (prepare en key) (\<lambda>_. completed en d key)"
  (is "triple ?E ?P _ _")
proof -
  let ?K = "\<lambda>k s. ?P s \<and> kind_of (di_files s Main) = Inr k"
  have P: "stable ?P" "\<And>s. ?P s \<Longrightarrow> ?E s" by (auto simp: stable_def ready_def keyed_def)
  have K: "stable (?K k)" "\<And>s. ?K k s \<Longrightarrow> ?E s" for k using P by (auto simp: stable_def)
  have missing: "di_files s Main = None" if "?K Missing s" for s
    using that by (cases "di_files s Main" rule: kind_of.cases) auto
  have plain: "is_plain Main s" if "?K Plaintext s" for s
    using that by (cases "di_files s Main" rule: kind_of.cases) (auto simp: is_plain_def)
  have absent: "triple ?E (?K Missing)
      (sbind (regular_file_exists Backup) (\<lambda>backup.
       sbind (if backup then sreturn True else regular_file_exists Staged) (\<lambda>interrupted.
       if interrupted then prepare_missing en key else prepare_new en key))) (\<lambda>_. completed en d key)"
  proof (rule triple_looks [OF looks_exists K(1)], erule K(2))
    fix backup
    show "triple ?E (\<lambda>s. ?K Missing s \<and> backup = (di_files s Backup \<noteq> None))
        (sbind (if backup then sreturn True else regular_file_exists Staged) (\<lambda>interrupted.
         if interrupted then prepare_missing en key else prepare_new en key)) (\<lambda>_. completed en d key)"
    proof (rule triple_conj)
      show backup if "?K Missing s \<and> backup = (di_files s Backup \<noteq> None)" for s
      proof -
        have "holds en d Backup s" using missing [OF conjunct1 [OF that]] that by (simp add: ready_def sound_def safe_def)
        then have "di_files s Backup \<noteq> None" by (cases "di_files s Backup") (simp_all add: holds_def)
        then show backup using that by simp
      qed
      then show "triple ?E (\<lambda>s. ?K Missing s \<and> backup = (di_files s Backup \<noteq> None))
          (sbind (if backup then sreturn True else regular_file_exists Staged) (\<lambda>interrupted.
           if interrupted then prepare_missing en key else prepare_new en key)) (\<lambda>_. completed en d key)"
        if backup
        using that by (auto intro: triple_pre [OF triple_prepare_missing] missing)
    qed
  qed
  show ?thesis
    unfolding prepare_def
  proof (rule triple_looks [OF looks_kind P(1)], erule P(2))
    fix k
    show "triple ?E (?K k) (case k of Plaintext \<Rightarrow> prepare_plain en key | EncryptedFile \<Rightarrow> prepare_encrypted en key
        | Missing \<Rightarrow> sbind (regular_file_exists Backup) (\<lambda>backup.
            sbind (if backup then sreturn True else regular_file_exists Staged) (\<lambda>interrupted.
            if interrupted then prepare_missing en key else prepare_new en key))) (\<lambda>_. completed en d key)"
      by (cases k) (auto intro: absent triple_pre [OF triple_prepare_plain] plain
          triple_pre [OF triple_prepare_encrypted])
  qed
qed

section \<open>A start\<close>

lemma load_key_effect:
  assumes "load_key en allow s = (r, s')"
  shows "di_files s' = di_files s" "di_wal s' = di_wal s" "\<not> allow \<Longrightarrow> di_key s' = di_key s"
    "di_key s \<noteq> None \<Longrightarrow> di_key s' = di_key s" "r = Inr key \<Longrightarrow> keyed en key s'"
proof -
  obtain r1 k where run: "windows_load_or_create (en_dpapi en) (en_random en) allow
      \<lparr>kf_file = di_key s, kf_fates = di_fates s\<rparr> = (r1, k)" by fastforce
  then have parts: "r = r1" "s' = s\<lparr>di_key := kf_file k, di_fates := kf_fates k\<rparr>"
    using assms by (simp_all add: load_key_def)
  show "di_files s' = di_files s" "di_wal s' = di_wal s" by (simp_all add: parts)
  show "di_key s' = di_key s" if "\<not> allow"
    using run that key_not_created by (fastforce simp: parts)
  show "di_key s' = di_key s" if "di_key s \<noteq> None"
    using key_file_kept [OF _ run] that by (simp add: parts)
  show "keyed en key s'" if "r = Inr key"
    using loaded_key_stored run that by (fastforce simp: parts keyed_def)
qed

lemma sound_without_key:
  assumes safe: "sound en d s" and plain: "is_plain Main s" and alone: "di_files s Backup = None"
    and same: "di_files s' = di_files s" "di_wal s' = di_wal s"
  shows "sound en d s'"
proof -
  have data: "data_of s' x y = data_of s x y" for x y by (simp add: data_of_def same)
  obtain y where y: "di_files s Main = Some (Plain y)" using plain by (auto simp: is_plain_def)
  then have "holds en d Main s" using safe by (simp add: sound_def safe_def)
  then have "holds en d Main s'" by (simp add: holds_def same y data)
  then show ?thesis using safe y alone by (simp add: sound_def orderly_def safe_def same)
qed

lemma sound_same:
  assumes "sound en d s" "di_files s' = di_files s" "di_wal s' = di_wal s" "di_key s' = di_key s"
  shows "sound en d s'"
proof -
  have "s\<lparr>di_fates := di_fates s'\<rparr> = s'" using assms(2-4) by (cases s; cases s') simp
  then show ?thesis using assms(1) sound_fates [where s = s and fs = "di_fates s'" and d = d] by simp
qed

lemma triple_load:
  assumes "\<And>s. P s \<Longrightarrow> sound en d s" and "\<And>s. P s \<Longrightarrow> allow \<Longrightarrow> is_plain Main s \<and> di_files s Backup = None"
  shows "triple (sound en d) P (load_key en allow) (ready en d)"
  unfolding triple_def
proof (intro allI impI)
  fix s r s' assume P: "P s" and run: "load_key en allow s = (r, s')"
  note effect = load_key_effect [OF run]
  have "sound en d s'"
  proof (cases allow)
    case True
    note alone = assms(2) [OF P True]
    show ?thesis
      by (rule sound_without_key [OF assms(1) [OF P] conjunct1 [OF alone] conjunct2 [OF alone] effect(1,2)])
  next
    case False
    show ?thesis by (rule sound_same [OF assms(1) [OF P] effect(1,2) effect(3) [OF False]])
  qed
  then show "case r of Inl e \<Rightarrow> sound en d s' | Inr key \<Rightarrow> ready en d key s'"
    using effect(5) by (simp add: ready_def split: sum.split)
qed

lemma triple_initialize:
  "triple (sound en d) (sound en d) (initialize_impl en) (completed en d)"
proof -
  let ?E = "sound en d"
  let ?K = "\<lambda>k a b s. ((?E s \<and> kind_of (di_files s Main) = Inr k) \<and> a = (di_files s Staged \<noteq> None))
    \<and> b = (di_files s Backup \<noteq> None)"
  have K: "stable (?K k a b)" "\<And>s. ?K k a b s \<Longrightarrow> ?E s" for k a b by (auto simp: stable_def)
  have kinds: "k = Plaintext \<Longrightarrow> is_plain Main s" "k = Missing \<Longrightarrow> b" if "?K k a b s" for k a b s
  proof -
    show "is_plain Main s" if "k = Plaintext"
      using \<open>?K k a b s\<close> that
      by (cases "di_files s Main" rule: kind_of.cases) (auto simp: is_plain_def)
    show b if missing: "k = Missing"
    proof -
      have "di_files s Main = None"
        using \<open>?K k a b s\<close> missing by (cases "di_files s Main" rule: kind_of.cases) auto
      then have "holds en d Backup s" using \<open>?K k a b s\<close> by (simp add: sound_def safe_def)
      then show b using \<open>?K k a b s\<close> by (cases "di_files s Backup") (simp_all add: holds_def)
    qed
  qed
  have load: "triple ?E (?K k a b) (load_key en (k \<noteq> EncryptedFile \<and> \<not> a \<and> \<not> b)) (ready en d)" for k a b
  proof (rule triple_load)
    show "is_plain Main s \<and> di_files s Backup = None"
      if "?K k a b s" "k \<noteq> EncryptedFile \<and> \<not> a \<and> \<not> b" for s
      using kinds [OF that(1)] that by (cases k) auto
  qed (rule K(2))
  have first: "triple ?E ?E (access c (\<lambda>s. ((), s))) (\<lambda>_. ?E)" for c
    by (rule triple_access) simp_all
  have key: "looks (access c (\<lambda>s. (di_key s \<noteq> None, s))) (\<lambda>_ _. True)" for c :: string
    by (rule looks_access) simp
  have side: "looks (if b then ensure_no_sidecars x else sreturn ()) (\<lambda>_ _. True)" for b x
    by (auto intro: looks_return looks_weaken [OF looks_no_sidecars])
  show ?thesis
    unfolding initialize_impl_def
    by (rule triple_bind [OF first], rule triple_looks [OF looks_kind stable_sound], assumption,
        rule triple_looks [OF looks_exists], simp add: stable_def, blast,
        rule triple_looks [OF looks_exists], simp add: stable_def, blast,
        rule triple_skip [OF key K(1)], erule K(2), rule triple_sensure, erule K(2),
        rule triple_skip [OF side K(1)], erule K(2), rule triple_bind [OF load],
        rule triple_bind [OF triple_prepare], rule triple_return)
qed

section \<open>Starts after starts\<close>

text \<open>Each start has its own fates for the accesses, and its own random bytes for a new key.\<close>

definition start :: "'d engine \<Rightarrow> fate list \<times> bytes \<Rightarrow> ('d, bytes) disk_op" where
  "start en run s = initialize_impl (en\<lparr>en_random := snd run\<rparr>) (s\<lparr>di_fates := fst run\<rparr>)"

definition restarts :: "'d engine \<Rightarrow> (fate list \<times> bytes) list \<Rightarrow> 'd disk \<Rightarrow> 'd disk" where
  "restarts en runs s = fold (\<lambda>run s. snd (start en run s)) runs s"

lemma random_irrelevant [simp]:
  "holds (en\<lparr>en_random := r\<rparr>) = holds en" "keyed (en\<lparr>en_random := r\<rparr>) = keyed en"
  "safe (en\<lparr>en_random := r\<rparr>) = safe en" "sound (en\<lparr>en_random := r\<rparr>) = sound en"
  "completed (en\<lparr>en_random := r\<rparr>) = completed en"
proof -
  show holds: "holds (en\<lparr>en_random := r\<rparr>) = holds en" by (auto simp: fun_eq_iff holds_def split: option.split content.split)
  show keyed: "keyed (en\<lparr>en_random := r\<rparr>) = keyed en" by (simp add: fun_eq_iff keyed_def)
  show safe: "safe (en\<lparr>en_random := r\<rparr>) = safe en" by (simp add: fun_eq_iff safe_def holds)
  show "sound (en\<lparr>en_random := r\<rparr>) = sound en"
    by (simp add: fun_eq_iff sound_def safe orderly_def keyed verified_def split: option.split content.split)
  show "completed (en\<lparr>en_random := r\<rparr>) = completed en"
    by (simp add: fun_eq_iff completed_def keyed)
qed

lemma start_step:
  assumes "sound en d s" and "start en run s = (r, s')"
  shows "case r of Inl e \<Rightarrow> sound en d s' | Inr key \<Rightarrow> completed en d key s'"
  using tripleD [OF triple_initialize [of "en\<lparr>en_random := snd run\<rparr>" d], of "s\<lparr>di_fates := fst run\<rparr>" r s']
    assms by (cases r) (simp_all add: start_def)

lemma start_sound: "sound en d s \<Longrightarrow> sound en d (snd (start en run s))"
  using start_step [of en d s run] completed_sound
  by (cases "start en run s") (fastforce split: sum.splits)

lemma restarts_sound: "sound en d s \<Longrightarrow> sound en d (restarts en runs s)"
  unfolding restarts_def by (induction runs arbitrary: s) (simp_all add: start_sound)

text \<open>The state an application without encryption leaves: one plaintext database.\<close>

definition legacy :: "'d \<Rightarrow> 'd disk \<Rightarrow> bool" where
  "legacy d s \<longleftrightarrow> (\<exists>y. di_files s Main = Some (Plain y) \<and> d = data_of s Main y)
     \<and> di_files s Staged = None \<and> di_files s Backup = None
     \<and> di_wal s Staged = None \<and> di_wal s Backup = None"

lemma legacy_sound: "legacy d s \<Longrightarrow> sound en d s"
  by (auto simp: legacy_def sound_def safe_def orderly_def holds_def)

end
