(* ===== verification/Recovery.thy ===== *)
theory Recovery
  imports Migration
begin

text \<open>
  Starts that nothing stops: from every state an interruption leaves, except one inside the writing
  of the key or of the candidate, the next start completes the migration.
\<close>

section \<open>Operations on a calm disk\<close>

lemma go_access [simp]: "di_fates s = [] \<Longrightarrow> access c f s = (Inr (fst (f s)), snd (f s))"
  by (cases s) (simp add: access_def access_torn_def split: prod.split)

lemma go_torn [simp]: "di_fates s = [] \<Longrightarrow> access_torn c f g s = (Inr (fst (f s)), snd (f s))"
  by (cases s) (simp add: access_torn_def split: prod.split)

lemma calm_parts [simp]:
  "di_fates (put_file x c s) = di_fates s" "di_fates (put_wal x w s) = di_fates s"
  "di_fates (checkpoint key x s) = di_fates s"
  by (simp_all add: put_file_def put_wal_def checkpoint_def split: option.split)

lemma go_exists [simp]:
  "di_fates s = [] \<Longrightarrow> regular_file_exists x s = (Inr (di_files s x \<noteq> None), s)"
  by (simp add: regular_file_exists_def)

lemma go_kind [simp]: "di_fates s = [] \<Longrightarrow> kind_of (di_files s x) = Inr k \<Longrightarrow> kind x s = (Inr k, s)"
  by (simp add: kind_def sbind_def sreturn_def)

lemma go_ensure [simp]: "b \<Longrightarrow> sensure b e s = (Inr (), s)"
  by (simp add: sensure_def sreturn_def)

lemma go_sync [simp]: "di_fates s = [] \<Longrightarrow> sync_file x s = (Inr (), s)"
  by (simp add: sync_file_def)

lemma go_close [simp]: "di_fates s = [] \<Longrightarrow> close_connection key x s = (Inr (), checkpoint key x s)"
  by (simp add: close_connection_def)

lemma go_no_sidecars [simp]:
  "di_fates s = [] \<Longrightarrow> di_wal s x = None \<Longrightarrow> ensure_no_sidecars x s = (Inr (), s)"
  by (simp add: ensure_no_sidecars_def sbind_def)

lemma go_plain:
  "di_fates s = [] \<Longrightarrow> di_files s x = Some (Plain z) \<Longrightarrow> connection en x None s = (Inr (data_of s x z), s)"
  by (simp add: connection_def sbind_def open_data_def sreturn_def)

lemma go_keyed:
  "di_fates s = [] \<Longrightarrow> di_files s x = Some (Cipher key y)
     \<Longrightarrow> connection en x (Some key) s = (Inr (data_of s x y), s)"
  by (simp add: connection_def sbind_def open_data_def sreturn_def)

lemma go_legacy:
  "di_fates s = [] \<Longrightarrow> di_files s x = Some (Plain z)
     \<Longrightarrow> legacy_locked en x s = (Inr (data_of s x z), checkpoint None x s)"
  by (simp add: legacy_locked_def sbind_def go_plain sreturn_def)

lemma go_verify:
  assumes "di_fates s = []" "di_files s x = Some (Cipher key y)" "en_digest en (data_of s x y) = expected"
  shows "verify_export en x key expected s = (Inr (), checkpoint (Some key) x s)"
  using assms by (simp add: verify_export_def sbind_def go_keyed)

lemma go_export:
  "di_fates s = [] \<Longrightarrow> di_files s Staged = None
     \<Longrightarrow> export en d key s = (Inr (), put_file Staged (Some (Cipher key d)) (put_file Staged (Some Reserved) s))"
  by (simp add: export_def create_empty_def sbind_def)

lemma go_move:
  "di_fates s = [] \<Longrightarrow> di_files s y = None
     \<Longrightarrow> move_without_replace en x y s = (Inr (), put_file x None (put_file y (di_files s x) s))"
  by (cases "en_atomic_move en") (simp_all add: move_without_replace_def sbind_def)

section \<open>The rest of a migration\<close>

lemma go_cleanup:
  assumes "di_fates s = []" "di_wal s = Map.empty"
    "di_files s Main = Some (Cipher key y)" "di_files s Backup = Some (Plain z)" "en_digest en y = en_digest en z"
  shows "cleanup_backup en key s = (Inr (), put_file Backup None s)"
  using assms
  by (simp add: cleanup_backup_def sbind_def go_legacy go_verify data_of_def unlogged_checkpoint)

lemma go_install:
  assumes "di_fates s = []" "di_wal s = Map.empty" "di_files s Main = None"
    "di_files s Staged = Some (Cipher key y)" "di_files s Backup = Some (Plain z)" "en_digest en y = en_digest en z"
  shows "\<exists>s'. install en key s = (Inr (), s')"
  using assms
  by (simp add: install_def sbind_def go_legacy go_verify go_move go_cleanup data_of_def unlogged_checkpoint)

lemma go_tail:
  assumes s: "di_fates s = []" "di_wal s = Map.empty" and files: "di_files s Main = Some (Plain z)"
    "di_files s Staged = Some (Cipher key y)" "di_files s Backup = None" and same: "en_digest en y = en_digest en z"
  shows "\<exists>s'. sbind (sync_file Main) (\<lambda>_. sbind (move_without_replace en Main Backup) (\<lambda>_.
     sbind (ensure_no_sidecars Main) (\<lambda>_. install en key))) s = (Inr (), s')"
proof -
  let ?s = "put_file Main None (put_file Backup (di_files s Main) s)"
  have "\<exists>s'. install en key ?s = (Inr (), s')"
    by (rule go_install [where y = y and z = z]) (use s files same in simp_all)
  then show ?thesis using s files by (simp add: sbind_def go_move)
qed

text \<open>The plaintext database, with or without a complete candidate.\<close>

lemma go_prepare_plain:
  assumes calm: "di_fates s = []" and main: "di_files s Main = Some (Plain z)"
    and alone: "di_files s Backup = None" "di_wal s Backup = None"
    and staged: "di_files s Staged = None \<and> di_wal s Staged = None
      \<or> (\<exists>y. di_files s Staged = Some (Cipher key y)
           \<and> en_digest en (data_of s Staged y) = en_digest en (data_of s Main z))"
  shows "\<exists>s'. prepare_plain en key s = (Inr (), s')"
proof -
  let ?d = "data_of s Main z" and ?s1 = "checkpoint None Main s"
  have s1: "di_fates ?s1 = []" "di_files ?s1 Main = Some (Plain ?d)" "di_wal ?s1 Main = None"
    "di_files ?s1 Backup = None" "di_wal ?s1 Backup = None"
    using calm main alone by (auto simp: checkpoint_def data_of_def split: option.split)
  obtain s2 where swhen: "swhen (di_files ?s1 Staged = None) (export en ?d key) ?s1 = (Inr (), s2)"
    and s2: "di_fates s2 = []" "di_files s2 Main = Some (Plain ?d)" "di_wal s2 Main = None"
      "di_files s2 Backup = None" "di_wal s2 Backup = None"
      "\<exists>y. di_files s2 Staged = Some (Cipher key y) \<and> en_digest en (data_of s2 Staged y) = en_digest en ?d"
  proof (cases "di_files s Staged")
    case None
    then show ?thesis using that s1 staged by (simp add: swhen_def go_export data_of_def)
  next
    case (Some c)
    then show ?thesis using that [of ?s1] s1 staged by (simp add: swhen_def sreturn_def data_of_def)
  qed
  obtain y where y: "di_files s2 Staged = Some (Cipher key y)" "en_digest en (data_of s2 Staged y) = en_digest en ?d"
    using s2(6) by blast
  let ?s3 = "checkpoint (Some key) Staged s2"
  have s3: "di_fates ?s3 = []" "di_wal ?s3 = Map.empty" "di_files ?s3 Main = Some (Plain ?d)"
    "di_files ?s3 Staged = Some (Cipher key (data_of s2 Staged y))" "di_files ?s3 Backup = None"
  proof -
    show "di_wal ?s3 = Map.empty" using s2 by (auto simp: fun_eq_iff) (metis slot.exhaust)
    show "di_files ?s3 Staged = Some (Cipher key (data_of s2 Staged y))"
      using y(1) by (auto simp: checkpoint_def data_of_def split: option.split)
  qed (use s2 in simp_all)
  have tail: "\<exists>s'. sbind (sync_file Main) (\<lambda>_. sbind (move_without_replace en Main Backup) (\<lambda>_.
     sbind (ensure_no_sidecars Main) (\<lambda>_. install en key))) ?s3 = (Inr (), s')"
    by (rule go_tail [OF s3 y(2)])
  have "prepare_plain en key s = sbind (sync_file Main) (\<lambda>_. sbind (move_without_replace en Main Backup) (\<lambda>_.
     sbind (ensure_no_sidecars Main) (\<lambda>_. install en key))) ?s3"
    using calm main alone s1 swhen s2 y s3
    by (simp add: prepare_plain_def sbind_def go_legacy go_verify unlogged_checkpoint)
  then show ?thesis using tail by simp
qed

section \<open>The key\<close>

definition wraps :: "dpapi \<Rightarrow> bytes \<Rightarrow> bool" where
  "wraps dp r \<longleftrightarrow> length r = 32 \<and> (case dp_wrap dp (PAYLOAD @ r) of
     None \<Rightarrow> False
   | Some w \<Rightarrow> dp_unwrap dp w = Some (PAYLOAD @ r) \<and> length FORMAT + length w \<le> MAX_ENVELOPE)"

lemma unwrap_written:
  assumes "dp_unwrap dp w = Some (PAYLOAD @ r)" "length r = 32" "length FORMAT + length w \<le> MAX_ENVELOPE"
  shows "unwrap_key dp (FORMAT @ w) = Inr r"
  using assms by (simp add: unwrap_key_def has_prefix_def Let_def)

lemma go_key_step [simp]: "kf_fates s = [] \<Longrightarrow> key_step c f g s = (Inr (), f s)"
  by (cases s) (simp add: key_step_def)

lemma go_create:
  assumes "kf_file s = None" "kf_fates s = []" "wraps dp r"
  shows "\<exists>s'. windows_load_or_create dp r True s = (Inr r, s') \<and> kf_fates s' = []"
proof -
  obtain w where w: "dp_wrap dp (PAYLOAD @ r) = Some w" "dp_unwrap dp w = Some (PAYLOAD @ r)"
    "length r = 32" "length FORMAT + length w \<le> MAX_ENVELOPE"
    using assms(3) by (auto simp: wraps_def split: option.splits)
  have "unwrap_key dp (FORMAT @ w) = Inr r" by (rule unwrap_written [OF w(2-4)])
  then show ?thesis using assms(1,2) w(1)
    by (simp add: windows_load_or_create_def create_key_file_def append_key_def read_key_def
        sbind_def sreturn_def)
qed

lemma go_load_new:
  assumes "di_fates s = []" "di_key s = None" "wraps (en_dpapi en) (en_random en)"
  shows "\<exists>s'. load_key en True s = (Inr (en_random en), s') \<and> di_fates s' = []"
proof -
  obtain k where "windows_load_or_create (en_dpapi en) (en_random en) True
      \<lparr>kf_file = di_key s, kf_fates = di_fates s\<rparr> = (Inr (en_random en), k)" "kf_fates k = []"
    using go_create [of "\<lparr>kf_file = di_key s, kf_fates = di_fates s\<rparr>"] assms by auto
  then show ?thesis by (simp add: load_key_def)
qed

lemma go_load_old:
  assumes "stored_key (en_dpapi en) (di_key s) = Some key"
  shows "load_key en allow s = (Inr key, s)"
proof -
  obtain stored where "di_key s = Some stored" "unwrap_key (en_dpapi en) stored = Inr key"
    using assms by (auto simp: stored_key_def split: sum.splits Option.bind_splits)
  then show ?thesis
    by (cases s) (simp add: load_key_def windows_load_or_create_def read_key_def)
qed

section \<open>Completing\<close>

text \<open>\<open>whole\<close>: no write was cut short, neither of the key nor of the candidate.\<close>

definition candidate :: "'d engine \<Rightarrow> 'd \<Rightarrow> bytes \<Rightarrow> 'd disk \<Rightarrow> bool" where
  "candidate en d key s \<longleftrightarrow>
     (\<exists>y. di_files s Staged = Some (Cipher key y) \<and> en_digest en (data_of s Staged y) = en_digest en d)"

definition key_unreadable :: "'d engine \<Rightarrow> 'd disk \<Rightarrow> bool" where
  "key_unreadable en s \<longleftrightarrow> di_key s \<noteq> None \<and> stored_key (en_dpapi en) (di_key s) = None"

definition candidate_incomplete :: "'d engine \<Rightarrow> 'd \<Rightarrow> 'd disk \<Rightarrow> bool" where
  "candidate_incomplete en d s \<longleftrightarrow> di_files s Staged \<noteq> None
     \<and> (\<forall>key. keyed en key s \<longrightarrow> \<not> candidate en d key s)"

lemma go_prepare_missing:
  assumes "di_fates s = []" "di_files s Main = None" "safe en d s" "orderly en d s" "keyed en key s"
  shows "\<exists>s'. prepare_missing en key s = (Inr (), s')"
proof -
  obtain y where y: "di_files s Staged = Some (Cipher key y)" "en_digest en y = en_digest en d"
    "di_wal s Staged = None" "di_wal s Backup = None"
    using assms by (auto simp: orderly_def verified_def keyed_def)
  have "holds en d Backup s" "is_plain Backup s" "di_wal s Main = None"
    using assms(2,3) by (auto simp: safe_def holds_def split: if_splits)
  then obtain z where z: "di_files s Backup = Some (Plain z)" "en_digest en z = en_digest en d"
    "di_wal s Main = None"
    using y(4) by (auto simp: holds_def is_plain_def data_of_def)
  have "di_wal s = Map.empty" using y z by (simp add: no_logs)
  then have "\<exists>s'. install en key s = (Inr (), s')"
    using go_install [OF assms(1) _ assms(2) y(1) z(1)] y z by simp
  then show ?thesis using assms(1) y z by (simp add: prepare_missing_def sbind_def)
qed

text \<open>
  The only interruptions that a later start does not recover from by itself are inside the writing
  of the key or of the candidate, and then the plaintext database is still in its place.
\<close>

definition stopped_writing :: "'d engine \<Rightarrow> 'd \<Rightarrow> 'd disk \<Rightarrow> bool" where
  "stopped_writing en d s \<longleftrightarrow> is_plain Main s \<and> holds en d Main s
     \<and> (key_unreadable en s \<or> candidate_incomplete en d s)"

lemma go_prepare_encrypted:
  assumes calm: "di_fates s = []" and key: "keyed en key s"
    and main: "di_files s Main = Some (Cipher k y)" "safe en d s" "orderly en d s"
    and staged: "di_wal s Staged = None"
  shows "\<exists>s'. prepare_encrypted en key s = (Inr (), s')"
proof -
  have "holds en d Main s" using main by (simp add: safe_def)
  then have k: "k = key" and y: "en_digest en (data_of s Main y) = en_digest en d"
    using main key by (simp_all add: holds_def keyed_def)
  have quiet: "di_files s Staged = None" "di_wal s Backup = None"
    using main(1,3) by (simp_all add: orderly_def)
  let ?s = "checkpoint (Some key) Main s"
  have s: "di_fates ?s = []" "di_wal ?s = Map.empty" "di_files ?s Staged = None"
    "di_files ?s Main = Some (Cipher key (data_of s Main y))" "di_files ?s Backup = di_files s Backup"
    using calm staged quiet main(1) k
    by (auto simp: no_logs checkpoint_def data_of_def split: option.split)
  show ?thesis
  proof (cases "di_files s Backup")
    case None
    then show ?thesis using calm main(1) k s
      by (simp add: prepare_encrypted_def sbind_def go_keyed swhen_def sreturn_def)
  next
    case (Some c)
    then have "holds en d Backup s" "is_plain Backup s" using main(2) by (simp_all add: safe_def split: if_splits)
    then obtain z where z: "di_files s Backup = Some (Plain z)" "en_digest en z = en_digest en d"
      using quiet(2) by (auto simp: holds_def is_plain_def data_of_def)
    have "cleanup_backup en key ?s = (Inr (), put_file Backup None ?s)"
      by (rule go_cleanup [where y = "data_of s Main y" and z = z]) (use s z y in simp_all)
    then show ?thesis using calm main(1) k s z
      by (simp add: prepare_encrypted_def sbind_def go_keyed swhen_def)
  qed
qed

lemma go_prepare:
  assumes calm: "di_fates s = []" and sound: "sound en d s" "orderly en d s" and key: "keyed en key s"
    and whole: "is_plain Main s \<Longrightarrow> di_files s Staged = None \<or> candidate en d key s"
  shows "\<exists>s'. prepare en key s = (Inr (), s')"
proof (cases "di_files s Main")
  case None
  obtain s' where "prepare_missing en key s = (Inr (), s')"
    using go_prepare_missing [OF calm None sound_safe [OF sound(1)] sound(2) key] by blast
  moreover have "di_files s Backup \<noteq> None"
    using sound(1) None by (intro holds_present [of en d]) (simp add: sound_def safe_def)
  ultimately show ?thesis using None calm by (simp add: prepare_def sbind_def sreturn_def)
next
  case (Some c)
  then have holds: "holds en d Main s" using sound by (simp add: sound_def safe_def)
  consider z where "c = Plain z" | k y where "c = Cipher k y"
    using holds Some by (cases c) (simp_all add: holds_def)
  then show ?thesis
  proof cases
    case 1
    have alone: "di_files s Backup = None" "di_wal s Backup = None"
      using sound Some 1 by (simp_all add: orderly_def)
    have main: "di_files s Main = Some (Plain z)" using Some 1 by simp
    have z: "en_digest en (data_of s Main z) = en_digest en d" using holds main by (simp add: holds_def)
    have "\<exists>s'. prepare_plain en key s = (Inr (), s')"
      by (rule go_prepare_plain [OF calm main alone])
        (use whole sound(1) main z in \<open>auto simp: is_plain_def candidate_def sound_def\<close>)
    then show ?thesis using main calm by (simp add: prepare_def sbind_def)
  next
    case 2
    have main: "di_files s Main = Some (Cipher k y)" using Some 2 by simp
    have "di_files s Staged = None" using sound main by (simp add: orderly_def)
    then have "di_wal s Staged = None" using sound(1) by (simp add: sound_unlogged)
    then have "\<exists>s'. prepare_encrypted en key s = (Inr (), s')"
      by (rule go_prepare_encrypted [OF calm key main sound_safe [OF sound(1)] sound(2)])
    then show ?thesis using main calm by (simp add: prepare_def sbind_def)
  qed
qed

lemma go_load:
  assumes calm: "di_fates s = []" and sound: "sound en d s" and atomic: "en_atomic_move en"
    and wraps: "wraps (en_dpapi en) (en_random en)" and whole: "\<not> stopped_writing en d s"
    and k: "kind_of (di_files s Main) = Inr k"
  shows "\<exists>key s'. load_key en (k \<noteq> EncryptedFile \<and> di_files s Staged = None \<and> di_files s Backup = None) s
     = (Inr key, s') \<and> di_fates s' = [] \<and> sound en d s'
     \<and> (is_plain Main s' \<longrightarrow> di_files s' Staged = None \<or> candidate en d key s')"
proof (cases "stored_key (en_dpapi en) (di_key s)")
  case (Some key)
  have "di_files s Staged = None \<or> candidate en d key s" if "is_plain Main s"
    using whole that sound Some
    by (auto simp: stopped_writing_def candidate_incomplete_def keyed_def sound_def safe_def is_plain_def)
  then show ?thesis using go_load_old [OF Some] calm sound by auto
next
  case None
  have orderly: "orderly en d s" using sound atomic by (simp add: sound_def)
  have "di_files s Main \<noteq> None" using orderly None
    by (cases "di_files s Main") (simp_all add: orderly_def keyed_def)
  then have main: "holds en d Main s" using sound by (simp add: sound_def safe_def)
  then have plain: "is_plain Main s"
    using None by (auto simp: holds_def is_plain_def split: option.splits content.splits)
  then have alone: "di_files s Backup = None" using orderly by (auto simp: orderly_def is_plain_def)
  have "di_key s = None" "di_files s Staged = None"
    using whole main plain None
    by (auto simp: stopped_writing_def key_unreadable_def candidate_incomplete_def keyed_def)
  moreover have "k = Plaintext" using k plain by (auto simp: is_plain_def)
  moreover obtain s' where load: "load_key en True s = (Inr (en_random en), s')" "di_fates s' = []"
    using go_load_new [OF calm \<open>di_key s = None\<close> wraps] by blast
  moreover have "sound en d s'"
    by (rule sound_without_key [OF sound plain alone load_key_effect(1,2) [OF load(1)]])
  moreover have "di_files s' = di_files s" by (rule load_key_effect(1) [OF load(1)])
  ultimately show ?thesis using alone by simp
qed

lemma go_initialize:
  assumes calm: "di_fates s = []" and sound: "sound en d s" and atomic: "en_atomic_move en"
    and wraps: "wraps (en_dpapi en) (en_random en)" and whole: "\<not> stopped_writing en d s"
  shows "\<exists>key s'. initialize_impl en s = (Inr key, s')"
proof -
  have orderly: "orderly en d s" using sound atomic by (simp add: sound_def)
  obtain k where k: "kind_of (di_files s Main) = Inr k" and none: "k = Missing \<longleftrightarrow> di_files s Main = None"
  proof (cases "di_files s Main")
    case None
    then show ?thesis using that by simp
  next
    case (Some c)
    then have "holds en d Main s" using sound by (simp add: sound_def safe_def)
    then show ?thesis using that Some by (cases c) (auto simp: holds_def)
  qed
  obtain key s' where load: "load_key en (k \<noteq> EncryptedFile \<and> di_files s Staged = None \<and> di_files s Backup = None) s
      = (Inr key, s')" "di_fates s' = []" "sound en d s'"
    "is_plain Main s' \<longrightarrow> di_files s' Staged = None \<or> candidate en d key s'"
    using go_load [OF assms k] by blast
  have keyed: "keyed en key s'" using load_key_effect(5) [OF load(1)] by simp
  have "orderly en d s'" using load(3) atomic by (simp add: sound_def)
  then obtain s'' where prepared: "prepare en key s' = (Inr (), s'')"
    using go_prepare [OF load(2,3) _ keyed] load(4) by blast
  have present: "di_files s Main = None \<longrightarrow> di_files s Backup \<noteq> None \<and> di_wal s Main = None"
    using sound holds_present [of en d Backup s] by (auto simp: sound_def safe_def)
  show ?thesis
  proof (cases "di_files s Main = None")
    case True
    then obtain b where "di_files s Backup = Some b" "di_wal s Main = None" using present by auto
    then show ?thesis using True calm k none load(1) prepared
      by (simp add: initialize_impl_def sbind_def sreturn_def)
  next
    case False
    then obtain c where "di_files s Main = Some c" "k \<noteq> Missing" using none by auto
    then show ?thesis using calm k load(1) prepared
      by (simp add: initialize_impl_def sbind_def sreturn_def)
  qed
qed

lemma completed_opens:
  assumes "completed en d key s"
  shows "\<exists>d'. fst (open_encrypted en (Some key) (s\<lparr>di_fates := []\<rparr>)) = Inr d' \<and> en_digest en d' = en_digest en d"
  using assms
  by (auto simp: completed_def open_encrypted_def sbind_def go_keyed data_of_def)

lemma random_writing [simp]: "stopped_writing (en\<lparr>en_random := r\<rparr>) = stopped_writing en"
  by (simp add: fun_eq_iff stopped_writing_def key_unreadable_def candidate_incomplete_def candidate_def)

text \<open>
  Where a move is a link and a removal, a stop between the two is refused by every later start.
\<close>

lemma half_published_refused:
  assumes "di_fates s = []" "stored_key (en_dpapi en) (di_key s) = Some key"
    and "di_files s Main = Some (Cipher key y)" "di_files s Staged = Some c"
  shows "fst (initialize_impl en s) = Inl ''unexpected encrypted candidate beside the live database''"
  using assms
  by (simp add: initialize_impl_def sbind_def sreturn_def go_load_old prepare_def prepare_encrypted_def
      go_keyed sensure_def sfail_def)

lemma half_moved_refused:
  assumes "di_fates s = []" "stored_key (en_dpapi en) (di_key s) = Some key"
    and "di_files s Main = Some (Plain y)" "di_files s Backup = Some c"
  shows "fst (initialize_impl en s) = Inl ''both a legacy database and its migration backup exist''"
  using assms
  by (simp add: initialize_impl_def sbind_def sreturn_def go_load_old prepare_def prepare_plain_def
      sensure_def sfail_def)

text \<open>An instance: a database of one number, with a write in its log.\<close>

definition nat_engine :: "bool \<Rightarrow> nat engine" where
  "nat_engine atomic = \<lparr>en_blank = 0, en_torn = (\<lambda>_. Short), en_digest = (\<lambda>d. [of_nat d]),
     en_atomic_move = atomic, en_dpapi = \<lparr>dp_wrap = Some, dp_unwrap = Some\<rparr>, en_random = []\<rparr>"

definition nat_disk :: "nat disk" where
  "nat_disk = \<lparr>di_files = [Main \<mapsto> Plain 7], di_wal = [Main \<mapsto> 8], di_key = None, di_fates = []\<rparr>"

lemma legacy_nat_disk: "legacy 8 nat_disk"
  by (simp add: legacy_def nat_disk_def data_of_def)

section \<open>The migration as a whole\<close>

text \<open>C30: However often starts of the application are interrupted, at whatever access, a plaintext
  database is never lost: some file still holds its data, and when a start completes, the one file
  left is the database encrypted under the stored key, and opening it gives the same data.\<close>

theorem migration_never_loses_data:
  assumes "legacy d s"
  shows "safe en d (restarts en runs s)
    \<and> (case start en run (restarts en runs s) of
         (Inl e, s') \<Rightarrow> safe en d s'
       | (Inr key, s') \<Rightarrow> completed en d key s'
           \<and> (\<exists>d'. fst (open_encrypted en (Some key) (s'\<lparr>di_fates := []\<rparr>)) = Inr d'
                \<and> en_digest en d' = en_digest en d))"
proof -
  have sound: "sound en d (restarts en runs s)" by (rule restarts_sound [OF legacy_sound [OF assms]])
  obtain r s' where run: "start en run (restarts en runs s) = (r, s')" by fastforce
  show ?thesis
    using start_step [OF sound run] sound_safe [OF sound] run
    by (cases r) (auto intro: sound_safe dest: completed_opens)
qed

theorem migration_never_loses_data_witness:
  "\<forall>runs. safe (nat_engine False) 8 (restarts (nat_engine False) runs nat_disk)"
  by (intro allI conjunct1 [OF migration_never_loses_data] legacy_nat_disk)

text \<open>C31: Where moves are atomic, a start that nothing stops completes an interrupted migration by
  itself, unless an interruption cut short the writing of the key or of the candidate; the
  plaintext database is then still in its place.\<close>

theorem interrupted_migration_completes:
  assumes "legacy d s" and "en_atomic_move en" and "wraps (en_dpapi en) r"
  shows "(\<exists>key s'. start en ([], r) (restarts en runs s) = (Inr key, s') \<and> completed en d key s')
    \<or> stopped_writing en d (restarts en runs s)"
proof (cases "stopped_writing en d (restarts en runs s)")
  case False
  have sound: "sound en d (restarts en runs s)" by (rule restarts_sound [OF legacy_sound [OF assms(1)]])
  have fates: "stopped_writing en d (t\<lparr>di_fates := []\<rparr>) = stopped_writing en d t" for t
    by (simp add: stopped_writing_def key_unreadable_def candidate_incomplete_def candidate_def)
  obtain key s' where run: "start en ([], r) (restarts en runs s) = (Inr key, s')"
    using go_initialize [of "(restarts en runs s)\<lparr>di_fates := []\<rparr>" "en\<lparr>en_random := r\<rparr>" d] sound assms(2,3) False
    by (auto simp: start_def fates)
  then show ?thesis using start_step [OF sound run] by auto
qed simp

theorem interrupted_migration_completes_witness:
  "\<exists>key s'. start (nat_engine True) ([], replicate 32 1) (restarts (nat_engine True) [] nat_disk) = (Inr key, s')
     \<and> completed (nat_engine True) 8 key s'"
proof -
  have calm: "\<not> stopped_writing (nat_engine True) 8 (restarts (nat_engine True) [] nat_disk)"
    by (simp add: restarts_def stopped_writing_def key_unreadable_def candidate_incomplete_def nat_disk_def)
  have wraps: "wraps (en_dpapi (nat_engine True)) (replicate 32 1)"
    by (simp add: wraps_def nat_engine_def PAYLOAD_def FORMAT_def MAX_ENVELOPE_def)
  show ?thesis
    using interrupted_migration_completes [OF legacy_nat_disk _ wraps, of "[]"] calm
    by (simp add: nat_engine_def)
qed

end
