(* ===== verification/Fingerprint.thy ===== *)
theory Fingerprint
  imports Rust_Strings "HOL-Library.Multiset" "HOL-Library.List_Lexorder"
begin

text \<open>
  The fingerprint of a database in desktop/src-tauri/src/db/encrypted.rs, by which a candidate is
  accepted in place of the original: pragmas, schema and rows with their types and identities. The
  hash SHA-256 is the parameter \<open>sha\<close>; what SQLite answers to the queries is the record \<open>image\<close>.
\<close>

type_synonym i64 = "64 word"

datatype sql_value = Null | Integer i64 | Real i64 | Text bytes | Blob bytes

record sql_table =
  st_without_rowid :: bool
  st_columns :: "string list"
  st_rows :: "(i64 \<times> sql_value list) list"

record schema_entry =
  se_kind :: bytes
  se_name :: bytes
  se_table_name :: bytes
  se_sql :: "bytes option"
  se_content :: sql_table

record image =
  im_user_version :: i64
  im_application_id :: i64
  im_auto_vacuum :: i64
  im_schema :: "schema_entry list"

definition le64 :: "nat \<Rightarrow> bytes" where
  "le64 n = rev (be_bytes 8 n)"

definition hash_bytes :: "bytes \<Rightarrow> bytes" where
  "hash_bytes bs = le64 (length bs) @ bs"

definition quoted_identifier :: "string \<Rightarrow> string" where
  "quoted_identifier name = [CHR 0x22] @ concat (map (\<lambda>c. if c = CHR 0x22 then [c, c] else [c]) name) @ [CHR 0x22]"

text \<open>The name under which a table shows its row identities.\<close>

definition rowid_alias :: "sql_table \<Rightarrow> string + string option" where
  "rowid_alias t =
     (if st_without_rowid t then Inr None
      else case find (\<lambda>alias. \<not> list_ex (\<lambda>name. to_ascii_lowercase name = alias) (st_columns t))
                  [''_rowid_'', ''rowid'', ''oid''] of
             Some alias \<Rightarrow> Inr (Some alias)
           | None \<Rightarrow> Inl ''all rowid aliases are shadowed; preserve legacy database for manual migration'')"

text \<open>The rows that are read: with their identity where there is an alias for it.\<close>

definition table_rows :: "string option \<Rightarrow> sql_table \<Rightarrow> sql_value list list" where
  "table_rows alias t = map (\<lambda>(i, row). case alias of Some _ \<Rightarrow> Integer i # row | None \<Rightarrow> row) (st_rows t)"

fun value_input :: "sql_value \<Rightarrow> bytes" where
  "value_input Null = [0]"
| "value_input (Integer v) = 1 # le64 (unat v)"
| "value_input (Real v) = 2 # le64 (unat v)"
| "value_input (Text v) = 3 # hash_bytes v"
| "value_input (Blob v) = 4 # hash_bytes v"

definition row_input :: "sql_value list \<Rightarrow> bytes" where
  "row_input row = le64 (length row) @ concat (map value_input row)"

definition rows_input :: "(bytes \<Rightarrow> bytes) \<Rightarrow> sql_value list list \<Rightarrow> bytes" where
  "rows_input sha rows = le64 (length rows) @ concat (sort (map (sha \<circ> row_input) rows))"

definition is_table :: "schema_entry \<Rightarrow> bool" where
  "is_table e \<longleftrightarrow> se_kind e = map of_char ''table''"

definition entry_input :: "(bytes \<Rightarrow> bytes) \<Rightarrow> schema_entry \<Rightarrow> string + bytes" where
  "entry_input sha e =
     (let texts = hash_bytes (se_kind e) @ hash_bytes (se_name e) @ hash_bytes (se_table_name e)
                  @ hash_bytes (case se_sql e of Some sql \<Rightarrow> sql | None \<Rightarrow> [])
      in if \<not> is_table e then Inr texts
         else case rowid_alias (se_content e) of
                Inl err \<Rightarrow> Inl err
              | Inr alias \<Rightarrow> Inr (texts @ rows_input sha (table_rows alias (se_content e))))"

fun entries_input :: "(bytes \<Rightarrow> bytes) \<Rightarrow> schema_entry list \<Rightarrow> string + bytes" where
  "entries_input sha [] = Inr []"
| "entries_input sha (e # es) =
     (case entry_input sha e of
        Inl err \<Rightarrow> Inl err
      | Inr bs \<Rightarrow> (case entries_input sha es of Inl err \<Rightarrow> Inl err | Inr bs' \<Rightarrow> Inr (bs @ bs')))"

definition fingerprint_input :: "(bytes \<Rightarrow> bytes) \<Rightarrow> image \<Rightarrow> string + bytes" where
  "fingerprint_input sha im =
     (case entries_input sha (im_schema im) of
        Inl err \<Rightarrow> Inl err
      | Inr bs \<Rightarrow> Inr (le64 (unat (im_user_version im)) @ le64 (unat (im_application_id im))
                   @ le64 (unat (im_auto_vacuum im)) @ bs))"

definition fingerprint :: "(bytes \<Rightarrow> bytes) \<Rightarrow> image \<Rightarrow> string + bytes" where
  "fingerprint sha im =
     (case fingerprint_input sha im of Inl err \<Rightarrow> Inl err | Inr bs \<Rightarrow> Inr (sha bs))"

section \<open>Reading back what is hashed\<close>

lemma length_le64 [simp]: "length (le64 n) = 8"
  by (simp add: le64_def)

lemma le64_nonempty [simp]: "le64 n \<noteq> []"
  using length_le64 [of n] by (metis length_0_conv zero_neq_numeral)

lemma le64_inj: "m < 2 ^ 64 \<Longrightarrow> n < 2 ^ 64 \<Longrightarrow> le64 m = le64 n \<longleftrightarrow> m = n"
proof
  assume small: "m < 2 ^ 64" "n < 2 ^ 64" and same: "le64 m = le64 n"
  have "be_nat (be_bytes 8 m) = be_nat (be_bytes 8 n)" using same by (simp add: le64_def)
  then show "m = n" using small by (simp add: be_nat_be_bytes)
qed simp

lemma le64_word: "le64 (unat (v :: i64)) = le64 (unat w) \<longleftrightarrow> v = w"
proof -
  have "unat v < 2 ^ 64" "unat w < 2 ^ 64" using unsigned_less [of v] unsigned_less [of w] by simp_all
  then show ?thesis by (simp add: le64_inj word_unat_eq_iff)
qed

lemma le64_split:
  "m < 2 ^ 64 \<Longrightarrow> n < 2 ^ 64 \<Longrightarrow> le64 m @ r = le64 n @ s \<longleftrightarrow> m = n \<and> r = s"
  by (auto simp: append_eq_append_conv le64_inj)

lemma le64_word_split: "le64 (unat (v :: i64)) @ r = le64 (unat w) @ s \<longleftrightarrow> v = w \<and> r = s"
  by (auto simp: append_eq_append_conv le64_word)

lemma hash_bytes_split:
  assumes "length x < 2 ^ 64" "length y < 2 ^ 64"
  shows "hash_bytes x @ r = hash_bytes y @ s \<longleftrightarrow> x = y \<and> r = s"
  using assms by (auto simp: hash_bytes_def append_eq_append_conv le64_inj)

fun small_value :: "sql_value \<Rightarrow> bool" where
  "small_value (Text v) = (length v < 2 ^ 64)"
| "small_value (Blob v) = (length v < 2 ^ 64)"
| "small_value _ = True"

lemma value_split:
  assumes "small_value v" "small_value w"
  shows "value_input v @ r = value_input w @ s \<longleftrightarrow> v = w \<and> r = s"
  using assms by (cases v; cases w) (simp_all add: le64_word_split hash_bytes_split)

lemma values_split:
  assumes "list_all small_value vs" "list_all small_value ws" "length vs = length ws"
  shows "concat (map value_input vs) = concat (map value_input ws) \<longleftrightarrow> vs = ws"
  using assms(3,1,2) by (induction vs ws rule: list_induct2) (auto simp: value_split)

definition small_row :: "sql_value list \<Rightarrow> bool" where
  "small_row row \<longleftrightarrow> length row < 2 ^ 64 \<and> list_all small_value row"

lemma row_input_inj: "small_row v \<Longrightarrow> small_row w \<Longrightarrow> row_input v = row_input w \<longleftrightarrow> v = w"
  by (auto simp: small_row_def row_input_def le64_inj append_eq_append_conv values_split)

text \<open>Digests of one length, in order: what was hashed, up to order.\<close>

lemma concat_fixed:
  assumes "\<forall>x\<in>set xs. length x = n" "\<forall>y\<in>set ys. length y = n" "length xs = length ys"
  shows "concat xs @ r = concat ys @ s \<longleftrightarrow> xs = ys \<and> r = s"
  using assms(3,1,2) by (induction xs ys rule: list_induct2) (auto simp: append_eq_append_conv)

lemma sorted_hashes:
  assumes "inj_on f (set xs \<union> set ys)"
  shows "sort (map f xs) = sort (map f ys) \<longleftrightarrow> mset xs = mset ys"
proof
  assume "sort (map f xs) = sort (map f ys)"
  then have "image_mset f (mset xs) = image_mset f (mset ys)" by (metis mset_map mset_sort)
  then show "mset xs = mset ys"
    using image_mset_eq_image_mset_plusD [of f "mset xs" "mset ys" "{#}"] assms by auto
next
  assume "mset xs = mset ys"
  then show "sort (map f xs) = sort (map f ys)" by (metis mset_map properties_for_sort mset_sort sorted_sort)
qed

section \<open>Equal fingerprints\<close>

definition read_rows :: "schema_entry \<Rightarrow> sql_value list list" where
  "read_rows e = (case rowid_alias (se_content e) of
     Inr alias \<Rightarrow> if is_table e then table_rows alias (se_content e) else [] | Inl _ \<Rightarrow> [])"

definition sql_text :: "schema_entry \<Rightarrow> bytes" where
  "sql_text e = (case se_sql e of Some sql \<Rightarrow> sql | None \<Rightarrow> [])"

text \<open>The same entry, with the same rows as often, in whatever order they are read.\<close>

definition same_entry :: "schema_entry \<Rightarrow> schema_entry \<Rightarrow> bool" where
  "same_entry e f \<longleftrightarrow> se_kind e = se_kind f \<and> se_name e = se_name f \<and> se_table_name e = se_table_name f
     \<and> sql_text e = sql_text f \<and> mset (read_rows e) = mset (read_rows f)"

definition small_entry :: "schema_entry \<Rightarrow> bool" where
  "small_entry e \<longleftrightarrow> length (se_kind e) < 2 ^ 64 \<and> length (se_name e) < 2 ^ 64
     \<and> length (se_table_name e) < 2 ^ 64 \<and> length (sql_text e) < 2 ^ 64
     \<and> length (read_rows e) < 2 ^ 64 \<and> list_all small_row (read_rows e)"

definition row_inputs :: "schema_entry list \<Rightarrow> bytes set" where
  "row_inputs es = row_input ` (\<Union>e\<in>set es. set (read_rows e))"

lemma row_input_inj_on: "list_all small_row rs \<Longrightarrow> list_all small_row qs \<Longrightarrow> inj_on row_input (set rs \<union> set qs)"
  by (auto simp: inj_on_def list_all_iff row_input_inj)

lemma rows_split:
  assumes sha: "\<And>b. length (sha b) = 32" "inj_on sha (row_input ` (set rs \<union> set qs))"
    and small: "list_all small_row rs" "list_all small_row qs" "length rs < 2 ^ 64" "length qs < 2 ^ 64"
  shows "rows_input sha rs @ r = rows_input sha qs @ s \<longleftrightarrow> mset rs = mset qs \<and> r = s"
proof -
  have inj: "inj_on (sha \<circ> row_input) (set rs \<union> set qs)"
    by (rule comp_inj_on [OF row_input_inj_on [OF small(1,2)] sha(2)])
  have "rows_input sha rs @ r = rows_input sha qs @ s \<longleftrightarrow> length rs = length qs
      \<and> concat (sort (map (sha \<circ> row_input) rs)) @ r = concat (sort (map (sha \<circ> row_input) qs)) @ s"
    unfolding rows_input_def append_assoc using small by (simp only: le64_split)
  also have "\<dots> \<longleftrightarrow> length rs = length qs
      \<and> sort (map (sha \<circ> row_input) rs) = sort (map (sha \<circ> row_input) qs) \<and> r = s"
    using concat_fixed [of "sort (map (sha \<circ> row_input) rs)" 32 "sort (map (sha \<circ> row_input) qs)" r s]
    by (auto simp: sha(1))
  also have "\<dots> \<longleftrightarrow> mset rs = mset qs \<and> r = s"
    using sorted_hashes [OF inj] by (auto dest: mset_eq_length)
  finally show ?thesis .
qed

lemma entry_split:
  assumes sha: "\<And>b. length (sha b) = 32" "inj_on sha (row_input ` (set (read_rows e) \<union> set (read_rows f)))"
    and small: "small_entry e" "small_entry f"
    and inputs: "entry_input sha e = Inr x" "entry_input sha f = Inr y"
  shows "x @ r = y @ s \<longleftrightarrow> same_entry e f \<and> r = s"
proof -
  have written: "x = hash_bytes (se_kind e) @ hash_bytes (se_name e) @ hash_bytes (se_table_name e) @ hash_bytes (sql_text e)
      @ (if is_table e then rows_input sha (read_rows e) else [])" if "entry_input sha e = Inr x" for e x
    using that by (auto simp: entry_input_def Let_def sql_text_def read_rows_def split: if_splits sum.splits)
  have plain: "\<not> is_table e \<Longrightarrow> read_rows e = []" for e by (simp add: read_rows_def split: sum.split)
  have kinds: "se_kind e = se_kind f \<Longrightarrow> is_table e = is_table f" by (simp add: is_table_def)
  have "x @ r = y @ s \<longleftrightarrow> se_kind e = se_kind f \<and> se_name e = se_name f \<and> se_table_name e = se_table_name f
      \<and> sql_text e = sql_text f
      \<and> (if is_table e then rows_input sha (read_rows e) else []) @ r
        = (if is_table f then rows_input sha (read_rows f) else []) @ s"
    unfolding written [OF inputs(1)] written [OF inputs(2)] append_assoc
    using small by (simp only: small_entry_def hash_bytes_split)
  also have "\<dots> \<longleftrightarrow> same_entry e f \<and> r = s"
  proof (cases "is_table e \<and> is_table f")
    case True
    have "rows_input sha (read_rows e) @ r = rows_input sha (read_rows f) @ s
        \<longleftrightarrow> mset (read_rows e) = mset (read_rows f) \<and> r = s"
      by (rule rows_split [OF sha]) (use small in \<open>simp_all add: small_entry_def\<close>)
    then show ?thesis using True by (auto simp: same_entry_def)
  next
    case False
    then show ?thesis using kinds plain [of e] plain [of f] by (auto simp: same_entry_def)
  qed
  finally show ?thesis .
qed

lemma entry_nonempty: "entry_input sha e = Inr x \<Longrightarrow> x \<noteq> []"
  by (auto simp: entry_input_def Let_def hash_bytes_def split: if_splits sum.splits)

lemma entries_split:
  assumes sha: "\<And>b. length (sha b) = 32" and inj: "inj_on sha (row_inputs es \<union> row_inputs fs)"
    and small: "list_all small_entry es" "list_all small_entry fs"
    and inputs: "entries_input sha es = Inr x" "entries_input sha fs = Inr y"
  shows "x = y \<longleftrightarrow> list_all2 same_entry es fs"
  using inj small inputs
proof (induction es arbitrary: fs x y)
  case Nil
  then show ?case
    by (cases fs) (auto split: sum.splits dest: entry_nonempty)
next
  case (Cons e es)
  obtain a b where head: "entry_input sha e = Inr a" "entries_input sha es = Inr b" and x: "x = a @ b"
    using Cons.prems(4) by (auto split: sum.splits)
  show ?case
  proof (cases fs)
    case Nil
    then show ?thesis using Cons.prems(5) x entry_nonempty [OF head(1)] by auto
  next
    case (Cons f fs')
    obtain c d' where tail: "entry_input sha f = Inr c" "entries_input sha fs' = Inr d'" and y: "y = c @ d'"
      using Cons.prems(5) Cons by (auto split: sum.splits)
    have "a @ b = c @ d' \<longleftrightarrow> same_entry e f \<and> b = d'"
    proof (rule entry_split [OF sha _ _ _ head(1) tail(1)])
      show "inj_on sha (row_input ` (set (read_rows e) \<union> set (read_rows f)))"
        by (rule inj_on_subset [OF Cons.prems(1)]) (auto simp: row_inputs_def Cons)
    qed (use Cons.prems Cons in simp_all)
    moreover have "b = d' \<longleftrightarrow> list_all2 same_entry es fs'"
    proof (rule Cons.IH [OF _ _ _ head(2) tail(2)])
      show "inj_on sha (row_inputs es \<union> row_inputs fs')"
        by (rule inj_on_subset [OF Cons.prems(1)]) (auto simp: row_inputs_def Cons)
    qed (use Cons.prems Cons in simp_all)
    ultimately show ?thesis by (simp add: x y Cons)
  qed
qed

definition same_image :: "image \<Rightarrow> image \<Rightarrow> bool" where
  "same_image a b \<longleftrightarrow> im_user_version a = im_user_version b \<and> im_application_id a = im_application_id b
     \<and> im_auto_vacuum a = im_auto_vacuum b \<and> list_all2 same_entry (im_schema a) (im_schema b)"

definition hashed :: "(bytes \<Rightarrow> bytes) \<Rightarrow> image \<Rightarrow> bytes set" where
  "hashed sha im = row_inputs (im_schema im)
     \<union> (case fingerprint_input sha im of Inr bs \<Rightarrow> {bs} | Inl _ \<Rightarrow> {})"

text \<open>C32: Two databases have the same fingerprint exactly when they have the same pragmas, the same
  schema, and in every table the same rows with the same identities, each as often: what the hash
  is given can be read back, as long as the hash of 32 bytes has no collision on it.\<close>

theorem fingerprint_decides:
  assumes sha: "\<forall>b. length (sha b) = 32" "inj_on sha (hashed sha a \<union> hashed sha b)"
    and small: "list_all small_entry (im_schema a)" "list_all small_entry (im_schema b)"
    and prints: "fingerprint sha a = Inr x" "fingerprint sha b = Inr y"
  shows "x = y \<longleftrightarrow> same_image a b"
proof -
  obtain p where p: "entries_input sha (im_schema a) = Inr p"
    "fingerprint_input sha a = Inr (le64 (unat (im_user_version a)) @ le64 (unat (im_application_id a))
       @ le64 (unat (im_auto_vacuum a)) @ p)"
    using prints(1) by (auto simp: fingerprint_def fingerprint_input_def split: sum.splits)
  obtain q where q: "entries_input sha (im_schema b) = Inr q"
    "fingerprint_input sha b = Inr (le64 (unat (im_user_version b)) @ le64 (unat (im_application_id b))
       @ le64 (unat (im_auto_vacuum b)) @ q)"
    using prints(2) by (auto simp: fingerprint_def fingerprint_input_def split: sum.splits)
  let ?p = "le64 (unat (im_user_version a)) @ le64 (unat (im_application_id a)) @ le64 (unat (im_auto_vacuum a)) @ p"
  let ?q = "le64 (unat (im_user_version b)) @ le64 (unat (im_application_id b)) @ le64 (unat (im_auto_vacuum b)) @ q"
  have "?p \<in> hashed sha a" "?q \<in> hashed sha b" by (simp_all add: hashed_def p(2) q(2))
  then have "sha ?p = sha ?q \<longleftrightarrow> ?p = ?q" by (intro inj_on_eq_iff [OF sha(2)]) simp_all
  moreover have "x = sha ?p" "y = sha ?q" using prints by (simp_all add: fingerprint_def p(2) q(2))
  ultimately have "x = y \<longleftrightarrow> ?p = ?q" by simp
  also have "\<dots> \<longleftrightarrow> im_user_version a = im_user_version b \<and> im_application_id a = im_application_id b
      \<and> im_auto_vacuum a = im_auto_vacuum b \<and> p = q"
    by (simp add: le64_word_split)
  also have "p = q \<longleftrightarrow> list_all2 same_entry (im_schema a) (im_schema b)"
  proof (rule entries_split [OF _ _ small p(1) q(1)])
    show "inj_on sha (row_inputs (im_schema a) \<union> row_inputs (im_schema b))"
      by (rule inj_on_subset [OF sha(2)]) (auto simp: hashed_def)
  qed (use sha(1) in simp)
  finally show ?thesis by (simp add: same_image_def)
qed

text \<open>An instance: one table, its rows read in two orders.\<close>

definition pad32 :: "bytes \<Rightarrow> bytes" where
  "pad32 bs = take 32 (bs @ replicate 32 0)"

definition small_image :: "(i64 \<times> sql_value list) list \<Rightarrow> image" where
  "small_image rows = \<lparr>im_user_version = 1, im_application_id = 0, im_auto_vacuum = 0,
     im_schema = [\<lparr>se_kind = map of_char ''table'', se_name = [1], se_table_name = [1], se_sql = None,
       se_content = \<lparr>st_without_rowid = False, st_columns = [], st_rows = rows\<rparr>\<rparr>]\<rparr>"

lemma small_rows: "read_rows (hd (im_schema (small_image rows))) = map (\<lambda>(i, row). Integer i # row) rows"
  by (simp add: read_rows_def small_image_def rowid_alias_def table_rows_def is_table_def)

lemma small_print:
  "fingerprint_input sha (small_image rows) = Inr (le64 1 @ le64 0 @ le64 0
     @ hash_bytes (map of_char ''table'') @ hash_bytes [1] @ hash_bytes [1] @ hash_bytes []
     @ rows_input sha (map (\<lambda>(i, row). Integer i # row) rows))"
  by (simp add: fingerprint_input_def small_image_def entry_input_def rowid_alias_def table_rows_def
      is_table_def Let_def)

lemma sort_pair: "sort [a, b] = sort [b, a :: 'a::linorder]"
  by auto

lemma swapped_rows: "rows_input sha [p, q] = rows_input sha [q, p]"
  using sort_pair [of "sha (row_input p)" "sha (row_input q)"] by (simp add: rows_input_def del: sort_key_simps)

lemma le64_byte: "n < 256 \<Longrightarrow> le64 n = [of_nat n, 0, 0, 0, 0, 0, 0, 0]"
proof -
  have zero: "be_bytes k 0 = replicate k 0" for k
    by (induction k) (simp_all add: replicate_append_same)
  assume "n < 256"
  then have "be_bytes (Suc 7) n = replicate 7 0 @ [of_nat n]"
    by (simp only: be_bytes.simps(2) div_less zero)
  moreover have "Suc 7 = 8" by simp
  moreover have "replicate 7 (0 :: u8) = [0, 0, 0, 0, 0, 0, 0]" by (simp add: eval_nat_numeral)
  ultimately have "be_bytes 8 n = [0, 0, 0, 0, 0, 0, 0, of_nat n]" by (simp only: append.simps)
  then show ?thesis by (simp only: le64_def rev.simps append.simps)
qed

lemma pad32_inj:
  "inj_on pad32 {row_input [Integer 1, Null], row_input [Integer 2], le64 1 @ le64 0 @ le64 0
     @ hash_bytes (map of_char ''table'') @ r}"
proof -
  have "take 9 (pad32 (row_input [Integer 1, Null])) = [2, 0, 0, 0, 0, 0, 0, 0, 1]"
    by (simp add: pad32_def row_input_def le64_byte)
  moreover have "take 9 (pad32 (row_input [Integer 2])) = [1, 0, 0, 0, 0, 0, 0, 0, 1]"
    by (simp add: pad32_def row_input_def le64_byte)
  moreover have "take 9 (pad32 (le64 1 @ le64 0 @ le64 0 @ hash_bytes (map of_char ''table'') @ r))
      = [1, 0, 0, 0, 0, 0, 0, 0, 0]"
    by (simp add: pad32_def le64_byte)
  ultimately show ?thesis by (auto simp: inj_on_def)
qed

theorem fingerprint_decides_witness:
  "fingerprint pad32 (small_image [(1, [Null]), (2, [])]) = fingerprint pad32 (small_image [(2, []), (1, [Null])])
     \<longleftrightarrow> same_image (small_image [(1, [Null]), (2, [])]) (small_image [(2, []), (1, [Null])])"
proof -
  let ?a = "small_image [(1, [Null]), (2, [])]" and ?b = "small_image [(2, []), (1, [Null])]"
  have rows: "row_inputs (im_schema (small_image rs)) = row_input ` set (map (\<lambda>(i, row). Integer i # row) rs)" for rs
    using small_rows [of rs] by (simp add: row_inputs_def small_image_def)
  have inj: "inj_on pad32 (hashed pad32 ?a \<union> hashed pad32 ?b)"
    by (rule inj_on_subset [OF pad32_inj]) (auto simp: hashed_def rows small_print swapped_rows)
  have small: "list_all small_entry (im_schema ?a)" "list_all small_entry (im_schema ?b)"
    using small_rows [of "[(1, [Null]), (2, [])]"] small_rows [of "[(2, []), (1, [Null])]"]
    by (simp_all add: small_image_def small_entry_def small_row_def sql_text_def)
  obtain x y where prints: "fingerprint pad32 ?a = Inr x" "fingerprint pad32 ?b = Inr y"
    by (simp add: fingerprint_def small_print)
  have len: "\<forall>b. length (pad32 b) = 32" by (auto simp: pad32_def)
  show ?thesis using fingerprint_decides [OF len inj small prints] prints by simp
qed

end
