(* ===== verification/Relay_Identity.thy ===== *)
theory Relay_Identity
  imports Relay_Api Secure_Session
begin

text \<open>
  desktop/src-tauri/src/sync/relay_identity.rs: the key material of this PC for the relay, in the
  settings of the encrypted database: its long-lived Noise key, and for each relay pair the
  pre-shared key and, once one is approved, the phone's static key. The base64 crate is a
  parameter; random bytes are arguments.
\<close>

record std_base64 =
  sb_encode :: "bytes \<Rightarrow> string"
  sb_decode :: "string \<Rightarrow> bytes option"

text \<open>What the crate documents: decoding undoes encoding, and the alphabet has no colon or space.\<close>

definition std_base64_laws :: "std_base64 \<Rightarrow> bool" where
  "std_base64_laws b \<longleftrightarrow> (\<forall>bs. sb_decode b (sb_encode b bs) = Some bs
     \<and> list_all (\<lambda>c. visible c \<and> c \<noteq> CHR '':'') (sb_encode b bs))"

definition IDENTITY_KEY :: string where "IDENTITY_KEY = ''relay.identity.private.v1''"
definition PAIR_PREFIX :: string where "PAIR_PREFIX = ''relay.pair.''"

section \<open>The identity of this PC\<close>

definition load_identity :: "('h, 't) snow \<Rightarrow> std_base64 \<Rightarrow> string \<Rightarrow> string + identity" where
  "load_identity sn b stored =
     (case sb_decode b (trim stored) of
        None \<Rightarrow> Inl ''decode stored desktop identity key''
      | Some bytes \<Rightarrow>
          if length bytes \<noteq> 32 then Inl ''stored desktop identity key has the wrong length''
          else case identity_from_private sn bytes of
                 Inl _ \<Rightarrow> Inl ''load desktop identity key''
               | Inr ident \<Rightarrow> Inr ident)"

definition desktop_identity :: "('h, 't) snow \<Rightarrow> std_base64 \<Rightarrow> bytes \<Rightarrow> identity db_op" where
  "desktop_identity sn b random =
     db_bind (get_setting IDENTITY_KEY) (\<lambda>held. case held of
       Some stored \<Rightarrow> (case load_identity sn b stored of Inl e \<Rightarrow> db_fail e | Inr ident \<Rightarrow> db_return ident)
     | None \<Rightarrow>
         (case identity_from_private sn random of
            Inl _ \<Rightarrow> db_fail ''generate desktop identity key''
          | Inr ident \<Rightarrow>
              db_bind (set_setting IDENTITY_KEY (sb_encode b (id_private ident))) (\<lambda>_.
              db_bind (get_setting IDENTITY_KEY) (\<lambda>reloaded. case reloaded of
                None \<Rightarrow> db_fail ''desktop identity key was not persisted''
              | Some s \<Rightarrow>
                  if sb_decode b (trim s) = Some (id_private ident) then db_return ident
                  else db_fail ''desktop identity key did not persist correctly''))))"

section \<open>The secrets of a pair\<close>

record pair_secrets =
  sec_psk :: bytes
  sec_phone :: "bytes option"

definition pair_setting :: "string \<Rightarrow> string" where
  "pair_setting pair_id = PAIR_PREFIX @ pair_id"

definition decode32 :: "std_base64 \<Rightarrow> string \<Rightarrow> bytes option" where
  "decode32 b value =
     (case sb_decode b (trim value) of
        Some bytes \<Rightarrow> if length bytes = 32 then Some bytes else None
      | None \<Rightarrow> None)"

definition read_secrets :: "std_base64 \<Rightarrow> string \<Rightarrow> string + pair_secrets" where
  "read_secrets b stored =
     (let (psk, phone) = (case split_once CHR '':'' stored of
            Some (psk, phone) \<Rightarrow> (psk, Some phone) | None \<Rightarrow> (stored, None))
      in case decode32 b psk of
           None \<Rightarrow> Inl ''stored relay pair secret is unreadable''
         | Some psk' \<Rightarrow>
             (case phone of
                None \<Rightarrow> Inr \<lparr>sec_psk = psk', sec_phone = None\<rparr>
              | Some value \<Rightarrow>
                  (case decode32 b value of
                     None \<Rightarrow> Inl ''stored phone identity is unreadable''
                   | Some phone' \<Rightarrow> Inr \<lparr>sec_psk = psk', sec_phone = Some phone'\<rparr>)))"

definition create_pair_secrets :: "std_base64 \<Rightarrow> string \<Rightarrow> bytes \<Rightarrow> bytes db_op" where
  "create_pair_secrets b pair_id psk =
     db_bind (set_setting (pair_setting pair_id) (sb_encode b psk)) (\<lambda>_. db_return psk)"

definition pair_secrets_of :: "std_base64 \<Rightarrow> string \<Rightarrow> pair_secrets option db_op" where
  "pair_secrets_of b pair_id =
     db_bind (get_setting (pair_setting pair_id)) (\<lambda>held. case held of
       None \<Rightarrow> db_return None
     | Some stored \<Rightarrow>
         if trim stored = [] then db_return None
         else case read_secrets b stored of Inl e \<Rightarrow> db_fail e | Inr s \<Rightarrow> db_return (Some s))"

definition approve_phone :: "std_base64 \<Rightarrow> string \<Rightarrow> bytes \<Rightarrow> unit db_op" where
  "approve_phone b pair_id phone =
     db_bind (pair_secrets_of b pair_id) (\<lambda>held. case held of
       None \<Rightarrow> db_fail ''unknown relay pair''
     | Some secrets \<Rightarrow>
         if sec_phone secrets = Some phone then db_return ()
         else set_setting (pair_setting pair_id)
                (sb_encode b (sec_psk secrets) @ '':'' @ sb_encode b phone))"

definition forget_pair :: "string \<Rightarrow> unit db_op" where
  "forget_pair pair_id = set_setting (pair_setting pair_id) []"

section \<open>What is stored is what is read\<close>

text \<open>The secrets the tables hold for a pair.\<close>

definition held_secrets :: "std_base64 \<Rightarrow> string \<Rightarrow> db \<Rightarrow> pair_secrets option" where
  "held_secrets b pair_id d =
     (case store_get (tb_settings (db_tables d)) (pair_setting pair_id) of
        None \<Rightarrow> None
      | Some stored \<Rightarrow>
          if trim stored = [] then None
          else case read_secrets b stored of Inl _ \<Rightarrow> None | Inr s \<Rightarrow> Some s)"

lemma pair_secrets_read:
  assumes "pair_secrets_of b pair_id d = (Inr s, d')"
  shows "s = held_secrets b pair_id d \<and> db_tables d' = db_tables d"
proof -
  from db_bind_InrD [OF assms [unfolded pair_secrets_of_def]] obtain v d1 where
    "get_setting (pair_setting pair_id) d = (Inr v, d1)"
    and rest: "(case v of None \<Rightarrow> db_return None | Some stored \<Rightarrow>
      if trim stored = [] then db_return None
      else case read_secrets b stored of Inl e \<Rightarrow> db_fail e | Inr s \<Rightarrow> db_return (Some s)) d1 = (Inr s, d')"
    by blast
  then show ?thesis using get_setting_InrD [of "pair_setting pair_id" d v d1]
    by (auto simp: held_secrets_def db_return_def db_fail_def split: option.splits if_splits sum.splits)
qed

text \<open>A pair that was set up has its secret; a phone that was approved is the one that is held.\<close>

lemma encoded_visible: "std_base64_laws b \<Longrightarrow> list_all visible (sb_encode b bs)"
  by (simp add: std_base64_laws_def list_all_iff)

lemma encoded_no_colon: "std_base64_laws b \<Longrightarrow> CHR '':'' \<notin> set (sb_encode b bs)"
  by (auto simp: std_base64_laws_def list_all_iff)

lemma trim_encoded: "std_base64_laws b \<Longrightarrow> trim (sb_encode b bs) = sb_encode b bs"
  by (simp add: visible_trim encoded_visible)

lemma decode32_encode: "std_base64_laws b \<Longrightarrow> length bs = 32 \<Longrightarrow> decode32 b (sb_encode b bs) = Some bs"
  by (simp add: decode32_def trim_encoded) (simp add: std_base64_laws_def)

lemma read_written:
  assumes "std_base64_laws b" "length psk = 32" "length phone = 32"
  shows "read_secrets b (sb_encode b psk @ '':'' @ sb_encode b phone) = Inr \<lparr>sec_psk = psk, sec_phone = Some phone\<rparr>"
    "read_secrets b (sb_encode b psk) = Inr \<lparr>sec_psk = psk, sec_phone = None\<rparr>"
  using assms split_once_append [of "CHR '':''" "sb_encode b psk" "sb_encode b phone"]
    split_once_None [of "CHR '':''" "sb_encode b psk"]
  by (simp_all add: read_secrets_def decode32_encode encoded_no_colon)

lemma read_psk_length: "read_secrets b stored = Inr s \<Longrightarrow> length (sec_psk s) = 32"
  by (auto simp: read_secrets_def decode32_def split: prod.splits option.splits if_splits)

lemma trim_joined:
  assumes "std_base64_laws b"
  shows "trim (sb_encode b x @ '':'' @ sb_encode b y) = sb_encode b x @ '':'' @ sb_encode b y"
  by (rule visible_trim) (use encoded_visible [OF assms, of x] encoded_visible [OF assms, of y] in
      \<open>auto simp: list_all_iff visible_def\<close>)

text \<open>A phone that was approved is the one the tables hold, under the same pre-shared key.\<close>

lemma approved_is_held:
  assumes laws: "std_base64_laws b" and phone: "length phone = 32"
    and run: "approve_phone b pair_id phone d = (Inr u, d')"
  shows "\<exists>s. held_secrets b pair_id d = Some s
    \<and> held_secrets b pair_id d' = Some (s\<lparr>sec_phone := Some phone\<rparr>)"
proof -
  from db_bind_InrD [OF run [unfolded approve_phone_def]] obtain held d1 where
    read: "pair_secrets_of b pair_id d = (Inr held, d1)"
    and rest: "(case held of None \<Rightarrow> db_fail ''unknown relay pair''
      | Some secrets \<Rightarrow> if sec_phone secrets = Some phone then db_return ()
         else set_setting (pair_setting pair_id) (sb_encode b (sec_psk secrets) @ '':'' @ sb_encode b phone)) d1 = (Inr u, d')"
    by blast
  note r = pair_secrets_read [OF read]
  obtain s where held: "held = Some s" using rest by (cases held) (simp_all add: db_fail_def)
  then have s: "held = Some s" "held_secrets b pair_id d = Some s" using r by simp_all
  show ?thesis
  proof (cases "sec_phone s = Some phone")
    case True
    then have "db_tables d' = db_tables d" using rest s r by (simp add: db_return_def)
    then have "held_secrets b pair_id d' = held_secrets b pair_id d" by (simp add: held_secrets_def)
    then show ?thesis using s True by (cases s) simp
  next
    case False
    let ?text = "sb_encode b (sec_psk s) @ '':'' @ sb_encode b phone"
    have "set_setting (pair_setting pair_id) ?text d1 = (Inr u, d')" using rest s False by simp
    from set_setting_InrD [OF this] have
      "store_get (tb_settings (db_tables d')) (pair_setting pair_id) = Some ?text"
      by (simp add: kv.get_put_same)
    moreover have "length (sec_psk s) = 32"
      using s(2) read_psk_length by (auto simp: held_secrets_def split: option.splits if_splits sum.splits)
    ultimately have "held_secrets b pair_id d' = Some \<lparr>sec_psk = sec_psk s, sec_phone = Some phone\<rparr>"
      using trim_joined [OF laws, of "sec_psk s" phone] read_written [OF laws _ phone]
      by (simp add: held_secrets_def)
    then show ?thesis using s(2) by (cases s) simp
  qed
qed

text \<open>An instance of the laws.\<close>

definition hex64 :: std_base64 where
  "hex64 = \<lparr>sb_encode = hex_string, sb_decode = (\<lambda>s. hex_bytes (length s div 2) s)\<rparr>"

lemma hex_char_visible: "d < 16 \<Longrightarrow> visible (hex_char d) \<and> hex_char d \<noteq> CHR '':''"
proof -
  have code: "of_char (hex_char d) = (if d < 10 then 48 + d else 87 + d)" if "d < 16"
    using that by (simp add: hex_char_def)
  assume "d < 16"
  moreover from this code have "of_char (hex_char d) \<noteq> (58 :: nat)" by auto
  then have "hex_char d \<noteq> CHR '':''" by auto
  ultimately show ?thesis using code by (auto simp: visible_def)
qed

lemma hex64_laws: "std_base64_laws hex64"
proof -
  have "list_all (\<lambda>c. visible c \<and> c \<noteq> CHR '':'') (hex_of_byte b)" for b
  proof -
    have "unat b div 16 < 16" "unat b mod 16 < 16" using unat_u8_less [of b] by (simp_all add: less_mult_imp_div_less)
    then show ?thesis by (simp add: hex_of_byte_def hex_char_visible)
  qed
  then have "list_all (\<lambda>c. visible c \<and> c \<noteq> CHR '':'') (hex_string bs)" for bs
    by (induction bs) (simp_all add: hex_string_def)
  then show ?thesis by (simp add: std_base64_laws_def hex64_def hex_bytes_hex_string)
qed

end
