(* ===== verification/Relay_Client.thy ===== *)
theory Relay_Client
  imports Relay_Identity App_State Session_Safety Socket_Io Fallible
begin

text \<open>
  desktop/src-tauri/src/sync/relay_client.rs: the desktop at the relay. The relay's socket is
  the list of what it will deliver, each item with the time it arrives; a send takes the next of
  the answers given for it. Other tasks act on the shared state before each access to it:
  \<open>re_others k\<close> before the k-th. \<open>re_clock k\<close> is the time of the k-th call that is not prompted by
  a frame. The Noise library, base64, SHA-256 and the parser of JSON are parameters;
  \<open>re_fingerprint\<close> is the fingerprint of this PC's certificate.
\<close>

definition IDLE_TIMEOUT :: nat where "IDLE_TIMEOUT = secs 150"
definition KEEPALIVE :: nat where "KEEPALIVE = secs 45"
definition HANDSHAKE_TIMEOUT :: nat where "HANDSHAKE_TIMEOUT = secs 30"
definition MIN_BACKOFF :: nat where "MIN_BACKOFF = secs 5"
definition MAX_BACKOFF :: nat where "MAX_BACKOFF = secs 120"

datatype relay_item = Arrives ws_message | Broken | Ended

record client =
  cl_app :: app_state
  cl_in :: "(instant \<times> relay_item) list"
  cl_sends :: "bool list"
  cl_out :: "ws_message list"

type_synonym 'a client_op = "(client, 'a) fallible"

record ('h, 't) relay_env =
  re_snow :: "('h, 't) snow"
  re_base64 :: std_base64
  re_json :: json_text
  re_others :: "nat \<Rightarrow> app_state \<Rightarrow> app_state"
  re_clock :: "nat \<Rightarrow> instant"
  re_sha :: "bytes \<Rightarrow> bytes"
  re_fingerprint :: string

fun error_text :: "error \<Rightarrow> string" where
  "error_text InvalidState = ''secure session is not in the required state''"
| "error_text InvalidInput = ''invalid secure-session frame or configuration''"
| "error_text AuthenticationFailed = ''secure-session authentication failed''"
| "error_text InitializationFailed = ''secure session could not be initialized''"
| "error_text LimitReached = ''secure-session limit reached; reconnect required''"

section \<open>The relay's socket\<close>

definition relay_send :: "string \<Rightarrow> ws_message \<Rightarrow> unit client_op" where
  "relay_send ctx m c =
     (case cl_sends c of
        False # rest \<Rightarrow> (Inl ctx, c\<lparr>cl_sends := rest\<rparr>)
      | sends \<Rightarrow> (Inr (), c\<lparr>cl_sends := tl sends, cl_out := cl_out c @ [m]\<rparr>))"

definition send_binary :: "bytes \<Rightarrow> unit client_op" where
  "send_binary frame = relay_send ''send relay frame'' (BinaryM frame)"

text \<open>The next binary frame before the deadline; other traffic is passed over.\<close>

fun read_binary :: "json_text \<Rightarrow> instant \<Rightarrow> (instant \<times> relay_item) list
    \<Rightarrow> (string + instant \<times> bytes) \<times> (instant \<times> relay_item) list" where
  "read_binary jt deadline [] = (Inl ''relay handshake timed out'', [])"
| "read_binary jt deadline ((time, item) # rest) =
     (if deadline \<le> time then (Inl ''relay handshake timed out'', (time, item) # rest)
      else case item of
             Broken \<Rightarrow> (Inl ''read relay frame'', rest)
           | Ended \<Rightarrow> (Inl ''relay socket closed during the handshake'', rest)
           | Arrives (BinaryM bytes) \<Rightarrow> (Inr (time, bytes), rest)
           | Arrives (TextM t) \<Rightarrow>
               if control_type (jt_parse jt) t = Some ''relay.peer_unavailable''
               then (Inl ''the phone left before the session was established'', rest)
               else read_binary jt deadline rest
           | Arrives (CloseM _) \<Rightarrow> (Inl ''relay socket closed during the handshake'', rest)
           | Arrives _ \<Rightarrow> read_binary jt deadline rest)"

definition next_binary :: "json_text \<Rightarrow> instant \<Rightarrow> (instant \<times> bytes) client_op" where
  "next_binary jt deadline c =
     (case read_binary jt deadline (cl_in c) of (r, rest) \<Rightarrow> (r, c\<lparr>cl_in := rest\<rparr>))"

lemma read_binary_less:
  "read_binary jt deadline ins = (Inr x, rest) \<Longrightarrow> length rest < length ins"
  by (induction jt deadline ins rule: read_binary.induct)
    (auto split: if_splits relay_item.splits ws_message.splits)

section \<open>The handshake\<close>

text \<open>A call of the secure session, whose error ends the attempt with the session dropped.\<close>

definition session_try :: "string \<Rightarrow> ('h, 't, 'a) op \<Rightarrow> ('h, 't) session
    \<Rightarrow> ('a \<times> ('h, 't) session) client_op" where
  "session_try ctx call s =
     (case call s of (Inl e, _) \<Rightarrow> sfail (ctx @ '': '' @ error_text e) | (Inr x, s') \<Rightarrow> sreturn (x, s'))"

text \<open>
  \<open>while phase() == Handshake\<close>: read a frame, and answer it while the handshake goes on. Each
  round takes a frame off the socket.
\<close>

function handshake_rounds :: "('h, 't) relay_env \<Rightarrow> instant \<Rightarrow> ('h, 't) session
    \<Rightarrow> client \<Rightarrow> (string + ('h, 't) session) \<times> client" where
  "handshake_rounds env deadline s c =
     (if s_phase s \<noteq> Handshake then (Inr s, c)
      else case next_binary (re_json env) deadline c of
             (Inl e, c1) \<Rightarrow> (Inl e, c1)
           | (Inr (now, frame), c1) \<Rightarrow>
               (case read_handshake (re_snow env) now frame s of
                  (Inl e, _) \<Rightarrow> (Inl (''relay handshake rejected: '' @ error_text e), c1)
                | (Inr _, s1) \<Rightarrow>
                    if s_phase s1 \<noteq> Handshake then (Inr s1, c1)
                    else case write_handshake (re_snow env) now s1 of
                           (Inl e, _) \<Rightarrow> (Inl (''relay handshake failed: '' @ error_text e), c1)
                         | (Inr reply, s2) \<Rightarrow>
                             (case send_binary reply c1 of
                                (Inl e, c2) \<Rightarrow> (Inl e, c2)
                              | (Inr _, c2) \<Rightarrow> handshake_rounds env deadline s2 c2)))"
  by pat_completeness auto
termination
proof (relation "measure (\<lambda>(env, deadline, s, c). length (cl_in c))", simp)
qed (auto simp: next_binary_def send_binary_def relay_send_def read_binary_less
    split: prod.splits list.splits bool.splits)

declare handshake_rounds.simps [simp del]

section \<open>Enrolling\<close>

definition enrollment_needed :: "bool \<Rightarrow> bool \<Rightarrow> bool" where
  "enrollment_needed has_pinned_phone explicitly_armed \<longleftrightarrow> \<not> has_pinned_phone \<or> explicitly_armed"

definition should_enroll_after :: "string \<Rightarrow> bool \<Rightarrow> bool" where
  "should_enroll_after error code_live \<longleftrightarrow>
     code_live \<and> sublist ''handshake rejected'' error"

text \<open>The shared state, once the other tasks have had their turn.\<close>

definition on_state :: "('h, 't) relay_env \<Rightarrow> nat \<Rightarrow> (app_state \<Rightarrow> 'a \<times> app_state) \<Rightarrow> 'a client_op" where
  "on_state env k f c = (case f (re_others env k (cl_app c)) of (x, a) \<Rightarrow> (Inr x, c\<lparr>cl_app := a\<rparr>))"

definition state_db :: "('h, 't) relay_env \<Rightarrow> nat \<Rightarrow> 'a db_op \<Rightarrow> 'a client_op" where
  "state_db env k m c =
     (case app_db m (re_others env k (cl_app c)) of (r, a) \<Rightarrow> (r, c\<lparr>cl_app := a\<rparr>))"

definition start_session :: "('h, 't) relay_env \<Rightarrow> identity \<Rightarrow> pair_secrets \<Rightarrow> bytes \<Rightarrow> bool
    \<Rightarrow> ('h, 't) session client_op" where
  "start_session env ident secrets pair_bytes enrolling =
     (case (if enrolling
            then session_desktop_enrollment (re_snow env) (re_clock env 0) ident (sec_psk secrets) pair_bytes
            else session_desktop (re_snow env) (re_clock env 0) ident (sec_psk secrets) pair_bytes
                   (the (sec_phone secrets))) of
        Inl _ \<Rightarrow> sfail ''start the secure session''
      | Inr s \<Rightarrow> sreturn s)"

text \<open>The pin is stored before the session is confirmed, and one code enrolls one phone.\<close>

definition enroll :: "('h, 't) relay_env \<Rightarrow> string \<Rightarrow> ('h, 't) session \<Rightarrow> ('h, 't) session client_op" where
  "enroll env pair_id s =
     (if s_phase s \<noteq> AwaitingApproval then sreturn s
      else case (s_peer s, s_binding s) of
             (None, _) \<Rightarrow> sfail ''missing phone identity''
           | (_, None) \<Rightarrow> sfail ''missing session binding''
           | (Some peer, Some binding) \<Rightarrow>
               sbind (state_db env 2 (approve_phone (re_base64 env) pair_id peer)) (\<lambda>_.
               sbind (on_state env 3 (\<lambda>a. ((), disarm_enrollment a))) (\<lambda>_.
               sbind (session_try ''enrollment approval failed''
                        (approve_enrollment (re_clock env 1) peer binding) s) (\<lambda>(_, s').
               sreturn s'))))"

definition confirm :: "('h, 't) relay_env \<Rightarrow> instant \<Rightarrow> ('h, 't) session \<Rightarrow> ('h, 't) session client_op" where
  "confirm env deadline s =
     sbind (session_try ''confirmation failed'' (write_confirmation (re_snow env) (re_clock env 2)) s)
       (\<lambda>(confirmation, s1).
     sbind (send_binary confirmation) (\<lambda>_.
     sbind (next_binary (re_json env) deadline) (\<lambda>(now, reply).
     sbind (session_try ''phone confirmation rejected'' (read_confirmation (re_snow env) now reply) s1)
       (\<lambda>(_, s2).
     sbind (sensure (is_ready s2) ''secure session did not reach the ready state'') (\<lambda>_.
     sreturn s2)))))"

text \<open>\<open>run_session\<close> up to the bridge.\<close>

definition establish :: "('h, 't) relay_env \<Rightarrow> identity \<Rightarrow> pair_secrets \<Rightarrow> string
    \<Rightarrow> ('h, 't) session client_op" where
  "establish env ident secrets pair_id =
     (case pair_id_bytes pair_id of
        None \<Rightarrow> sfail ''relay pair id''
      | Some pair_bytes \<Rightarrow>
          sbind (on_state env 1 (\<lambda>a. (as_enrollment_armed a, a))) (\<lambda>armed.
          sbind (start_session env ident secrets pair_bytes
                   (enrollment_needed (sec_phone secrets \<noteq> None) armed)) (\<lambda>s0.
          let deadline = re_clock env 0 + HANDSHAKE_TIMEOUT
          in sbind (handshake_rounds env deadline s0) (\<lambda>s1.
             sbind (enroll env pair_id s1) (\<lambda>s2.
             confirm env deadline s2)))))"

end
