(* ===== verification/Relay_Pinning.thy ===== *)
theory Relay_Pinning
  imports Relay_Client
begin

text \<open>
  Which phone gets a session over the relay: the one that is pinned, or, where none is pinned or
  enrollment is armed, the one whose key is stored as the pin before the session is confirmed.
\<close>

section \<open>Calls of the session\<close>

lemma read_handshake_keeps:
  "snow_bounded sn \<Longrightarrow> session_inv s \<Longrightarrow> session_inv (snd (read_handshake sn now f s))"
  "snow_bounded sn \<Longrightarrow> session_inv s \<Longrightarrow> same_owner s (snd (read_handshake sn now f s))"
  using session_call_inv [of sn s now "ReadHandshake f"] session_call_owner [of sn s now "ReadHandshake f"]
  by simp_all

lemma write_handshake_keeps:
  "snow_bounded sn \<Longrightarrow> session_inv s \<Longrightarrow> session_inv (snd (write_handshake sn now s))"
  "snow_bounded sn \<Longrightarrow> session_inv s \<Longrightarrow> same_owner s (snd (write_handshake sn now s))"
  using session_call_inv [of sn s now WriteHandshake] session_call_owner [of sn s now WriteHandshake]
  by simp_all

lemma approve_keeps:
  fixes sn :: "('h, 't) snow" and s :: "('h, 't) session"
  shows "snow_bounded sn \<Longrightarrow> session_inv s \<Longrightarrow> session_inv (snd (approve_enrollment now p b s))"
  using session_call_inv [of sn s now "ApproveEnrollment p b"] by simp

lemma write_confirmation_keeps:
  "snow_bounded sn \<Longrightarrow> session_inv s \<Longrightarrow> session_inv (snd (write_confirmation sn now s))"
  "snow_bounded sn \<Longrightarrow> session_inv s \<Longrightarrow> same_owner s (snd (write_confirmation sn now s))"
  using session_call_inv [of sn s now WriteConfirmation] session_call_owner [of sn s now WriteConfirmation]
  by simp_all

lemma read_confirmation_keeps:
  "snow_bounded sn \<Longrightarrow> session_inv s \<Longrightarrow> session_inv (snd (read_confirmation sn now f s))"
  "snow_bounded sn \<Longrightarrow> session_inv s \<Longrightarrow> same_owner s (snd (read_confirmation sn now f s))"
  using session_call_inv [of sn s now "ReadConfirmation f"] session_call_owner [of sn s now "ReadConfirmation f"]
  by simp_all

definition peer32 :: "('h, 't) session \<Rightarrow> bool" where
  "peer32 s \<longleftrightarrow> (\<forall>p. s_peer s = Some p \<longrightarrow> length p = 32)"

lemma finish_peer: "s_peer (snd (finish_handshake sn s)) = s_peer s"
  by (auto simp: finish_handshake_def Let_def split: option.split)

lemma finish_peer_eq: "finish_handshake sn s = (r, s') \<Longrightarrow> s_peer s' = s_peer s"
  using finish_peer [of sn s] by simp

lemma checked_peer32: "peer32 (snd (op s)) \<Longrightarrow> peer32 s \<Longrightarrow> peer32 (snd (checked_at now op s))"
  by (auto simp: checked_at_def peer32_def split: prod.splits sum.splits if_splits)

lemma read_handshake_peer32: "peer32 s \<Longrightarrow> peer32 (snd (read_handshake sn now f s))"
  unfolding read_handshake_def
  by (rule checked_peer32)
    (auto simp: read_handshake_body_def peer32_def finish_peer Let_def split: option.split prod.split)

lemma write_handshake_peer32: "peer32 s \<Longrightarrow> peer32 (snd (write_handshake sn now s))"
  unfolding write_handshake_def
  by (rule checked_peer32)
    (auto simp: write_handshake_body_def peer32_def dest: finish_peer_eq split: option.split prod.split sum.split)

lemma finish_expected: "finish_handshake sn s = (r, s') \<Longrightarrow> s_expected_peer s' = s_expected_peer s"
  by (auto simp: finish_handshake_def Let_def split: option.splits if_splits)

lemma checked_expected:
  "s_expected_peer (snd (op s)) = s_expected_peer s
     \<Longrightarrow> s_expected_peer (snd (checked_at now op s)) = s_expected_peer s"
  by (auto simp: checked_at_def split: prod.splits sum.splits if_splits)

lemma read_handshake_expected: "s_expected_peer (snd (read_handshake sn now f s)) = s_expected_peer s"
  unfolding read_handshake_def
  by (rule checked_expected)
    (auto simp: read_handshake_body_def Let_def split: option.split prod.split
      intro: trans [OF finish_expected [OF surjective_pairing]])

lemma write_handshake_expected: "s_expected_peer (snd (write_handshake sn now s)) = s_expected_peer s"
  unfolding write_handshake_def
  by (rule checked_expected)
    (auto simp: write_handshake_body_def dest: finish_expected split: option.split prod.split sum.split)

section \<open>Up to the end of the handshake\<close>

lemma next_binary_app: "cl_app (snd (next_binary jt deadline c)) = cl_app c"
  by (simp add: next_binary_def split: prod.split)

lemma relay_send_app: "cl_app (snd (relay_send ctx m c)) = cl_app c"
  by (simp add: relay_send_def split: list.split bool.split)

definition good :: "('h, 't) session \<Rightarrow> ('h, 't) session \<Rightarrow> bool" where
  "good s0 s \<longleftrightarrow> session_inv s \<and> same_owner s0 s \<and> peer32 s \<and> s_expected_peer s = s_expected_peer s0"

lemma good_trans: "good s0 s \<Longrightarrow> good s s' \<Longrightarrow> good s0 s'"
  using same_owner_trans by (auto simp: good_def)

lemma read_good:
  assumes "snow_bounded sn" "session_inv s" "peer32 s" "read_handshake sn now f s = (r, s')"
  shows "good s s'"
  using read_handshake_keeps [OF assms(1,2), of now f] read_handshake_peer32 [OF assms(3), of sn now f]
    read_handshake_expected [of sn now f s] assms(4)
  by (simp add: good_def)

lemma write_good:
  assumes "snow_bounded sn" "session_inv s" "peer32 s" "write_handshake sn now s = (r, s')"
  shows "good s s'"
  using write_handshake_keeps [OF assms(1,2), of now] write_handshake_peer32 [OF assms(3), of sn now]
    write_handshake_expected [of sn now s] assms(4)
  by (simp add: good_def)

definition rounds_end :: "('h, 't) session \<Rightarrow> client \<Rightarrow> (string + ('h, 't) session) \<times> client \<Rightarrow> bool" where
  "rounds_end s c res \<longleftrightarrow> cl_app (snd res) = cl_app c
     \<and> (case fst res of Inl _ \<Rightarrow> True | Inr s' \<Rightarrow> good s s' \<and> s_phase s' \<noteq> Handshake)"

lemma rounds_end_error: "cl_app c' = cl_app c \<Longrightarrow> rounds_end s c (Inl e, c')"
  by (simp add: rounds_end_def)

lemma rounds_end_trans:
  "good s s1 \<Longrightarrow> cl_app c1 = cl_app c \<Longrightarrow> rounds_end s1 c1 res \<Longrightarrow> rounds_end s c res"
  by (auto simp: rounds_end_def good_trans split: sum.splits)

lemma handshake_rounds_good:
  "snow_bounded (re_snow env) \<Longrightarrow> session_inv s \<Longrightarrow> peer32 s \<Longrightarrow> rounds_end s c (handshake_rounds env deadline s c)"
proof (induction env deadline s c rule: handshake_rounds.induct)
  case (1 env deadline s c)
  note sn = \<open>snow_bounded (re_snow env)\<close> and inv = \<open>session_inv s\<close> "1.prems"(3)
  show ?case
  proof (cases "s_phase s = Handshake")
    case False
    then show ?thesis using inv by (simp add: handshake_rounds.simps [of env] rounds_end_def good_def)
  next
    case phase: True
    obtain rn c1 where nb: "next_binary (re_json env) deadline c = (rn, c1)" by fastforce
    have c1: "cl_app c1 = cl_app c" using next_binary_app [of "re_json env" deadline c] nb by simp
    show ?thesis
    proof (cases rn)
      case (Inl e)
      then show ?thesis using phase nb c1 by (simp add: handshake_rounds.simps [of env] rounds_end_error)
    next
      case (Inr nf)
      obtain now frame where nf: "nf = (now, frame)" by fastforce
      obtain rr s1 where read: "read_handshake (re_snow env) now frame s = (rr, s1)" by fastforce
      have s1: "good s s1" by (rule read_good [OF sn inv read])
      show ?thesis
      proof (cases "\<exists>u. rr = Inr u \<and> s_phase s1 = Handshake")
        case False
        then show ?thesis using phase nb c1 Inr nf read s1
          by (cases rr) (simp_all add: handshake_rounds.simps [of env] rounds_end_def)
      next
        case True
        then obtain u where u: "rr = Inr u" "s_phase s1 = Handshake" by blast
        obtain rw s2 where wr: "write_handshake (re_snow env) now s1 = (rw, s2)" by fastforce
        have s2: "good s1 s2" by (rule write_good [OF sn _ _ wr]) (use s1 in \<open>simp_all add: good_def\<close>)
        show ?thesis
        proof (cases rw)
          case (Inl e)
          then show ?thesis using phase nb c1 Inr nf read u wr
            by (simp add: handshake_rounds.simps [of env] rounds_end_error)
        next
          case reply: (Inr reply)
          obtain rs c2 where send: "send_binary reply c1 = (rs, c2)" by fastforce
          have c2: "cl_app c2 = cl_app c1"
            using relay_send_app [of _ _ c1] send by (metis send_binary_def snd_conv)
          show ?thesis
          proof (cases rs)
            case (Inl e)
            then show ?thesis using phase nb c1 c2 Inr nf read u wr reply send
              by (simp add: handshake_rounds.simps [of env] rounds_end_error)
          next
            case sent: (Inr v)
            have "rounds_end s2 c2 (handshake_rounds env deadline s2 c2)"
              by (rule "1.IH" [OF _ nb [symmetric] Inr nf [symmetric] read [symmetric] u(1) _ wr [symmetric] reply
                    send [symmetric] sent sn])
                (use phase u s2 in \<open>simp_all add: good_def\<close>)
            then have "rounds_end s c (handshake_rounds env deadline s2 c2)"
              using rounds_end_trans good_trans [OF s1 s2] c1 c2 by metis
            then show ?thesis using phase nb Inr nf read u wr reply send sent
              by (simp add: handshake_rounds.simps [of env _ s])
          qed
        qed
      qed
    qed
  qed
qed

section \<open>Enrolling and confirming\<close>

text \<open>Nobody else provisions or forgets the pair meanwhile.\<close>

definition leaves_pair :: "('h, 't) relay_env \<Rightarrow> string \<Rightarrow> bool" where
  "leaves_pair env pair_id \<longleftrightarrow> (\<forall>k a. held_secrets (re_base64 env) pair_id (as_db (re_others env k a))
     = held_secrets (re_base64 env) pair_id (as_db a))"

abbreviation holds_for :: "('h, 't) relay_env \<Rightarrow> string \<Rightarrow> client \<Rightarrow> pair_secrets option" where
  "holds_for env pair_id c \<equiv> held_secrets (re_base64 env) pair_id (as_db (cl_app c))"

definition pin_kept :: "('h, 't) relay_env \<Rightarrow> string \<Rightarrow> pair_secrets \<Rightarrow> bool \<Rightarrow> client \<Rightarrow> bool" where
  "pin_kept env pair_id secrets enrolling c \<longleftrightarrow> holds_for env pair_id c = Some secrets
     \<or> enrolling \<and> (\<exists>p. holds_for env pair_id c = Some (secrets\<lparr>sec_phone := Some p\<rparr>))"

definition pinned_to :: "('h, 't) relay_env \<Rightarrow> string \<Rightarrow> pair_secrets \<Rightarrow> bool \<Rightarrow> bytes \<Rightarrow> client \<Rightarrow> bool" where
  "pinned_to env pair_id secrets enrolling p c \<longleftrightarrow>
     holds_for env pair_id c = Some (secrets\<lparr>sec_phone := Some p\<rparr>)
     \<and> (enrolling \<or> sec_phone secrets = Some p)"

lemma pinned_kept: "pinned_to env pid sec enrolling p c \<Longrightarrow> pin_kept env pid sec enrolling c"
  by (cases sec) (auto simp: pinned_to_def pin_kept_def)

lemma same_pin: "sec_phone sec = Some p \<Longrightarrow> sec\<lparr>sec_phone := Some p\<rparr> = sec"
  by (cases sec) simp

definition keeps_app :: "'a client_op \<Rightarrow> bool" where
  "keeps_app m \<longleftrightarrow> (\<forall>c. cl_app (snd (m c)) = cl_app c)"

lemma keeps_appD: "keeps_app m \<Longrightarrow> m c = (r, c') \<Longrightarrow> cl_app c' = cl_app c"
  unfolding keeps_app_def by (metis snd_conv)

lemma keeps_return: "keeps_app (sreturn x)"
  by (simp add: keeps_app_def sreturn_def)

lemma keeps_ensure: "keeps_app (sensure b e)"
  by (simp add: keeps_app_def sensure_def sreturn_def sfail_def)

lemma keeps_bind:
  assumes "keeps_app m" and "\<And>x. keeps_app (f x)"
  shows "keeps_app (sbind m f)"
  unfolding keeps_app_def
proof
  fix c
  obtain r c1 where m: "m c = (r, c1)" by fastforce
  then have "cl_app c1 = cl_app c" using assms(1) by (rule keeps_appD [rotated])
  moreover have "cl_app (snd (f x c1)) = cl_app c1" for x using assms(2) by (simp add: keeps_app_def)
  ultimately show "cl_app (snd (sbind m f c)) = cl_app c" using m by (simp add: sbind_def split: sum.split)
qed

lemma keeps_try: "keeps_app (session_try ctx call s)"
  by (auto simp: keeps_app_def session_try_def sfail_def sreturn_def split: prod.split sum.split)

lemma try_InrD: "session_try ctx call s c = (Inr (x, s'), c') \<Longrightarrow> call s = (Inr x, s')"
  by (auto simp: session_try_def sfail_def sreturn_def split: prod.splits sum.splits)

lemma keeps_send: "keeps_app (send_binary frame)"
  by (simp add: keeps_app_def send_binary_def relay_send_app)

lemma keeps_next: "keeps_app (next_binary jt deadline)"
  by (simp add: keeps_app_def next_binary_app)

text \<open>A session that is confirmed has the pinned peer.\<close>

definition bound_to :: "bytes \<Rightarrow> ('h, 't) session \<Rightarrow> bool" where
  "bound_to p s \<longleftrightarrow> session_inv s \<and> s_expected_peer s = Some p"

lemma bound_owner: "bound_to p s \<Longrightarrow> session_inv s' \<Longrightarrow> same_owner s s' \<Longrightarrow> bound_to p s'"
  by (simp add: bound_to_def same_owner_def)

lemma bound_ready: "bound_to p s \<Longrightarrow> is_ready s \<Longrightarrow> s_peer s = Some p"
  by (simp add: bound_to_def session_inv_def is_ready_def established_def)

lemma keeps_confirm: "keeps_app (confirm env deadline s)"
  unfolding confirm_def
  by (intro keeps_bind keeps_try keeps_send keeps_next keeps_ensure keeps_return allI
      | simp add: split_beta)+

lemma confirmed_open: "confirm env deadline s c = (Inr s', c') \<Longrightarrow> \<not> is_closed s"
  by (cases "is_closed s")
    (auto simp: confirm_def sbind_def session_try_def sfail_def write_confirmation_def checked_at_closed
      split: prod.splits)

lemma confirmed_peer:
  assumes sn: "snow_bounded (re_snow env)" and run: "confirm env deadline s c = (Inr s', c')"
    and s: "session_inv s" "\<not> is_closed s \<Longrightarrow> s_expected_peer s = Some p"
  shows "is_ready s' \<and> s_peer s' = Some p"
proof -
  obtain x s1 c1 where one: "session_try ''confirmation failed'' (write_confirmation (re_snow env) (re_clock env 2)) s c
      = (Inr (x, s1), c1)"
    and rest: "sbind (send_binary x) (\<lambda>_. sbind (next_binary (re_json env) deadline) (\<lambda>(now, reply).
      sbind (session_try ''phone confirmation rejected'' (read_confirmation (re_snow env) now reply) s1) (\<lambda>(_, s2).
      sbind (sensure (is_ready s2) ''secure session did not reach the ready state'') (\<lambda>_. sreturn s2)))) c1 = (Inr s', c')"
    using run unfolding confirm_def by (elim sbind_InrE) auto
  have wrote: "write_confirmation (re_snow env) (re_clock env 2) s = (Inr x, s1)" by (rule try_InrD [OF one])
  then have "\<not> is_closed s" by (cases "is_closed s") (simp_all add: write_confirmation_def checked_at_closed)
  then have s: "bound_to p s" using s by (simp add: bound_to_def)
  have s1: "bound_to p s1"
    using write_confirmation_keeps [OF sn, of s "re_clock env 2"] s bound_owner [OF s] wrote by (simp add: bound_to_def)
  obtain now reply u s2 c2 c3 c4 where two: "session_try ''phone confirmation rejected''
      (read_confirmation (re_snow env) now reply) s1 c2 = (Inr (u, s2), c3)"
    and last: "sensure (is_ready s2) ''secure session did not reach the ready state'' c3 = (Inr (), c4)" "sreturn s2 c4 = (Inr s', c')"
    using rest by (elim sbind_InrE) (auto split: prod.splits elim!: sbind_InrE)
  have "bound_to p s2"
    using read_confirmation_keeps [OF sn, of s1 now reply] s1 bound_owner [OF s1] try_InrD [OF two]
    by (simp add: bound_to_def)
  moreover have "s' = s2" "is_ready s2"
    using last by (auto simp: sensure_def sreturn_def sfail_def split: if_splits)
  ultimately show ?thesis using bound_ready by blast
qed

section \<open>Establishing\<close>

lemma set_setting_InlD: "set_setting k v d = (Inl e, d') \<Longrightarrow> db_tables d' = db_tables d"
  by (auto simp: set_setting_def db_bind_def db_open_def db_update_def db_exec_def
      split: list.splits bool.splits)

lemma pair_secrets_same: "pair_secrets_of b pid d = (r, d') \<Longrightarrow> db_tables d' = db_tables d"
  by (auto simp: pair_secrets_of_def get_setting_def db_bind_def db_open_def db_query_def db_exec_def
      db_return_def db_fail_def split: list.splits bool.splits option.splits sum.splits if_splits)

lemma approve_fails:
  assumes "approve_phone b pid p d = (Inl e, d')"
  shows "held_secrets b pid d' = held_secrets b pid d"
proof -
  obtain r d1 where read: "pair_secrets_of b pid d = (r, d1)" by fastforce
  have "db_tables d' = db_tables d"
    using assms read pair_secrets_same [OF read] set_setting_InlD
    by (cases r) (auto simp: approve_phone_def db_bind_def db_fail_def db_return_def split: option.splits if_splits)
  then show ?thesis by (simp add: held_secrets_def)
qed

lemma approve_held:
  assumes "std_base64_laws b" and "length p = 32" and "held_secrets b pid d = Some sec"
    and "approve_phone b pid p d = (r, d')"
  shows "case r of Inl _ \<Rightarrow> held_secrets b pid d' = Some sec
    | Inr _ \<Rightarrow> held_secrets b pid d' = Some (sec\<lparr>sec_phone := Some p\<rparr>)"
  using assms approve_fails [of b pid p d _ d'] approved_is_held [OF assms(1,2), of pid d _ d']
  by (cases r) auto

text \<open>What \<open>enroll\<close> does, for a session out of a handshake.\<close>

definition enrolled :: "('h, 't) relay_env \<Rightarrow> string \<Rightarrow> pair_secrets \<Rightarrow> bool
    \<Rightarrow> (string + ('h, 't) session) \<times> client \<Rightarrow> bool" where
  "enrolled env pid sec enrolling res \<longleftrightarrow>
     (case fst res of
        Inl _ \<Rightarrow> pin_kept env pid sec enrolling (snd res)
      | Inr s' \<Rightarrow> session_inv s'
          \<and> (is_closed s' \<and> pin_kept env pid sec enrolling (snd res)
             \<or> (\<exists>p. pinned_to env pid sec enrolling p (snd res) \<and> s_expected_peer s' = Some p)))"

lemma enroll_effect:
  fixes env :: "('h, 't) relay_env" and s :: "('h, 't) session"
  assumes laws: "std_base64_laws (re_base64 env)" and leaves: "leaves_pair env pid"
    and sn: "snow_bounded (re_snow env)"
    and s: "session_inv s" "peer32 s" "\<not> s_phone s" "s_phase s \<noteq> Handshake"
    and pin: "s_expected_peer s = (if enrolling then None else sec_phone sec)" "enrolling \<or> sec_phone sec \<noteq> None"
    and held: "holds_for env pid c = Some sec"
  shows "enrolled env pid sec enrolling (enroll env pid s c)"
proof (cases "s_phase s = AwaitingApproval")
  case False
  then have run: "enroll env pid s c = (Inr s, c)" by (simp add: enroll_def sreturn_def)
  show ?thesis
  proof (cases enrolling)
    case True
    then have "s_phase s = Closed"
      using False s pin(1) by (cases "s_phase s") (simp_all add: session_inv_def)
    then show ?thesis using run s(1) held by (simp add: enrolled_def is_closed_def pin_kept_def)
  next
    case False
    then obtain p where "sec_phone sec = Some p" "s_expected_peer s = Some p" using pin by auto
    then show ?thesis using run s(1) held by (auto simp: enrolled_def pinned_to_def same_pin)
  qed
next
  case True
  have est: "established s" "s_expected_peer s = None" using True s(1) by (simp_all add: session_inv_def)
  then have enrolling using pin by (auto split: if_splits)
  obtain peer binding where peer: "s_peer s = Some peer" "s_binding s = Some binding" "length peer = 32"
    using est(1) s(2) by (auto simp: established_def peer32_def)
  obtain r c1 where app: "state_db env 2 (approve_phone (re_base64 env) pid peer) c = (r, c1)" by fastforce
  have c1: "case r of Inl _ \<Rightarrow> holds_for env pid c1 = Some sec
    | Inr _ \<Rightarrow> holds_for env pid c1 = Some (sec\<lparr>sec_phone := Some peer\<rparr>)"
  proof -
    let ?a = "re_others env 2 (cl_app c)"
    obtain d where run: "approve_phone (re_base64 env) pid peer (as_db ?a) = (r, d)"
      and c1: "c1 = c\<lparr>cl_app := ?a\<lparr>as_db := d\<rparr>\<rparr>"
      using app by (auto simp: state_db_def app_db_def split: prod.splits)
    have "held_secrets (re_base64 env) pid (as_db ?a) = Some sec" using leaves held by (simp add: leaves_pair_def)
    from approve_held [OF laws peer(3) this run] show ?thesis by (cases r) (simp_all add: c1)
  qed
  show ?thesis
  proof (cases r)
    case (Inl e)
    then show ?thesis using True peer app c1 by (simp add: enroll_def sbind_def enrolled_def pin_kept_def)
  next
    case (Inr u)
    let ?c2 = "c1\<lparr>cl_app := disarm_enrollment (re_others env 3 (cl_app c1))\<rparr>"
    have pinned: "pinned_to env pid sec enrolling peer ?c2"
      using c1 Inr leaves \<open>enrolling\<close> by (simp add: pinned_to_def leaves_pair_def disarm_enrollment_def)
    obtain ra s' where call: "approve_enrollment (re_clock env 1) peer binding s = (ra, s')" by fastforce
    have inv: "session_inv s'"
      using approve_keeps [OF sn s(1), of "re_clock env 1" peer binding] call by simp
    show ?thesis
    proof (cases ra)
      case (Inl e)
      then show ?thesis using True peer app Inr call pinned_kept [OF pinned]
        by (simp add: enroll_def sbind_def on_state_def session_try_def sfail_def enrolled_def)
    next
      case ok: (Inr v)
      have "s_expected_peer s' = Some peer"
        using checked_at_ok(4) [OF call [unfolded approve_enrollment_def ok]]
        by (auto simp: approve_enrollment_body_def split: if_splits)
      then show ?thesis using True peer app Inr call ok pinned inv
        by (auto simp: enroll_def sbind_def on_state_def session_try_def sreturn_def enrolled_def)
    qed
  qed
qed

lemma started:
  assumes "start_session env ident sec pair enrolling c = (r, c')" and "enrolling \<or> sec_phone sec \<noteq> None"
  shows "c' = c \<and> (case r of Inl _ \<Rightarrow> True | Inr s \<Rightarrow> session_inv s \<and> peer32 s \<and> \<not> s_phone s
    \<and> s_expected_peer s = (if enrolling then None else sec_phone sec))"
proof (cases r)
  case (Inl e)
  then show ?thesis using assms(1)
    by (auto simp: start_session_def sfail_def sreturn_def split: sum.splits)
next
  case (Inr s)
  let ?pin = "if enrolling then None else sec_phone sec"
  have new: "session_new (re_snow env) (re_clock env 0) ident (sec_psk sec) pair False ?pin = Inr s" and "c' = c"
    using assms Inr by (auto simp: start_session_def constructor_defs sfail_def sreturn_def split: sum.splits if_splits)
  have "s_peer s = None" using new by (auto simp: session_new_def split: if_splits option.splits)
  then show ?thesis using session_new_inv [OF new] session_new_sel [OF new] \<open>c' = c\<close> Inr
    by (simp add: peer32_def)
qed


text \<open>An instance: a pinned phone connects.\<close>

definition toy_pid :: string where "toy_pid = replicate 32 CHR ''3''"

definition toy_relay :: "(toy_h, toy_t) relay_env" where
  "toy_relay = \<lparr>re_snow = toy, re_base64 = hex64, re_json = \<lparr>jt_print = (\<lambda>_. []), jt_parse = (\<lambda>_. None)\<rparr>,
     re_others = (\<lambda>_ a. a), re_clock = (\<lambda>k. k),
     re_sha = (\<lambda>_. []), re_fingerprint = []\<rparr>"

definition toy_settings :: db where
  "toy_settings = \<lparr>db_tables = \<lparr>tb_notifications = [], tb_settings = [(pair_setting toy_pid,
       hex_string (replicate 32 5) @ '':'' @ hex_string (replicate 32 9))], tb_devices = [],
       tb_rules = [], tb_rule_columns = []\<rparr>, db_faults = []\<rparr>"

definition toy_client :: client where
  "toy_client = \<lparr>cl_app = app_new toy_settings [],
     cl_in = [(1, Arrives (BinaryM (0 # replicate 32 9))), (2, Arrives (BinaryM (2 # replicate 32 9))),
              (3, Arrives (BinaryM (be_bytes 16 0 @ PHONE_CONFIRM @ replicate 32 7)))],
     cl_sends = [], cl_out = []\<rparr>"

definition toy_secrets :: pair_secrets where
  "toy_secrets = \<lparr>sec_psk = replicate 32 5, sec_phone = Some (replicate 32 9)\<rparr>"

lemma toy_held: "holds_for toy_relay toy_pid toy_client = Some toy_secrets"
proof -
  have "read_secrets hex64 (hex_string (replicate 32 5) @ '':'' @ hex_string (replicate 32 9)) = Inr toy_secrets"
    using read_written(1) [OF hex64_laws, of "replicate 32 5" "replicate 32 9"]
    by (simp add: hex64_def toy_secrets_def)
  moreover have "trim (hex_string (replicate 32 5) @ '':'' @ hex_string (replicate 32 9)) \<noteq> []"
    using trim_joined [OF hex64_laws, of "replicate 32 5" "replicate 32 9"] by (simp add: hex64_def)
  ultimately show ?thesis
    by (simp add: held_secrets_def toy_relay_def toy_client_def app_new_def toy_settings_def store_get_def)
qed

lemma chunks_replicate: "chunks 2 (replicate (2 * n) c) = replicate n [c, c]"
  by (induction n) (simp_all add: chunks_nonempty)

lemma those_replicate: "those (replicate n (Some x)) = Some (replicate n x)"
  by (induction n) simp_all

lemma toy_pair: "pair_id_bytes toy_pid = Some (replicate 16 0x33)"
  using chunks_replicate [of 16 "CHR ''3''"]
  by (simp add: toy_pid_def pair_id_bytes_def lower_hex_def hex_decode_def is_lower_hex_def is_digit_def
      hex_digit_def those_replicate list_all_iff)

abbreviation toy_bridge :: "(toy_h, toy_t) session" where
  "toy_bridge \<equiv> (toy_session False 8 (Some (replicate 32 9)))\<lparr>s_handshake := None, s_transport := Some (0, 0),
     s_phase := SendDesktopConfirmation, s_peer := Some (replicate 32 9), s_binding := Some (replicate 32 7)\<rparr>"

lemma toy_start:
  "start_session toy_relay (toy_id 8) toy_secrets (replicate 16 0x33) False c
     = (Inr (toy_session False 8 (Some (replicate 32 9))), c)"
  by (simp add: start_session_def toy_relay_def toy_secrets_def session_desktop_def session_new_def
      toy_def toy_id_def toy_session_def sreturn_def)

lemma toy_rounds:
  "handshake_rounds toy_relay HANDSHAKE_TIMEOUT (toy_session False 8 (Some (replicate 32 9))) toy_client
     = (Inr toy_bridge, toy_client\<lparr>cl_in := drop 2 (cl_in toy_client),
          cl_out := [BinaryM (1 # replicate 32 8)]\<rparr>)"
  by (simp add: handshake_rounds.simps next_binary_def toy_client_def toy_relay_def toy_simps send_binary_def
      relay_send_def HANDSHAKE_TIMEOUT_def)

lemma toy_confirm:
  "\<exists>s c'. confirm toy_relay HANDSHAKE_TIMEOUT toy_bridge (toy_client\<lparr>cl_in := drop 2 (cl_in toy_client),
     cl_out := [BinaryM (1 # replicate 32 8)]\<rparr>) = (Inr s, c')"
  by (simp add: confirm_def sbind_def session_try_def sreturn_def next_binary_def toy_client_def toy_relay_def
      toy_simps send_binary_def relay_send_def HANDSHAKE_TIMEOUT_def sensure_def)

lemma toy_establish:
  "\<exists>s c'. establish toy_relay (toy_id 8) toy_secrets toy_pid toy_client = (Inr s, c')"
proof -
  let ?c = "toy_client\<lparr>cl_in := drop 2 (cl_in toy_client), cl_out := [BinaryM (1 # replicate 32 8)]\<rparr>"
  obtain s c' where "confirm toy_relay HANDSHAKE_TIMEOUT toy_bridge ?c = (Inr s, c')" using toy_confirm by blast
  moreover have "enroll toy_relay toy_pid toy_bridge ?c = (Inr toy_bridge, ?c)"
    by (simp add: enroll_def sreturn_def)
  moreover have "re_clock toy_relay 0 = 0" "re_others toy_relay 1 (cl_app toy_client) = cl_app toy_client"
    "as_enrollment_armed (cl_app toy_client) = False" "sec_phone toy_secrets \<noteq> None"
    by (simp_all add: toy_relay_def toy_client_def app_new_def toy_secrets_def)
  ultimately show ?thesis
    by (simp add: establish_def toy_pair sbind_def on_state_def enrollment_needed_def toy_start toy_rounds Let_def)
qed


end
