(* ===== verification/Relay_Supervisor.thy ===== *)
theory Relay_Supervisor
  imports Relay_Pinning
begin

text \<open>
  The rest of desktop/src-tauri/src/sync/relay_client.rs: the bridge between a ready session and
  the local server, one attempt at the relay, and the supervisor that decides when to make one.
  Which branch of a select is taken, and when, is given by a list of turns; the list of turns
  ends where the program is still running.
\<close>

section \<open>The local server\<close>

text \<open>Exactly one certificate is accepted there, by the digest of its encoding.\<close>

definition verify_server_cert :: "(bytes \<Rightarrow> bytes) \<Rightarrow> bytes \<Rightarrow> bytes \<Rightarrow> bytes list \<Rightarrow> string + unit" where
  "verify_server_cert sha expected end_entity intermediates =
     (if intermediates \<noteq> [] then Inl ''unexpected certificate chain from the local server''
      else if sha end_entity = expected then Inr ()
      else Inl ''local certificate does not match the pinned fingerprint'')"

text \<open>What answers on the loopback port presents its certificates, or nothing answers in time.\<close>

definition connect_local :: "(bytes \<Rightarrow> bytes) \<Rightarrow> string \<Rightarrow> (bytes \<times> bytes list) option \<Rightarrow> string + unit" where
  "connect_local sha fingerprint presented =
     (case fingerprint_bytes fingerprint of
        None \<Rightarrow> Inl ''certificate fingerprint''
      | Some expected \<Rightarrow>
          (case presented of
             None \<Rightarrow> Inl ''loopback connection timed out''
           | Some (end_entity, intermediates) \<Rightarrow>
               (case verify_server_cert sha expected end_entity intermediates of
                  Inl _ \<Rightarrow> Inl ''connect to the local FocusBridge server''
                | Inr _ \<Rightarrow> Inr ())))"

section \<open>The bridge\<close>

record ('h, 't) bridge =
  br_client :: client
  br_session :: "('h, 't) session"
  br_idle :: instant
  br_local_sends :: "bool list"
  br_local_out :: "ws_message list"

datatype bridge_branch = KeepaliveTick | FromRelay | FromLocal relay_item

type_synonym bridge_turn = "instant \<times> bridge_branch"

definition local_send :: "string \<Rightarrow> ws_message \<Rightarrow> ('h, 't) bridge \<Rightarrow> string option \<times> ('h, 't) bridge" where
  "local_send ctx m b =
     (case br_local_sends b of
        False # rest \<Rightarrow> (Some ctx, b\<lparr>br_local_sends := rest\<rparr>)
      | sends \<Rightarrow> (None, b\<lparr>br_local_sends := tl sends, br_local_out := br_local_out b @ [m]\<rparr>))"

definition bridge_send :: "string \<Rightarrow> ws_message \<Rightarrow> ('h, 't) bridge \<Rightarrow> string option \<times> ('h, 't) bridge" where
  "bridge_send ctx m b =
     (case relay_send ctx m (br_client b) of
        (Inl e, c) \<Rightarrow> (Some e, b\<lparr>br_client := c\<rparr>)
      | (Inr _, c) \<Rightarrow> (None, b\<lparr>br_client := c\<rparr>))"

fun send_frames :: "bytes list \<Rightarrow> ('h, 't) bridge \<Rightarrow> string option \<times> ('h, 't) bridge" where
  "send_frames [] b = (None, b)"
| "send_frames (f # fs) b =
     (case bridge_send ''send relay frame'' (BinaryM f) b of
        (Some e, b') \<Rightarrow> (Some e, b')
      | (None, b') \<Rightarrow> send_frames fs b')"

definition relay_frame :: "('h, 't) relay_env \<Rightarrow> instant \<Rightarrow> bytes \<Rightarrow> ('h, 't) bridge
    \<Rightarrow> string option \<times> ('h, 't) bridge" where
  "relay_frame env now frame b =
     (case open_frame (re_snow env) now frame (br_session b) of
        (Inl e, s) \<Rightarrow> (Some (''relay frame rejected: '' @ error_text e), b\<lparr>br_session := s, br_idle := now\<rparr>)
      | (Inr None, s) \<Rightarrow> (None, b\<lparr>br_session := s, br_idle := now\<rparr>)
      | (Inr (Some plaintext), s) \<Rightarrow>
          (let b1 = b\<lparr>br_session := s, br_idle := now\<rparr>; t = map byte_char plaintext
           in if utf8_valid t then local_send ''forward to the local server'' (TextM t) b1
              else (Some ''phone sent a non-text record'', b1)))"

definition close_detail :: "(nat \<times> string) option \<Rightarrow> string" where
  "close_detail frame = (case frame of None \<Rightarrow> ''no code'' | Some (code, reason) \<Rightarrow> decimal code @ '' '' @ reason)"

definition from_relay :: "('h, 't) relay_env \<Rightarrow> instant \<Rightarrow> ('h, 't) bridge \<Rightarrow> string option \<times> ('h, 't) bridge" where
  "from_relay env now b =
     (case cl_in (br_client b) of
        [] \<Rightarrow> (None, b)
      | (_, item) # rest \<Rightarrow>
          (let b' = b\<lparr>br_client := (br_client b)\<lparr>cl_in := rest\<rparr>\<rparr>
           in case item of
                Broken \<Rightarrow> (Some ''read relay frame'', b')
              | Ended \<Rightarrow> (Some ''relay socket closed'', b')
              | Arrives (BinaryM frame) \<Rightarrow> relay_frame env now frame b'
              | Arrives (TextM t) \<Rightarrow>
                  if control_type (jt_parse (re_json env)) t = Some ''relay.peer_unavailable''
                  then (Some ''the phone disconnected'', b') else (None, b')
              | Arrives (CloseM frame) \<Rightarrow>
                  (Some (''relay closed this socket: '' @ close_detail frame), b')
              | Arrives _ \<Rightarrow> (None, b')))"

definition from_local :: "('h, 't) relay_env \<Rightarrow> instant \<Rightarrow> relay_item \<Rightarrow> ('h, 't) bridge
    \<Rightarrow> string option \<times> ('h, 't) bridge" where
  "from_local env now item b =
     (case item of
        Broken \<Rightarrow> (Some ''read from the local server'', b)
      | Ended \<Rightarrow> (Some ''local server closed the session'', b)
      | Arrives (TextM t) \<Rightarrow>
          (case seal_record (re_snow env) now (map of_char t) (br_session b) of
             (Inl e, s) \<Rightarrow> (Some (''seal failed: '' @ error_text e), b\<lparr>br_session := s\<rparr>)
           | (Inr frames, s) \<Rightarrow> send_frames frames (b\<lparr>br_session := s\<rparr>))
      | Arrives (PingM payload) \<Rightarrow> local_send ''answer the local transport probe'' (PongM payload) b
      | Arrives (CloseM _) \<Rightarrow> (Some ''local server closed the session'', b)
      | Arrives _ \<Rightarrow> (None, b))"

definition bridge_turn :: "('h, 't) relay_env \<Rightarrow> bridge_turn \<Rightarrow> ('h, 't) bridge
    \<Rightarrow> string option \<times> ('h, 't) bridge" where
  "bridge_turn env turn b =
     (let now = fst turn
      in if IDLE_TIMEOUT \<le> now - br_idle b then (Some ''relay session idle timeout'', b)
         else case check_alive now (br_session b) of
                (Inl e, s) \<Rightarrow> (Some (''secure session expired: '' @ error_text e), b\<lparr>br_session := s\<rparr>)
              | (Inr _, s) \<Rightarrow>
                  (let b' = b\<lparr>br_session := s\<rparr>
                   in case snd turn of
                        KeepaliveTick \<Rightarrow> bridge_send ''relay keepalive'' (PingM []) b'
                      | FromRelay \<Rightarrow> from_relay env now b'
                      | FromLocal item \<Rightarrow> from_local env now item b'))"

text \<open>The loop only ends with an error; then the session is closed.\<close>

fun bridge_loop :: "('h, 't) relay_env \<Rightarrow> bridge_turn list \<Rightarrow> ('h, 't) bridge
    \<Rightarrow> string option \<times> ('h, 't) bridge" where
  "bridge_loop env [] b = (None, b)"
| "bridge_loop env (turn # turns) b =
     (case bridge_turn env turn b of
        (Some e, b') \<Rightarrow> (Some e, b'\<lparr>br_session := session_close (br_session b')\<rparr>)
      | (None, b') \<Rightarrow> bridge_loop env turns b')"

text \<open>\<open>run_session\<close>: no result while it still runs.\<close>

record session_plan =
  pl_presented :: "(bytes \<times> bytes list) option"
  pl_start :: instant
  pl_turns :: "bridge_turn list"
  pl_end :: instant

definition run_session :: "('h, 't) relay_env \<Rightarrow> identity \<Rightarrow> pair_secrets \<Rightarrow> string \<Rightarrow> session_plan
    \<Rightarrow> client \<Rightarrow> string option \<times> client" where
  "run_session env ident secrets pair_id plan c =
     (case establish env ident secrets pair_id c of
        (Inl e, c1) \<Rightarrow> (Some e, c1)
      | (Inr s, c1) \<Rightarrow>
          (case connect_local (re_sha env) (re_fingerprint env) (pl_presented plan) of
             Inl e \<Rightarrow> (Some e, c1)
           | Inr _ \<Rightarrow>
               (case bridge_loop env (pl_turns plan)
                       \<lparr>br_client = c1, br_session = s, br_idle = pl_start plan, br_local_sends = [],
                        br_local_out = []\<rparr> of
                  (r, b) \<Rightarrow> (r, br_client b))))"

section \<open>One attempt\<close>

datatype attempt_branch = WaitTick | RejoinPoll | RelayFrame session_plan

record attempt_state =
  at_client :: client
  at_established :: bool
  at_heard :: instant

text \<open>What a turn comes to: the attempt goes on, or is still in a phone session, or returns.\<close>

datatype attempt_end = GoesOn | InSession | Returns "string + bool"

definition note_idle :: "('h, 't) relay_env \<Rightarrow> nat \<Rightarrow> string \<Rightarrow> client \<Rightarrow> client" where
  "note_idle env k reason c = snd (on_state env k (note_relay_idle reason) c)"

text \<open>The reasons the code gives.\<close>

definition refused_reason :: string where
  "refused_reason = ''a saved phone asked to reconnect and automatic reconnection is off; staying at the ''
     @ ''relay without re-dialing. Pick it under previous connections to let it in''"

definition parked_reason :: "bool \<Rightarrow> string" where
  "parked_reason refused =
     (if refused
      then ''waiting: a phone was turned away because automatic reconnection is off, so this PC stays put ''
        @ ''rather than dialing back into the same refusal. Pick the phone under previous connections, or ''
        @ ''press refresh on the pairing screen''
      else ''waiting: automatic reconnection is off, so this PC joins the relay only when you pick a saved ''
        @ ''phone or press refresh on the pairing screen'')"

text \<open>After a session that failed.\<close>

definition session_ended :: "('h, 't) relay_env \<Rightarrow> int \<Rightarrow> string \<Rightarrow> client \<Rightarrow> bool \<times> client" where
  "session_ended env now_ms e c =
     (case on_state env 10 take_known_phone_refusal c of
        (Inr True, c1) \<Rightarrow> (True, note_idle env 11 refused_reason c1)
      | (_, c1) \<Rightarrow>
          (case on_state env 12 (pairing_code_is_live (re_json env) now_ms) c1 of
             (live, c2) \<Rightarrow>
               (False, if should_enroll_after e (live = Inr True)
                       then snd (on_state env 13 (\<lambda>a. ((), arm_enrollment a)) c2) else c2)))"

definition peer_ready :: "('h, 't) relay_env \<Rightarrow> identity \<Rightarrow> string \<Rightarrow> int \<Rightarrow> session_plan \<Rightarrow> attempt_state
    \<Rightarrow> attempt_end \<times> attempt_state" where
  "peer_ready env ident pair_id now_ms plan a =
     (let a1 = a\<lparr>at_established := True\<rparr>
      in case state_db env 4 (pair_secrets_of (re_base64 env) pair_id) (at_client a1) of
           (Inl e, c) \<Rightarrow> (Returns (Inl e), a1\<lparr>at_client := c\<rparr>)
         | (Inr None, c) \<Rightarrow> (Returns (Inr True), a1\<lparr>at_client := c\<rparr>)
         | (Inr (Some secrets), c) \<Rightarrow>
             (case run_session env ident secrets pair_id plan c of
                (None, c1) \<Rightarrow> (InSession, a1\<lparr>at_client := c1\<rparr>)
              | (Some e, c1) \<Rightarrow>
                  (case session_ended env now_ms e c1 of
                     (True, c2) \<Rightarrow> (GoesOn, a1\<lparr>at_client := c2, at_heard := pl_end plan\<rparr>)
                   | (False, c2) \<Rightarrow> (Returns (Inr True), a1\<lparr>at_client := c2\<rparr>))))"

definition attempt_frame :: "('h, 't) relay_env \<Rightarrow> identity \<Rightarrow> string \<Rightarrow> int \<Rightarrow> session_plan \<Rightarrow> attempt_state
    \<Rightarrow> attempt_end \<times> attempt_state" where
  "attempt_frame env ident pair_id now_ms plan a =
     (case cl_in (at_client a) of
        [] \<Rightarrow> (Returns (Inl ''relay socket idle timeout''), a)
      | (time, item) # rest \<Rightarrow>
          if IDLE_TIMEOUT \<le> time - at_heard a then (Returns (Inl ''relay socket idle timeout''), a)
          else let a1 = a\<lparr>at_client := (at_client a)\<lparr>cl_in := rest\<rparr>, at_heard := time\<rparr>
               in case item of
                    Broken \<Rightarrow> (Returns (Inl ''read relay frame''), a1)
                  | Ended \<Rightarrow> (Returns (Inr (at_established a1)), a1)
                  | Arrives (CloseM _) \<Rightarrow> (Returns (Inr (at_established a1)), a1)
                  | Arrives (TextM t) \<Rightarrow>
                      if control_type (jt_parse (re_json env)) t = Some ''relay.peer_ready''
                      then peer_ready env ident pair_id now_ms plan a1 else (GoesOn, a1)
                  | Arrives _ \<Rightarrow> (GoesOn, a1))"

definition attempt_turn :: "('h, 't) relay_env \<Rightarrow> identity \<Rightarrow> string \<Rightarrow> int \<Rightarrow> attempt_branch \<Rightarrow> attempt_state
    \<Rightarrow> attempt_end \<times> attempt_state" where
  "attempt_turn env ident pair_id now_ms branch a =
     (case branch of
        WaitTick \<Rightarrow>
          (case relay_send ''relay keepalive while waiting'' (PingM []) (at_client a) of
             (Inl e, c) \<Rightarrow> (Returns (Inl e), a\<lparr>at_client := c\<rparr>)
           | (Inr _, c) \<Rightarrow> (GoesOn, a\<lparr>at_client := c\<rparr>))
      | RejoinPoll \<Rightarrow>
          (case on_state env 5 relay_rejoin_requested (at_client a) of
             (Inr True, c) \<Rightarrow> (Returns (Inr (at_established a)), a\<lparr>at_client := c\<rparr>)
           | (_, c) \<Rightarrow> (GoesOn, a\<lparr>at_client := c\<rparr>))
      | RelayFrame plan \<Rightarrow> attempt_frame env ident pair_id now_ms plan a)"

fun attempt_loop :: "('h, 't) relay_env \<Rightarrow> identity \<Rightarrow> string \<Rightarrow> (int \<times> attempt_branch) list \<Rightarrow> attempt_state
    \<Rightarrow> (string + bool) option \<times> attempt_state" where
  "attempt_loop env ident pair_id [] a = (None, a)"
| "attempt_loop env ident pair_id ((now_ms, branch) # turns) a =
     (case attempt_turn env ident pair_id now_ms branch a of
        (Returns r, a') \<Rightarrow> (Some r, a')
      | (InSession, a') \<Rightarrow> (None, a')
      | (GoesOn, a') \<Rightarrow> attempt_loop env ident pair_id turns a')"

text \<open>
  \<open>attempt\<close>: the pair, its secrets and this PC's key, then the socket, whose connection is given
  by \<open>dial\<close>; a request for the relay is taken once the socket stands.
\<close>

definition attempt :: "('h, 't) relay_env \<Rightarrow> bytes \<Rightarrow> string + instant \<Rightarrow> (int \<times> attempt_branch) list
    \<Rightarrow> client \<Rightarrow> (string + bool) option \<times> client" where
  "attempt env random dial turns c =
     (case state_db env 6 (current_pair (re_json env)) c of
        (Inl e, c1) \<Rightarrow> (Some (Inl e), c1)
      | (Inr None, c1) \<Rightarrow> (Some (Inr False), note_idle env 7 ''cross-network sync is not set up on this PC'' c1)
      | (Inr (Some pair), c1) \<Rightarrow>
          (case state_db env 8 (pair_secrets_of (re_base64 env) (rp_pair_id pair)) c1 of
             (Inl e, c2) \<Rightarrow> (Some (Inl e), c2)
           | (Inr None, c2) \<Rightarrow> (Some (Inr False), note_idle env 9 ''this relay pair has no local key material; set it up again'' c2)
           | (Inr (Some _), c2) \<Rightarrow>
               (case state_db env 14 (desktop_identity (re_snow env) (re_base64 env) random) c2 of
                  (Inl e, c3) \<Rightarrow> (Some (Inl e), c3)
                | (Inr ident, c3) \<Rightarrow>
                    (case dial of
                       Inl e \<Rightarrow> (Some (Inl e), c3)
                     | Inr now \<Rightarrow>
                         (let c4 = snd (on_state env 15 take_relay_request c3);
                              c5 = snd (on_state env 16 (\<lambda>a. ((), clear_relay_rejoin a)) c4)
                          in case attempt_loop env ident (rp_pair_id pair) turns
                                    \<lparr>at_client = c5, at_established = False, at_heard = now\<rparr> of
                               (r, a) \<Rightarrow> (r, at_client a))))))"

section \<open>The supervisor\<close>

definition wants_to_dial :: "json_text \<Rightarrow> int \<Rightarrow> app_state \<Rightarrow> bool \<times> app_state" where
  "wants_to_dial jt now_ms s =
     (case app_db auto_connect s of
        (Inr False, s1) \<Rightarrow> pairing_code_is_live jt now_ms s1
      | (_, s1) \<Rightarrow> (True, s1))"

definition dials :: "json_text \<Rightarrow> int \<Rightarrow> app_state \<Rightarrow> bool \<times> app_state" where
  "dials jt now_ms s =
     (case wants_to_dial jt now_ms s of
        (wants, s1) \<Rightarrow>
          ((wants \<and> \<not> as_awaiting_request_after_refusal s1) \<or> as_relay_requested s1, s1))"

definition parked :: "app_state \<Rightarrow> app_state" where
  "parked s =
     await_relay_request (snd (note_relay_idle (parked_reason (as_awaiting_request_after_refusal s)) s))"

definition next_backoff :: "bool \<Rightarrow> nat \<Rightarrow> nat \<Rightarrow> nat \<times> nat" where
  "next_backoff was_up elapsed backoff =
     (let b = (if was_up \<or> IDLE_TIMEOUT \<le> elapsed then MIN_BACKOFF else backoff)
      in (b, min (b * 2) MAX_BACKOFF))"

text \<open>One round of \<open>start\<close>: nothing but waiting for a request, or an attempt and a pause.\<close>

definition supervise :: "('h, 't) relay_env \<Rightarrow> int \<Rightarrow> bytes \<Rightarrow> string + instant \<Rightarrow> (int \<times> attempt_branch) list
    \<Rightarrow> nat \<Rightarrow> nat \<Rightarrow> client \<Rightarrow> (nat \<times> nat) option \<times> client" where
  "supervise env now_ms random dial turns elapsed backoff c =
     (case on_state env 17 (dials (re_json env) now_ms) c of
        (Inr True, c1) \<Rightarrow>
          (case attempt env random dial turns c1 of
             (r, c2) \<Rightarrow> (Some (next_backoff (r = Some (Inr True)) elapsed backoff), c2))
      | (_, c1) \<Rightarrow> (None, snd (on_state env 18 (\<lambda>a. ((), parked a)) c1)))"

section \<open>When the PC dials\<close>

text \<open>The pause before the next attempt is between the two bounds, and doubles up to the second.\<close>

lemma backoff_bounds:
  assumes "MIN_BACKOFF \<le> backoff" and "backoff \<le> MAX_BACKOFF" and "next_backoff was_up elapsed backoff = (pause, later)"
  shows "MIN_BACKOFF \<le> pause \<and> pause \<le> later \<and> later \<le> MAX_BACKOFF \<and> later \<le> 2 * pause
    \<and> (was_up \<longrightarrow> pause = MIN_BACKOFF)"
proof -
  have "MIN_BACKOFF \<le> MAX_BACKOFF" by (simp add: MIN_BACKOFF_def MAX_BACKOFF_def)
  then show ?thesis using assms by (auto simp: next_backoff_def Let_def min_def split: if_splits)
qed

text \<open>
  The bridge only ends with an error, and then the session is closed: nothing of it is left for a
  later connection.
\<close>

lemma bridge_closes:
  "bridge_loop env turns b = (Some e, b') \<Longrightarrow> is_closed (br_session b')"
  by (induction env turns b rule: bridge_loop.induct)
    (auto simp: is_closed_def session_close_def split: prod.splits option.splits)

text \<open>
  The reason of a close frame is the relay's to choose, and it is part of the error by which a
  rejected handshake is told from other failures.
\<close>

lemma closing_can_look_rejected:
  "should_enroll_after (''relay closed this socket: '' @ close_detail (Some (4001, ''handshake rejected''))) True"
proof -
  have "sublist ''handshake rejected'' (p @ ''handshake rejected'')" for p
    unfolding sublist_def by (intro exI [of _ p] exI [of _ "[]"]) simp
  then show ?thesis
    unfolding should_enroll_after_def close_detail_def by (metis append.assoc option.case(2) case_prod_conv)
qed

section \<open>The end of an idle bridge\<close>

text \<open>No frame of the phone is on its way.\<close>

definition phone_silent :: "('h, 't) bridge \<Rightarrow> bool" where
  "phone_silent b \<longleftrightarrow> (\<forall>(t, item)\<in>set (cl_in (br_client b)). \<forall>frame. item \<noteq> Arrives (BinaryM frame))"

definition stays_silent :: "('h, 't) bridge \<Rightarrow> ('h, 't) bridge \<Rightarrow> bool" where
  "stays_silent b b' \<longleftrightarrow> br_idle b' = br_idle b \<and> set (cl_in (br_client b')) \<subseteq> set (cl_in (br_client b))"

lemma silentD: "phone_silent b \<Longrightarrow> stays_silent b b' \<Longrightarrow> phone_silent b'"
  unfolding phone_silent_def stays_silent_def by blast

lemma local_send_silent: "local_send ctx m b = (r, b') \<Longrightarrow> stays_silent b b'"
  by (auto simp: local_send_def stays_silent_def split: list.splits bool.splits)

lemma relay_send_in: "cl_in (snd (relay_send ctx m c)) = cl_in c"
  by (simp add: relay_send_def split: list.split bool.split)

lemma bridge_send_silent: "bridge_send ctx m b = (r, b') \<Longrightarrow> stays_silent b b'"
  using relay_send_in [of ctx m "br_client b"]
  by (auto simp: bridge_send_def stays_silent_def split: prod.splits sum.splits)

lemma stays_trans: "stays_silent a b \<Longrightarrow> stays_silent b c \<Longrightarrow> stays_silent a c"
  by (auto simp: stays_silent_def)

lemma send_frames_silent: "send_frames fs b = (r, b') \<Longrightarrow> stays_silent b b'"
proof (induction fs arbitrary: b)
  case (Cons f fs)
  obtain q b1 where one: "bridge_send ''send relay frame'' (BinaryM f) b = (q, b1)" by fastforce
  note first = bridge_send_silent [OF one]
  show ?case
  proof (cases q)
    case None
    then have "send_frames fs b1 = (r, b')" using Cons.prems one by simp
    from stays_trans [OF first Cons.IH [OF this]] show ?thesis .
  next
    case (Some e)
    then show ?thesis using Cons.prems one first by simp
  qed
qed (simp add: stays_silent_def)

lemma from_relay_silent:
  assumes "phone_silent b" and "from_relay env now b = (r, b')"
  shows "stays_silent b b'"
proof (cases "cl_in (br_client b)")
  case Nil
  then show ?thesis using assms(2) by (simp add: from_relay_def stays_silent_def)
next
  case (Cons item rest)
  then show ?thesis
    using assms
    by (auto simp: from_relay_def phone_silent_def stays_silent_def Let_def
        split: prod.splits relay_item.splits ws_message.splits if_splits)
qed

lemma from_local_silent:
  assumes "from_local env now item b = (r, b')"
  shows "stays_silent b b'"
proof -
  have "stays_silent b (b\<lparr>br_session := s\<rparr>)" for s by (simp add: stays_silent_def)
  then show ?thesis
    using assms stays_trans send_frames_silent local_send_silent
    by (fastforce simp: from_local_def stays_silent_def split: relay_item.splits ws_message.splits prod.splits sum.splits)
qed

lemma bridge_turn_silent:
  assumes "phone_silent b" and "bridge_turn env turn b = (r, b')"
  shows "stays_silent b b'"
proof -
  obtain q s where alive: "check_alive (fst turn) (br_session b) = (q, s)" by fastforce
  let ?b = "b\<lparr>br_session := s\<rparr>"
  have same: "stays_silent b ?b" "phone_silent ?b" "stays_silent b b"
    using assms(1) by (simp_all add: stays_silent_def phone_silent_def)
  show ?thesis
  proof (cases "IDLE_TIMEOUT \<le> fst turn - br_idle b \<or> isl q")
    case True
    then show ?thesis using assms(2) alive same
      by (auto simp: bridge_turn_def Let_def split: if_splits sum.splits)
  next
    case False
    then have "(case snd turn of
        KeepaliveTick \<Rightarrow> bridge_send ''relay keepalive'' (PingM []) ?b
      | FromRelay \<Rightarrow> from_relay env (fst turn) ?b
      | FromLocal item \<Rightarrow> from_local env (fst turn) item ?b) = (r, b')"
      using assms(2) alive by (auto simp: bridge_turn_def Let_def split: sum.splits)
    then have "stays_silent ?b b'"
      using bridge_send_silent from_relay_silent [OF same(2)] from_local_silent
      by (auto split: bridge_branch.splits)
    then show ?thesis using same(1) stays_trans by blast
  qed
qed

text \<open>C38: a bridge whose phone is silent ends: whatever the local server sends and whatever else the
  relay delivers, with any turn at least 150 seconds after the last frame of the phone the loop has
  returned with an error, and the session is closed.\<close>

theorem idle_bridge_ends:
  assumes "phone_silent b" and "IDLE_TIMEOUT \<le> now - br_idle b" and "(now, branch) \<in> set turns"
  shows "\<exists>e b'. bridge_loop env turns b = (Some e, b') \<and> is_closed (br_session b')"
proof -
  have "\<exists>e b'. bridge_loop env turns b = (Some e, b')"
    using assms
  proof (induction turns arbitrary: b)
    case (Cons turn turns)
    obtain r b1 where one: "bridge_turn env turn b = (r, b1)" by fastforce
    show ?case
    proof (cases r)
      case (Some e)
      then show ?thesis using one by simp
    next
      case None
      then have "turn \<noteq> (now, branch)" using one Cons.prems(2) by (auto simp: bridge_turn_def Let_def)
      then have rest: "(now, branch) \<in> set turns" using Cons.prems(3) by auto
      have quiet: "stays_silent b b1" using bridge_turn_silent [OF Cons.prems(1) one] .
      then have "IDLE_TIMEOUT \<le> now - br_idle b1" using Cons.prems(2) by (simp add: stays_silent_def)
      then show ?thesis
        using Cons.IH [OF silentD [OF Cons.prems(1) quiet] _ rest] one None by simp
    qed
  qed simp
  then show ?thesis using bridge_closes by blast
qed

theorem idle_bridge_ends_witness:
  "\<exists>e b'. bridge_loop toy_relay [(secs 45, KeepaliveTick), (secs 90, FromLocal (Arrives (PingM []))), (secs 150, FromRelay)]
      \<lparr>br_client = toy_client\<lparr>cl_in := []\<rparr>, br_session = toy_bridge, br_idle = 0, br_local_sends = [],
       br_local_out = []\<rparr> = (Some e, b') \<and> is_closed (br_session b')"
  by (rule idle_bridge_ends [where now = "secs 150" and branch = FromRelay])
    (simp_all add: phone_silent_def IDLE_TIMEOUT_def)

end
