(* ===== verification/Auth_Cmd.thy ===== *)
theory Auth_Cmd
  imports App_State Fallible Relay_Pair
begin

text \<open>
  desktop/src-tauri/src/commands/auth_cmd.rs and notification_cmd.rs: the lock of the local vault,
  and the commands through which the interface reads and clears the inbox. A command is an
  operation on the shared state that may stop with an error. PBKDF2 and Unicode's case tables are
  parameters; random salts and clocks are arguments.
\<close>

type_synonym 'a command = "(app_state, 'a) fallible"

definition app_do :: "(app_state \<Rightarrow> app_state) \<Rightarrow> unit command" where
  "app_do f s = (Inr (), f s)"

text \<open>A setting that is shown: a failed read counts as absent.\<close>

definition shown_setting :: "string \<Rightarrow> app_state \<Rightarrow> string option \<times> app_state" where
  "shown_setting key s =
     (case app_db (get_setting key) s of (Inr v, s') \<Rightarrow> (v, s') | (Inl _, s') \<Rightarrow> (None, s'))"

definition parse_u32 :: "string \<Rightarrow> nat option" where
  "parse_u32 v = Option.bind (parse_u64 v) (\<lambda>n. if n < 2 ^ 32 then Some n else None)"

section \<open>Words\<close>

text \<open>\<open>split_whitespace\<close>: the text up to the next white space, and what follows that.\<close>

fun until_space :: "string \<Rightarrow> string \<times> string" where
  "until_space [] = ([], [])"
| "until_space (c # cs) =
     (case strip_one ws_codes (c # cs) of
        Some rest \<Rightarrow> ([], rest)
      | None \<Rightarrow> (case until_space cs of (w, rest) \<Rightarrow> (c # w, rest)))"

lemma until_space_shorter: "length (snd (until_space s)) \<le> length s"
  by (induction s rule: until_space.induct)
    (auto dest!: strip_one_less split: option.split prod.split)

lemma until_space_less: "s \<noteq> [] \<Longrightarrow> length (snd (until_space s)) < length s"
proof (cases s)
  case (Cons c cs)
  then show ?thesis
    using until_space_shorter [of cs]
    by (auto dest!: strip_one_less split: option.split prod.split)
qed simp

function split_whitespace :: "string \<Rightarrow> string list" where
  "split_whitespace s =
     (if s = [] then []
      else let w = fst (until_space s); ws = split_whitespace (snd (until_space s))
           in if w = [] then ws else w # ws)"
  by pat_completeness auto
termination
  by (relation "measure length") (auto simp: until_space_less)

declare split_whitespace.simps [simp del]

section \<open>Passwords\<close>

definition ITERATIONS :: nat where "ITERATIONS = 210000"

record vault_env =
  ve_unicode :: unicode
  ve_pbkdf2 :: "bytes \<Rightarrow> bytes \<Rightarrow> nat \<Rightarrow> bytes"

definition hash_password :: "vault_env \<Rightarrow> string \<Rightarrow> bytes \<Rightarrow> bytes" where
  "hash_password v password salt = ve_pbkdf2 v (string_bytes password) salt ITERATIONS"

definition hashes_equal :: "string \<Rightarrow> string \<Rightarrow> bool" where
  "hashes_equal a b = (if length a \<noteq> length b then False else byte_diff a b = 0)"

definition validate_vault_password :: "string \<Rightarrow> string + unit" where
  "validate_vault_password password =
     (if list_all is_digit password
      then (if length password < 4 then Inl ''PIN must be at least 4 digits'' else Inr ())
      else if length password < 8 then Inl ''password must be at least 8 characters'' else Inr ())"

definition normalize_security_answer :: "vault_env \<Rightarrow> string \<Rightarrow> string" where
  "normalize_security_answer v answer =
     u_lowercase (ve_unicode v) (join CHR '' '' (split_whitespace answer))"

definition validate_recovery :: "vault_env \<Rightarrow> string \<Rightarrow> string \<Rightarrow> string + unit" where
  "validate_recovery v question answer =
     (if length (trim question) < 8 then Inl ''security question must be at least 8 characters''
      else if length (normalize_security_answer v answer) < 2
      then Inl ''security answer must be at least 2 characters'' else Inr ())"

definition of_result :: "string + 'a \<Rightarrow> 'a command" where
  "of_result r = (case r of Inl e \<Rightarrow> sfail e | Inr x \<Rightarrow> sreturn x)"

definition PASSWORD_SALT :: string where "PASSWORD_SALT = ''auth_password_salt''"
definition PASSWORD_HASH :: string where "PASSWORD_HASH = ''auth_password_hash''"
definition RECOVERY_QUESTION :: string where "RECOVERY_QUESTION = ''auth_recovery_question''"
definition RECOVERY_SALT :: string where "RECOVERY_SALT = ''auth_recovery_answer_salt''"
definition RECOVERY_HASH :: string where "RECOVERY_HASH = ''auth_recovery_answer_hash''"

definition set_password :: "vault_env \<Rightarrow> string \<Rightarrow> bytes \<Rightarrow> unit command" where
  "set_password v password salt =
     sbind (app_db (set_setting PASSWORD_SALT (hex_string salt))) (\<lambda>_.
     app_db (set_setting PASSWORD_HASH (hex_string (hash_password v password salt))))"

definition set_recovery :: "vault_env \<Rightarrow> string \<Rightarrow> string \<Rightarrow> bytes \<Rightarrow> unit command" where
  "set_recovery v question answer salt =
     (let hash = hash_password v (normalize_security_answer v answer) salt
      in sbind (app_db (set_setting RECOVERY_QUESTION (trim question))) (\<lambda>_.
         sbind (app_db (set_setting RECOVERY_SALT (hex_string salt))) (\<lambda>_.
         app_db (set_setting RECOVERY_HASH (hex_string hash)))))"

text \<open>Both secrets are checked in the same way: the stored salt, the hash, and the comparison.\<close>

definition or_missing :: "string \<Rightarrow> 'a option command \<Rightarrow> 'a command" where
  "or_missing e m = sbind m (\<lambda>x. case x of None \<Rightarrow> sfail e | Some y \<Rightarrow> sreturn y)"

definition verify_recovery_answer :: "vault_env \<Rightarrow> string \<Rightarrow> unit command" where
  "verify_recovery_answer v answer =
     sbind (or_missing ''security recovery is not configured'' (app_db (get_setting RECOVERY_SALT))) (\<lambda>salt.
     sbind (or_missing ''security recovery is not configured'' (app_db (get_setting RECOVERY_HASH))) (\<lambda>expected.
     case hex_decode salt of
       None \<Rightarrow> sfail ''stored recovery salt is invalid''
     | Some bytes \<Rightarrow>
         sensure (hashes_equal
             (hex_string (hash_password v (normalize_security_answer v answer) bytes)) expected)
           ''security answer is incorrect''))"

section \<open>The commands of the vault\<close>

record auth_state =
  au_configured :: bool
  au_relay_email :: "string option"
  au_lock_timeout_minutes :: nat
  au_recovery_configured :: bool
  au_recovery_question :: "string option"

definition auth_status :: "auth_state command" where
  "auth_status s0 =
     (let (hash, s1) = shown_setting PASSWORD_HASH s0;
          (email, s2) = shown_setting ''relay_auth_email'' s1;
          (minutes, s3) = shown_setting ''lock_timeout_minutes'' s2;
          (recovery, s4) = shown_setting RECOVERY_HASH s3;
          (question, s5) = shown_setting RECOVERY_QUESTION s4
      in (Inr \<lparr>au_configured = hash \<noteq> None, au_relay_email = email,
               au_lock_timeout_minutes = (case Option.bind minutes parse_u32 of None \<Rightarrow> 0 | Some n \<Rightarrow> n),
               au_recovery_configured = recovery \<noteq> None, au_recovery_question = question\<rparr>, s5))"

definition auth_register_cmd :: "vault_env \<Rightarrow> string \<Rightarrow> bytes \<Rightarrow> unit command" where
  "auth_register_cmd v password salt =
     sbind (of_result (validate_vault_password password)) (\<lambda>_.
     sbind (set_password v password salt) (\<lambda>_. app_do unlock_vault))"

definition auth_register_with_recovery ::
  "vault_env \<Rightarrow> string \<Rightarrow> string \<Rightarrow> string \<Rightarrow> bytes \<Rightarrow> bytes \<Rightarrow> unit command" where
  "auth_register_with_recovery v password question answer salt salt2 =
     sbind (of_result (validate_vault_password password)) (\<lambda>_.
     sbind (of_result (validate_recovery v question answer)) (\<lambda>_.
     sbind (set_password v password salt) (\<lambda>_.
     sbind (set_recovery v question answer salt2) (\<lambda>_. app_do unlock_vault))))"

definition auth_recovery_question :: "string option command" where
  "auth_recovery_question = app_db (get_setting RECOVERY_QUESTION)"

definition auth_reset_password_with_recovery :: "vault_env \<Rightarrow> string \<Rightarrow> string \<Rightarrow> bytes \<Rightarrow> unit command" where
  "auth_reset_password_with_recovery v answer new_password salt =
     sbind (of_result (validate_vault_password new_password)) (\<lambda>_.
     sbind (verify_recovery_answer v answer) (\<lambda>_. set_password v new_password salt))"

definition auth_update_recovery :: "vault_env \<Rightarrow> string \<Rightarrow> string \<Rightarrow> bytes \<Rightarrow> unit command" where
  "auth_update_recovery v question answer salt =
     sbind (of_result (validate_recovery v question answer)) (\<lambda>_. set_recovery v question answer salt)"

definition auth_login_cmd :: "vault_env \<Rightarrow> string \<Rightarrow> unit command" where
  "auth_login_cmd v password =
     sbind (or_missing ''password is not configured'' (app_db (get_setting PASSWORD_SALT))) (\<lambda>salt.
     sbind (or_missing ''password is not configured'' (app_db (get_setting PASSWORD_HASH))) (\<lambda>expected.
     case hex_decode salt of
       None \<Rightarrow> sfail ''stored salt is invalid''
     | Some bytes \<Rightarrow>
         sbind (sensure (hashes_equal (hex_string (hash_password v password bytes)) expected)
             ''invalid password'') (\<lambda>_. app_do unlock_vault)))"

definition auth_lock :: "unit command" where
  "auth_lock = app_do lock_vault"

section \<open>The commands of the inbox\<close>

definition inbox_is_readable :: "unit command" where
  "inbox_is_readable s =
     (if as_vault_unlocked s then (Inr (), s) else (Inl ''unlock FocusBridge to read notifications'', s))"

definition list_notifications_cmd :: "int option \<Rightarrow> notification_row list command" where
  "list_notifications_cmd limit =
     sbind inbox_is_readable (\<lambda>_.
     app_db (list_notifications (case limit of None \<Rightarrow> 100 | Some n \<Rightarrow> n)))"

definition mark_important :: "string \<Rightarrow> unit command" where
  "mark_important i = app_db (mark_status i ''IMPORTANT'')"

definition mark_ignored :: "string \<Rightarrow> unit command" where
  "mark_ignored i = app_db (mark_status i ''IGNORED'')"

definition delete_notification_cmd :: "string \<Rightarrow> nat command" where
  "delete_notification_cmd i = app_db (delete_notification i)"

definition clear_notifications_older_than_cmd :: "int \<Rightarrow> nat command" where
  "clear_notifications_older_than_cmd cutoff_ms = app_db (clear_notifications_older_than cutoff_ms)"

definition clear_notifications_between_cmd :: "int \<Rightarrow> int \<Rightarrow> nat command" where
  "clear_notifications_between_cmd start_ms end_ms = app_db (clear_notifications_between start_ms end_ms)"

definition clear_all_notifications_cmd :: "nat command" where
  "clear_all_notifications_cmd = app_db clear_all_notifications"

end
