(* ===== verification/Vault.thy ===== *)
theory Vault
  imports Auth_Cmd
begin

text \<open>
  The lock of the vault over runs of commands: the inbox is only read after the password, and a
  password opens the vault exactly when it has the stored hash.
\<close>

section \<open>Hashes\<close>

lemma hashes_equal_iff [simp]: "hashes_equal a b \<longleftrightarrow> a = b"
  by (auto simp: hashes_equal_def byte_diff_zero)

lemma hex_decode_hex_string [simp]: "hex_decode (hex_string bs) = Some bs"
proof -
  have two: "(of_nat (unat b div 16 * 16 + unat b mod 16) :: u8) = b" for b :: u8
    by (simp only: div_mult_mod_eq) simp
  have "(case those (map hex_digit (hex_of_byte b)) of Some [x, y] \<Rightarrow> Some (of_nat (x * 16 + y) :: u8) | _ \<Rightarrow> None)
      = Some b" for b
    using nibbles [of b] two [of b]
    by (simp add: hex_of_byte_def hex_digit_hex_char del: of_nat_add of_nat_mult)
  then show ?thesis
    by (induction bs) (simp_all add: hex_decode_def chunks_hex_string comp_def)
qed

lemma hex_string_inj [simp]: "hex_string a = hex_string b \<longleftrightarrow> a = b"
  by (metis hex_decode_hex_string option.inject)

section \<open>What a command does to the lock\<close>

lemma app_db_vault: "app_db m s = (r, s') \<Longrightarrow> as_vault_unlocked s' = as_vault_unlocked s"
  by (auto simp: app_db_def split: prod.splits)

text \<open>An operation that never touches the lock.\<close>

definition leaves_lock :: "'a command \<Rightarrow> bool" where
  "leaves_lock m \<longleftrightarrow> (\<forall>s r s'. m s = (r, s') \<longrightarrow> as_vault_unlocked s' = as_vault_unlocked s)"

named_theorems lock_rules

lemma leaves_lockD: "leaves_lock m \<Longrightarrow> m s = (r, s') \<Longrightarrow> as_vault_unlocked s' = as_vault_unlocked s"
  by (simp add: leaves_lock_def)

lemma leaves_db [lock_rules]: "leaves_lock (app_db m)"
  by (auto simp: leaves_lock_def dest: app_db_vault)

lemma leaves_fail [lock_rules]: "leaves_lock (sfail e)"
  by (simp add: leaves_lock_def sfail_def)

lemma leaves_return [lock_rules]: "leaves_lock (sreturn x)"
  by (simp add: leaves_lock_def sreturn_def)

lemma leaves_bind [lock_rules]:
  assumes "leaves_lock m" and "\<And>x. leaves_lock (f x)"
  shows "leaves_lock (sbind m f)"
  unfolding leaves_lock_def sbind_def
  using leaves_lockD [OF assms(1)] leaves_lockD [OF assms(2)]
  by (fastforce split: prod.splits sum.splits)

lemma leaves_ensure [lock_rules]: "leaves_lock (sensure b e)"
  by (simp add: sensure_def lock_rules)

lemma leaves_result [lock_rules]: "leaves_lock (of_result r)"
  by (cases r) (simp_all add: of_result_def lock_rules)

lemma leaves_missing [lock_rules]: "leaves_lock m \<Longrightarrow> leaves_lock (or_missing e m)"
  unfolding or_missing_def by (rule leaves_bind) (auto split: option.split intro: lock_rules)

lemma leaves_set_password [lock_rules]: "leaves_lock (set_password v p salt)"
  unfolding set_password_def by (intro lock_rules)

lemma leaves_set_recovery [lock_rules]: "leaves_lock (set_recovery v q a salt)"
  unfolding set_recovery_def Let_def by (intro lock_rules)

lemma leaves_verify [lock_rules]: "leaves_lock (verify_recovery_answer v a)"
  unfolding verify_recovery_answer_def by (intro lock_rules) (auto split: option.split intro: lock_rules)

lemma leaves_readable [lock_rules]: "leaves_lock inbox_is_readable"
  by (simp add: leaves_lock_def inbox_is_readable_def)

lemma shown_setting_vault: "as_vault_unlocked (snd (shown_setting key s)) = as_vault_unlocked s"
  by (auto simp: shown_setting_def dest: app_db_vault split: prod.splits sum.splits)

lemma leaves_status [lock_rules]: "leaves_lock auth_status"
  unfolding leaves_lock_def auth_status_def Let_def
  by (auto simp: case_prod_beta shown_setting_vault)

text \<open>Unlocking is the last thing a command does, and only if all before it succeeded.\<close>

lemma bind_unlock:
  assumes "leaves_lock m" and "sbind m (\<lambda>_. app_do unlock_vault) s = (r, s')"
  shows "case r of Inl _ \<Rightarrow> as_vault_unlocked s' = as_vault_unlocked s
    | Inr _ \<Rightarrow> as_vault_unlocked s' \<and> (\<exists>x s1. m s = (Inr x, s1) \<and> s' = unlock_vault s1)"
  using assms leaves_lockD [OF assms(1)]
  by (auto simp: sbind_def app_do_def unlock_vault_def split: prod.splits sum.splits)

section \<open>Runs of commands\<close>

text \<open>\<open>Elsewhere f\<close> is a step of the rest of the program.\<close>

datatype vault_command =
  Status
| Register string bytes
| Register_With_Recovery string string string bytes bytes
| Recovery_Question
| Reset_Password string string bytes
| Update_Recovery string string bytes
| Login string
| Lock
| List_Inbox "int option"
| Mark_Important string
| Mark_Ignored string
| Delete_One string
| Clear_Older int
| Clear_Between int int
| Clear_All
| Elsewhere "app_state \<Rightarrow> app_state"

datatype vault_reply = Done | Refused string | Rows "notification_row list"

definition replies :: "('a \<Rightarrow> vault_reply) \<Rightarrow> 'a command \<Rightarrow> app_state \<Rightarrow> vault_reply \<times> app_state" where
  "replies f m s = (case m s of (Inl e, s') \<Rightarrow> (Refused e, s') | (Inr x, s') \<Rightarrow> (f x, s'))"

fun vault_step :: "vault_env \<Rightarrow> vault_command \<Rightarrow> app_state \<Rightarrow> vault_reply \<times> app_state" where
  "vault_step v Status = replies (\<lambda>_. Done) auth_status"
| "vault_step v (Register p salt) = replies (\<lambda>_. Done) (auth_register_cmd v p salt)"
| "vault_step v (Register_With_Recovery p q a salt salt2) =
     replies (\<lambda>_. Done) (auth_register_with_recovery v p q a salt salt2)"
| "vault_step v Recovery_Question = replies (\<lambda>_. Done) auth_recovery_question"
| "vault_step v (Reset_Password a p salt) =
     replies (\<lambda>_. Done) (auth_reset_password_with_recovery v a p salt)"
| "vault_step v (Update_Recovery q a salt) = replies (\<lambda>_. Done) (auth_update_recovery v q a salt)"
| "vault_step v (Login p) = replies (\<lambda>_. Done) (auth_login_cmd v p)"
| "vault_step v Lock = replies (\<lambda>_. Done) auth_lock"
| "vault_step v (List_Inbox limit) = replies Rows (list_notifications_cmd limit)"
| "vault_step v (Mark_Important i) = replies (\<lambda>_. Done) (mark_important i)"
| "vault_step v (Mark_Ignored i) = replies (\<lambda>_. Done) (mark_ignored i)"
| "vault_step v (Delete_One i) = replies (\<lambda>_. Done) (delete_notification_cmd i)"
| "vault_step v (Clear_Older t) = replies (\<lambda>_. Done) (clear_notifications_older_than_cmd t)"
| "vault_step v (Clear_Between a b) = replies (\<lambda>_. Done) (clear_notifications_between_cmd a b)"
| "vault_step v Clear_All = replies (\<lambda>_. Done) clear_all_notifications_cmd"
| "vault_step v (Elsewhere f) = (\<lambda>s. (Done, f s))"

definition vault_run :: "vault_env \<Rightarrow> vault_command list \<Rightarrow> app_state \<Rightarrow> app_state" where
  "vault_run v cmds s = fold (\<lambda>c s. snd (vault_step v c s)) cmds s"

text \<open>The commands that open the vault, and the credential each takes.\<close>

definition opens_vault :: "vault_env \<Rightarrow> vault_command \<Rightarrow> app_state \<Rightarrow> bool" where
  "opens_vault v c s \<longleftrightarrow>
     (case c of
        Register _ _ \<Rightarrow> fst (vault_step v c s) = Done
      | Register_With_Recovery _ _ _ _ _ \<Rightarrow> fst (vault_step v c s) = Done
      | Login p \<Rightarrow>
          (\<exists>salt bytes hash. store_get (tb_settings (db_tables (as_db s))) PASSWORD_SALT = Some salt
             \<and> hex_decode salt = Some bytes
             \<and> store_get (tb_settings (db_tables (as_db s))) PASSWORD_HASH = Some hash
             \<and> hex_string (hash_password v p bytes) = hash)
      | _ \<Rightarrow> False)"

section \<open>Opening\<close>

lemma app_db_tables_InrD:
  "app_db (get_setting key) s = (Inr x, s1)
     \<Longrightarrow> x = store_get (tb_settings (db_tables (as_db s))) key \<and> db_tables (as_db s1) = db_tables (as_db s)"
  by (auto simp: app_db_def dest: get_setting_InrD split: prod.splits)

lemma missing_InrD:
  assumes "or_missing e (app_db (get_setting key)) s = (Inr x, s1)"
  shows "store_get (tb_settings (db_tables (as_db s))) key = Some x \<and> db_tables (as_db s1) = db_tables (as_db s)"
proof -
  obtain y s2 where y: "app_db (get_setting key) s = (Inr y, s2)"
    and x: "(case y of None \<Rightarrow> sfail e | Some z \<Rightarrow> sreturn z) s2 = (Inr x, s1)"
    using assms unfolding or_missing_def by (rule sbind_InrE)
  show ?thesis using app_db_tables_InrD [OF y] x by (auto simp: sfail_def sreturn_def split: option.splits)
qed

lemma login_outcome:
  assumes "auth_login_cmd v p s = (r, s')"
  shows "case r of Inl _ \<Rightarrow> as_vault_unlocked s' = as_vault_unlocked s
    | Inr _ \<Rightarrow> as_vault_unlocked s' \<and> opens_vault v (Login p) s"
proof -
  let ?m1 = "or_missing ''password is not configured'' (app_db (get_setting PASSWORD_SALT))"
  let ?m2 = "or_missing ''password is not configured'' (app_db (get_setting PASSWORD_HASH))"
  obtain r1 s1 where one: "?m1 s = (r1, s1)" by fastforce
  have l1: "as_vault_unlocked s1 = as_vault_unlocked s"
    using leaves_lockD [of ?m1] one by (simp add: lock_rules)
  show ?thesis
  proof (cases r1)
    case (Inl e)
    then show ?thesis using assms one l1 by (auto simp: auth_login_cmd_def sbind_def)
  next
    case salt: (Inr salt)
    obtain r2 s2 where two: "?m2 s1 = (r2, s2)" by fastforce
    have l2: "as_vault_unlocked s2 = as_vault_unlocked s1"
      using leaves_lockD [of ?m2] two by (simp add: lock_rules)
    show ?thesis
    proof (cases r2)
      case (Inl e)
      then show ?thesis using assms one salt two l1 l2 by (auto simp: auth_login_cmd_def sbind_def)
    next
      case (Inr hash)
      then show ?thesis
        using assms one salt two l1 l2 missing_InrD [OF one [unfolded salt]] missing_InrD [OF two [unfolded Inr]]
        by (auto simp: auth_login_cmd_def sbind_def sensure_def sfail_def sreturn_def app_do_def unlock_vault_def
            opens_vault_def split: option.splits if_splits)
    qed
  qed
qed

text \<open>What each command does to the lock.\<close>

lemma replies_case:
  "replies f m s = (a, s') \<Longrightarrow> \<exists>r. m s = (r, s') \<and> a = (case r of Inl e \<Rightarrow> Refused e | Inr x \<Rightarrow> f x)"
  by (auto simp: replies_def split: prod.splits sum.splits)

lemma replies_leave:
  assumes "leaves_lock m" and "replies f m s = (a, s')"
  shows "as_vault_unlocked s' = as_vault_unlocked s"
  using replies_case [OF assms(2)] leaves_lockD [OF assms(1)] by blast

lemma leaves_commands:
  "leaves_lock auth_recovery_question" "leaves_lock (auth_reset_password_with_recovery v an p salt)"
  "leaves_lock (auth_update_recovery v q an salt)" "leaves_lock (list_notifications_cmd limit)"
  "leaves_lock (mark_important i)" "leaves_lock (mark_ignored i)" "leaves_lock (delete_notification_cmd i)"
  "leaves_lock (clear_notifications_older_than_cmd t)" "leaves_lock (clear_notifications_between_cmd t t')"
  "leaves_lock clear_all_notifications_cmd"
  unfolding auth_recovery_question_def auth_reset_password_with_recovery_def auth_update_recovery_def
    list_notifications_cmd_def mark_important_def mark_ignored_def delete_notification_cmd_def
    clear_notifications_older_than_cmd_def clear_notifications_between_cmd_def clear_all_notifications_cmd_def
  by (intro lock_rules)+

lemmas leave_steps = leaves_status [THEN replies_leave] leaves_commands [THEN replies_leave]

lemma register_outcome:
  assumes "replies (\<lambda>_. Done) m s = (a, s')" and "m = sbind n (\<lambda>_. app_do unlock_vault)" and "leaves_lock n"
  shows "as_vault_unlocked s' = as_vault_unlocked s \<or> a = Done"
  using replies_case [OF assms(1)] bind_unlock [OF assms(3)] assms(2)
  by (fastforce split: sum.splits)

lemma register_split:
  "auth_register_cmd v p salt = sbind (sbind (of_result (validate_vault_password p)) (\<lambda>_. set_password v p salt))
     (\<lambda>_. app_do unlock_vault)"
  "auth_register_with_recovery v p q a salt salt2 =
     sbind (sbind (of_result (validate_vault_password p)) (\<lambda>_.
       sbind (of_result (validate_recovery v q a)) (\<lambda>_.
       sbind (set_password v p salt) (\<lambda>_. set_recovery v q a salt2)))) (\<lambda>_. app_do unlock_vault)"
  by (auto simp: auth_register_cmd_def auth_register_with_recovery_def sbind_def fun_eq_iff split: prod.split sum.split)

lemma step_opens:
  assumes "vault_step v c s = (a, s')" and "\<not> as_vault_unlocked s" and "as_vault_unlocked s'"
    and "\<And>f. c = Elsewhere f \<Longrightarrow> as_vault_unlocked (f s) = as_vault_unlocked s"
  shows "opens_vault v c s"
proof (cases c)
  case (Register p salt)
  have "a = Done"
    by (rule disjE [OF register_outcome [OF assms(1) [unfolded Register vault_step.simps] register_split(1)]])
      (use assms in \<open>auto intro: lock_rules\<close>)
  then show ?thesis using Register assms(1) by (simp add: opens_vault_def)
next
  case (Register_With_Recovery p q an salt salt2)
  have "a = Done"
    by (rule disjE [OF register_outcome [OF assms(1) [unfolded Register_With_Recovery vault_step.simps]
          register_split(2)]])
      (use assms in \<open>auto intro!: lock_rules\<close>)
  then show ?thesis using Register_With_Recovery assms(1) by (simp add: opens_vault_def)
next
  case (Login p)
  then obtain r where "auth_login_cmd v p s = (r, s')" using assms(1) replies_case by fastforce
  then show ?thesis using login_outcome assms(2,3) Login by (fastforce split: sum.splits)
next
  case Lock
  then show ?thesis using assms by (auto simp: replies_def auth_lock_def app_do_def lock_vault_def)
next
  case (Elsewhere f)
  then show ?thesis using assms by auto
qed (use assms in \<open>auto dest: leave_steps\<close>)

lemma run_snoc: "vault_run v (cmds @ [c]) s = snd (vault_step v c (vault_run v cmds s))"
  by (simp add: vault_run_def)

lemma run_opened:
  assumes "\<not> as_vault_unlocked s" and "as_vault_unlocked (vault_run v cmds s)"
    and "\<And>f s. Elsewhere f \<in> set cmds \<Longrightarrow> as_vault_unlocked (f s) = as_vault_unlocked s"
  shows "\<exists>pre c post. cmds = pre @ c # post \<and> opens_vault v c (vault_run v pre s) \<and> Lock \<notin> set post"
  using assms(2,3)
proof (induction cmds rule: rev_induct)
  case Nil
  then show ?case using assms(1) by (simp add: vault_run_def)
next
  case (snoc c cmds)
  obtain a where step: "vault_step v c (vault_run v cmds s) = (a, vault_run v (cmds @ [c]) s)"
    by (metis run_snoc prod.collapse)
  show ?case
  proof (cases "as_vault_unlocked (vault_run v cmds s)")
    case True
    have "c \<noteq> Lock"
      using snoc.prems(1) by (auto simp: run_snoc replies_def auth_lock_def app_do_def lock_vault_def)
    moreover obtain pre d post where "cmds = pre @ d # post" "opens_vault v d (vault_run v pre s)" "Lock \<notin> set post"
      using snoc.IH [OF True] snoc.prems(2) by auto
    ultimately show ?thesis by (intro exI [of _ pre] exI [of _ d] exI [of _ "post @ [c]"]) auto
  next
    case False
    then have "opens_vault v c (vault_run v cmds s)"
      using step_opens [OF step False snoc.prems(1)] snoc.prems(2) by simp
    then show ?thesis by (intro exI [of _ cmds] exI [of _ c] exI [of _ "[]"]) simp
  qed
qed

section \<open>A password that was set\<close>

lemma get_now:
  "db_faults (as_db s) = [] \<Longrightarrow>
     app_db (get_setting key) s = (Inr (store_get (tb_settings (db_tables (as_db s))) key), s)"
  by (simp add: app_db_def get_setting_def db_bind_def db_open_def db_query_def db_exec_def)

lemma login_decides:
  assumes "db_faults (as_db s) = []" and "store_get (tb_settings (db_tables (as_db s))) PASSWORD_SALT = Some (hex_string salt)"
    and "store_get (tb_settings (db_tables (as_db s))) PASSWORD_HASH = Some h"
  shows "auth_login_cmd v q s = (if hex_string (hash_password v q salt) = h then (Inr (), unlock_vault s)
     else (Inl ''invalid password'', s))"
  using assms
  by (simp add: auth_login_cmd_def or_missing_def sbind_def get_now sreturn_def sensure_def sfail_def app_do_def)

lemma app_set_InrD:
  "app_db (set_setting key x) s = (Inr u, s1) \<Longrightarrow>
     tb_settings (db_tables (as_db s1)) = store_put key x (tb_settings (db_tables (as_db s)))"
  by (auto simp: app_db_def dest: set_setting_InrD split: prod.splits)

lemma set_password_stores:
  assumes "set_password v p salt s = (Inr u, s1)"
  shows "store_get (tb_settings (db_tables (as_db s1))) PASSWORD_SALT = Some (hex_string salt)
    \<and> store_get (tb_settings (db_tables (as_db s1))) PASSWORD_HASH = Some (hex_string (hash_password v p salt))"
proof -
  obtain x s0 where "app_db (set_setting PASSWORD_SALT (hex_string salt)) s = (Inr x, s0)"
    "app_db (set_setting PASSWORD_HASH (hex_string (hash_password v p salt))) s0 = (Inr u, s1)"
    using assms unfolding set_password_def by (rule sbind_InrE)
  then show ?thesis
    using app_set_InrD by (simp add: kv.get_put PASSWORD_SALT_def PASSWORD_HASH_def)
qed

lemma register_stores:
  assumes "auth_register_cmd v p salt s = (Inr u, s1)"
  shows "\<exists>s0. set_password v p salt s = (Inr (), s0) \<and> s1 = unlock_vault s0"
  using assms
  by (auto simp: auth_register_cmd_def sbind_def of_result_def sfail_def sreturn_def app_do_def
      split: sum.splits prod.splits)

lemma reset_stores:
  assumes "auth_reset_password_with_recovery v an p salt s = (Inr u, s1)"
  shows "\<exists>s0. set_password v p salt s0 = (Inr (), s1)"
  using assms
  by (auto simp: auth_reset_password_with_recovery_def sbind_def of_result_def sfail_def sreturn_def
      split: sum.splits prod.splits)

text \<open>
  The two settings of a password are written one after the other. When the second write fails,
  the new salt stands beside the old hash, and neither password opens the vault.
\<close>

lemma half_changed_password_locks_out:
  assumes "db_faults (as_db s) = [True, True, False]"
    and "store_get (tb_settings (db_tables (as_db s))) PASSWORD_HASH = Some h"
    and "hex_string (hash_password v q salt) \<noteq> h"
  shows "fst (set_password v p salt s) = Inl ''open''"
    and "fst (auth_login_cmd v q (snd (set_password v p salt s))) = Inl ''invalid password''"
proof -
  define s1 where "s1 = s\<lparr>as_db := \<lparr>db_tables = (db_tables (as_db s))\<lparr>tb_settings :=
    store_put PASSWORD_SALT (hex_string salt) (tb_settings (db_tables (as_db s)))\<rparr>, db_faults = []\<rparr>\<rparr>"
  have run: "set_password v p salt s = (Inl ''open'', s1)"
    using assms(1)
    by (simp add: set_password_def sbind_def app_db_def set_setting_def db_bind_def db_open_def db_update_def
        db_exec_def s1_def)
  then show "fst (set_password v p salt s) = Inl ''open''" by simp
  have "auth_login_cmd v q s1 = (Inl ''invalid password'', s1)"
    using login_decides [of s1 salt h v q] assms(2,3)
    by (simp add: s1_def kv.get_put PASSWORD_SALT_def PASSWORD_HASH_def)
  then show "fst (auth_login_cmd v q (snd (set_password v p salt s))) = Inl ''invalid password''" by (simp add: run)
qed

text \<open>Registering again asks for nothing: it replaces the password of a locked vault and opens it.\<close>

lemma registering_again_opens:
  assumes "db_faults (as_db s) = []" and "validate_vault_password p = Inr ()"
  shows "\<exists>s1. auth_register_cmd v p salt s = (Inr (), s1) \<and> as_vault_unlocked s1"
  using assms
  by (simp add: auth_register_cmd_def of_result_def sbind_def sreturn_def set_password_def app_db_def set_setting_def
      db_bind_def db_open_def db_update_def db_exec_def app_do_def unlock_vault_def)

section \<open>Properties\<close>

text \<open>C34: the interface is handed the rows of the inbox only after the vault was opened: some earlier
  command registered a password or logged in with the one whose hash is stored, and the vault was
  not locked again since, whatever other commands ran and whatever the rest of the program did.\<close>

theorem inbox_needs_the_password:
  assumes "\<not> as_vault_unlocked s"
    and "\<And>f s. Elsewhere f \<in> set cmds \<Longrightarrow> as_vault_unlocked (f s) = as_vault_unlocked s"
    and "fst (vault_step v (List_Inbox limit) (vault_run v cmds s)) = Rows rows"
  shows "\<exists>pre c post. cmds = pre @ c # post \<and> opens_vault v c (vault_run v pre s) \<and> Lock \<notin> set post"
proof -
  have "as_vault_unlocked (vault_run v cmds s)"
    using assms(3)
    by (cases "as_vault_unlocked (vault_run v cmds s)")
      (auto simp: replies_def list_notifications_cmd_def sbind_def inbox_is_readable_def)
  then show ?thesis using run_opened [OF assms(1)] assms(2) by blast
qed

text \<open>After a password was registered or reset, a login under an undisturbed database succeeds
  for exactly the passwords with its hash; it then opens the vault, and otherwise changes nothing.\<close>

theorem password_opens_exactly:
  assumes "auth_register_cmd v p salt s = (Inr (), s1) \<or> auth_reset_password_with_recovery v an p salt s = (Inr (), s1)"
    and "store_get (tb_settings (db_tables (as_db s2))) PASSWORD_SALT
           = store_get (tb_settings (db_tables (as_db s1))) PASSWORD_SALT"
    and "store_get (tb_settings (db_tables (as_db s2))) PASSWORD_HASH
           = store_get (tb_settings (db_tables (as_db s1))) PASSWORD_HASH"
    and "db_faults (as_db s2) = []"
  shows "auth_login_cmd v q s2 = (if hash_password v q salt = hash_password v p salt
    then (Inr (), unlock_vault s2) else (Inl ''invalid password'', s2))"
proof -
  obtain s0 s3 where set: "set_password v p salt s0 = (Inr (), s3)" and same: "as_db s1 = as_db s3"
  proof (rule disjE [OF assms(1)])
    assume "auth_register_cmd v p salt s = (Inr (), s1)"
    then show thesis using register_stores that by (fastforce simp: unlock_vault_def)
  next
    assume "auth_reset_password_with_recovery v an p salt s = (Inr (), s1)"
    then show thesis using reset_stores that by blast
  qed
  show ?thesis
    using login_decides [OF assms(4), of salt "hex_string (hash_password v p salt)"] assms(2,3)
      set_password_stores [OF set] same by simp
qed

section \<open>Witnesses\<close>

definition toy_vault :: vault_env where
  "toy_vault = \<lparr>ve_unicode = \<lparr>u_lowercase = to_ascii_lowercase, u_has_numeric = (\<lambda>_. False)\<rparr>,
     ve_pbkdf2 = (\<lambda>p salt n. salt @ p)\<rparr>"

definition empty_state :: app_state where
  "empty_state = app_new \<lparr>db_tables = \<lparr>tb_notifications = [], tb_settings = [], tb_devices = [],
     tb_rules = [], tb_rule_columns = []\<rparr>, db_faults = []\<rparr> []"

lemma pin_ok: "validate_vault_password ''4711'' = Inr ()"
  by (simp add: validate_vault_password_def is_digit_def)

lemma toy_register:
  "\<exists>s. auth_register_cmd v ''4711'' [9] empty_state = (Inr (), s) \<and> as_vault_unlocked s \<and> db_faults (as_db s) = []"
  using pin_ok
  by (simp add: auth_register_cmd_def of_result_def sbind_def sreturn_def set_password_def app_db_def set_setting_def
      db_bind_def db_open_def db_update_def db_exec_def app_do_def unlock_vault_def empty_state_def app_new_def)

theorem inbox_needs_the_password_witness:
  "\<exists>pre c post. [Register ''4711'' [9], Clear_All] = pre @ c # post
     \<and> opens_vault toy_vault c (vault_run toy_vault pre empty_state) \<and> Lock \<notin> set post"
proof -
  obtain s1 where reg: "auth_register_cmd toy_vault ''4711'' [9] empty_state = (Inr (), s1)" "as_vault_unlocked s1"
    "db_faults (as_db s1) = []" using toy_register by blast
  have "\<exists>rows. fst (vault_step toy_vault (List_Inbox None)
      (vault_run toy_vault [Register ''4711'' [9], Clear_All] empty_state)) = Rows rows"
    using reg
    by (simp add: vault_run_def replies_def clear_all_notifications_cmd_def clear_all_notifications_def
        delete_notifications_def list_notifications_cmd_def sbind_def inbox_is_readable_def app_db_def
        list_notifications_def db_bind_def db_open_def db_query_def db_exec_def)
  then obtain rows where rows: "fst (vault_step toy_vault (List_Inbox None)
      (vault_run toy_vault [Register ''4711'' [9], Clear_All] empty_state)) = Rows rows" by blast
  have locked: "\<not> as_vault_unlocked empty_state" by (simp add: empty_state_def app_new_def)
  show ?thesis using inbox_needs_the_password [OF locked _ rows] by simp
qed

theorem password_opens_exactly_witness:
  "\<exists>s. fst (auth_login_cmd toy_vault ''4711'' s) = Inr () \<and> fst (auth_login_cmd toy_vault ''4712'' s) \<noteq> Inr ()"
proof -
  obtain s1 where reg: "auth_register_cmd toy_vault ''4711'' [9] empty_state = (Inr (), s1)"
    "db_faults (as_db s1) = []" using toy_register by blast
  have "auth_login_cmd toy_vault q s1 = (if hash_password toy_vault q [9] = hash_password toy_vault ''4711'' [9]
    then (Inr (), unlock_vault s1) else (Inl ''invalid password'', s1))" for q
    using password_opens_exactly [OF disjI1 [OF reg(1)] refl refl reg(2)] .
  then show ?thesis
    by (intro exI [of _ s1]) (simp add: hash_password_def toy_vault_def string_bytes_def)
qed

end
