(* ===== verification/Settings_Cmd.thy ===== *)
theory Settings_Cmd
  imports Auth_Cmd
begin

text \<open>
  desktop/src-tauri/src/commands/settings_cmd.rs and app_rules_cmd.rs: the settings the interface
  shows and changes, and the rules of the apps. A changed rule is sent to the phone, when there is
  one; failing to send it is no error.
\<close>

record settings_snapshot =
  ss_study_mode_enabled :: bool
  ss_two_fa_mode_enabled :: bool
  ss_blocked_apps :: "string list"
  ss_priority_apps :: "string list"
  ss_favorite_contacts :: "string list"
  ss_priority_keywords :: "string list"
  ss_blocked_keywords :: "string list"
  ss_sync_mode :: string
  ss_lock_timeout_minutes :: nat
  ss_desktop_notifications_enabled :: bool

definition DESKTOP_NOTIFICATIONS_KEY :: string where
  "DESKTOP_NOTIFICATIONS_KEY = ''desktop_notifications_enabled''"

text \<open>A list is stored as one text, its items separated by commas or line breaks.\<close>

definition shown_list :: "string \<Rightarrow> app_state \<Rightarrow> string list \<times> app_state" where
  "shown_list key s =
     (case shown_setting key s of (v, s') \<Rightarrow> (csv_values (case v of None \<Rightarrow> [] | Some x \<Rightarrow> x), s'))"

definition desktop_notifications_enabled :: "app_state \<Rightarrow> bool \<times> app_state" where
  "desktop_notifications_enabled s =
     (case shown_setting DESKTOP_NOTIFICATIONS_KEY s of (v, s') \<Rightarrow> (v \<noteq> Some ''false'', s'))"

definition get_settings :: "app_state \<Rightarrow> settings_snapshot \<times> app_state" where
  "get_settings s0 =
     (let (study, s1) = shown_setting ''study_mode_enabled'' s0;
          (priority, s2) = shown_list ''priority_keywords'' s1;
          (blocked, s3) = shown_list ''blocked_keywords'' s2;
          (favorite, s4) = shown_list ''favorite_contacts'' s3;
          (minutes, s5) = shown_setting ''lock_timeout_minutes'' s4;
          (popups, s6) = desktop_notifications_enabled s5
      in (\<lparr>ss_study_mode_enabled = (study = Some ''true''), ss_two_fa_mode_enabled = False,
           ss_blocked_apps = [], ss_priority_apps = [], ss_favorite_contacts = favorite,
           ss_priority_keywords = priority, ss_blocked_keywords = blocked, ss_sync_mode = ''LOCAL'',
           ss_lock_timeout_minutes = (case Option.bind minutes parse_u32 of None \<Rightarrow> 0 | Some n \<Rightarrow> n),
           ss_desktop_notifications_enabled = popups\<rparr>, s6))"

definition bool_text :: "bool \<Rightarrow> string" where
  "bool_text b = (if b then ''true'' else ''false'')"

definition set_desktop_notifications :: "bool \<Rightarrow> unit command" where
  "set_desktop_notifications on =
     sbind (app_db (set_setting DESKTOP_NOTIFICATIONS_KEY (bool_text on))) (\<lambda>_.
     app_do (set_desktop_notifications_enabled on))"

definition set_study_mode :: "bool \<Rightarrow> unit command" where
  "set_study_mode on = app_db (set_setting ''study_mode_enabled'' (bool_text on))"

text \<open>The rules as they now are, to the phone.\<close>

definition push_rules :: "(json \<Rightarrow> string) \<Rightarrow> unit command" where
  "push_rules print_json s =
     (case app_db (rules_update_envelope print_json) s of
        (Inr message, s') \<Rightarrow> (Inr (), snd (send_to_phone message s'))
      | (Inl _, s') \<Rightarrow> (Inr (), s'))"

definition rule_keys :: "string list" where
  "rule_keys = [''priority_keywords'', ''blocked_keywords'', ''favorite_contacts'']"

definition set_rule_text :: "(json \<Rightarrow> string) \<Rightarrow> string \<Rightarrow> string list \<Rightarrow> unit command" where
  "set_rule_text print_json key values =
     (if key \<notin> set rule_keys then sfail (''unsupported rule text key: '' @ key)
      else sbind (app_db (set_setting key (join CHR '','' (filter (\<lambda>v. v \<noteq> []) (map trim values))))) (\<lambda>_.
           push_rules print_json))"

definition set_lock_timeout_minutes :: "nat \<Rightarrow> unit command" where
  "set_lock_timeout_minutes minutes =
     (if 12 * 30 * 24 * 60 < minutes then sfail ''lock timeout cannot exceed 12 months''
      else app_db (set_setting ''lock_timeout_minutes'' (decimal minutes)))"

section \<open>The rules of the apps\<close>

definition list_app_rules_cmd :: "app_rule_row list command" where
  "list_app_rules_cmd = app_db list_app_rules"

definition set_app_rule ::
  "(json \<Rightarrow> string) \<Rightarrow> int \<Rightarrow> int \<Rightarrow> string \<Rightarrow> string \<Rightarrow> bool \<Rightarrow> app_rule_row command" where
  "set_app_rule print_json now now2 package_name flag enabled =
     sbind (app_db (set_app_rule_flag now now2 package_name flag enabled)) (\<lambda>updated.
     sbind (push_rules print_json) (\<lambda>_. sreturn updated))"

end
