(* ===== verification/Rule_Text.thy ===== *)
theory Rule_Text
  imports Settings_Cmd Vault
begin

text \<open>
  The lists of words and contacts, stored as one comma separated text, and the lock timeout: what
  is set is what the settings show.
\<close>

definition settings_list :: "string \<Rightarrow> settings_snapshot \<Rightarrow> string list" where
  "settings_list key snap =
     (if key = ''priority_keywords'' then ss_priority_keywords snap
      else if key = ''blocked_keywords'' then ss_blocked_keywords snap else ss_favorite_contacts snap)"

lemma shown_now:
  "db_faults (as_db s) = [] \<Longrightarrow> shown_setting key s = (store_get (tb_settings (db_tables (as_db s))) key, s)"
  by (simp add: shown_setting_def app_db_def get_setting_def db_bind_def db_open_def db_query_def db_exec_def)

lemma settings_now:
  assumes "db_faults (as_db s) = []" and "key \<in> set rule_keys"
  shows "settings_list key (fst (get_settings s))
    = csv_values (case store_get (tb_settings (db_tables (as_db s))) key of None \<Rightarrow> [] | Some v \<Rightarrow> v)"
  using assms
  by (auto simp: settings_list_def get_settings_def shown_list_def desktop_notifications_enabled_def shown_now
      rule_keys_def Let_def)

lemma join_plain: "\<forall>v\<in>set vs. c \<notin> set v \<Longrightarrow> c \<noteq> d \<Longrightarrow> c \<notin> set (join d vs)"
  by (induction d vs rule: join.induct) auto

lemma csv_join:
  assumes "\<forall>v\<in>set vs. v \<noteq> [] \<and> trim v = v \<and> CHR '','' \<notin> set v \<and> CHR 0x0A \<notin> set v"
  shows "csv_values (join CHR '','' vs) = vs"
proof (cases "vs = []")
  case True
  then show ?thesis by (simp add: csv_values_def)
next
  case False
  have "CHR 0x0A \<notin> set (join CHR '','' vs)" by (rule join_plain) (use assms in simp_all)
  then have "map (\<lambda>c. if c = CHR 0x0A then CHR '','' else c) (join CHR '','' vs) = join CHR '','' vs"
    by (intro map_idI) auto
  moreover have "split_on CHR '','' (join CHR '','' vs) = vs" using assms False by (intro split_on_join) auto
  moreover have "filter (\<lambda>s. s \<noteq> []) (map trim vs) = vs" using assms by (induction vs) auto
  ultimately show ?thesis by (simp add: csv_values_def)
qed

lemma push_tables: "push_rules print_json s = (r, s') \<Longrightarrow> db_tables (as_db s') = db_tables (as_db s)"
proof -
  assume run: "push_rules print_json s = (r, s')"
  obtain q s1 where one: "app_db (rules_update_envelope print_json) s = (q, s1)" by fastforce
  have "db_rel (\<lambda>t t'. t' = t) (rules_update_envelope print_json)"
    unfolding rules_update_envelope_def csv_setting_def get_setting_def
    by (intro same.bind same_list_app_rules same.opened same.query same.return)
  then have "db_tables (as_db s1) = db_tables (as_db s)"
    using one by (auto simp: app_db_def dest: db_relD split: prod.splits)
  then show ?thesis
    using run one
    by (auto simp: push_rules_def send_to_phone_def channel_send_def split: sum.splits option.splits)
qed

lemma set_rule_text_stores:
  assumes "set_rule_text print_json key values s = (Inr (), s1)"
  shows "key \<in> set rule_keys \<and> store_get (tb_settings (db_tables (as_db s1))) key
    = Some (join CHR '','' (filter (\<lambda>v. v \<noteq> []) (map trim values)))"
proof -
  have key: "key \<in> set rule_keys" using assms by (auto simp: set_rule_text_def sfail_def split: if_splits)
  then obtain u s0 where one: "app_db (set_setting key (join CHR '','' (filter (\<lambda>v. v \<noteq> []) (map trim values)))) s = (Inr u, s0)"
    and two: "push_rules print_json s0 = (Inr (), s1)"
    using assms by (auto simp: set_rule_text_def elim!: sbind_InrE)
  from one have "store_get (tb_settings (db_tables (as_db s0))) key
      = Some (join CHR '','' (filter (\<lambda>v. v \<noteq> []) (map trim values)))"
    by (auto simp: app_db_def kv.get_put dest!: set_setting_InrD split: prod.splits)
  then show ?thesis using key push_tables [OF two] by simp
qed

text \<open>A comma inside an item is not protected: the item comes back as two.\<close>

lemma strip_one_char:
  "[c] \<in> set cs \<Longrightarrow> \<forall>d\<in>set cs. d \<noteq> [] \<and> hd d = c \<longrightarrow> d = [c] \<Longrightarrow> strip_one cs (c # s) = Some s"
proof (induction cs)
  case (Cons d cs)
  show ?case
  proof (cases "d \<noteq> [] \<and> take (length d) (c # s) = d")
    case True
    then have "hd d = c" by (metis hd_take length_greater_0_conv list.sel(1))
    then have "d = [c]" using True Cons.prems(2) by simp
    then show ?thesis by simp
  next
    case False
    then have "strip_one (d # cs) (c # s) = strip_one cs (c # s)" by (simp only: strip_one.simps if_False)
    moreover have "d \<noteq> [c]" using False by auto
    then have "[c] \<in> set cs" using Cons.prems(1) by simp
    then have "strip_one cs (c # s) = Some s" by (rule Cons.IH) (use Cons.prems(2) in simp)
    ultimately show ?thesis by simp
  qed
qed simp

lemma trim_space: "trim (CHR '' '' # s) = trim s"
proof -
  have space: "CHR '' '' = char_of (32 :: nat)" by (simp add: char_of_def bit_0)
  have of_char_of_space: "(of_char (CHR '' '') :: nat) = 32" by simp
  have "[CHR '' ''] \<in> set ws_codes" by (simp add: ws_codes_def space)
  moreover have "list_all (\<lambda>d. (of_char (hd d) :: nat) = 32 \<longrightarrow> d = [char_of (32 :: nat)]) ws_codes"
    by (simp add: ws_codes_def upt_rec)
  then have "\<forall>d\<in>set ws_codes. d \<noteq> [] \<and> hd d = CHR '' '' \<longrightarrow> d = [CHR '' '']"
    using space unfolding list_all_iff by (metis of_char_of_space)
  ultimately have "strip_one ws_codes (CHR '' '' # s) = Some s" by (rule strip_one_char)
  then show ?thesis by (simp add: trim_def trim_start_def strip_all.simps [of _ "CHR '' '' # s"])
qed

lemma comma_splits: "csv_values (join CHR '','' [''Doe, Jane'']) = [''Doe'', ''Jane'']"
proof -
  have "trim ''Doe'' = ''Doe''" "trim ''Jane'' = ''Jane''"
    by (rule visible_trim, simp add: visible_def)+
  then show ?thesis by (simp add: csv_values_def trim_space)
qed

section \<open>Property\<close>

text \<open>C40: the words and contacts a user sets are those the settings show later: every item trimmed,
  empty ones dropped, in order, whenever no item contains a comma or a line break.\<close>

theorem rule_text_comes_back:
  assumes "set_rule_text print_json key values s = (Inr (), s1)"
    and "\<And>v. v \<in> set values \<Longrightarrow> CHR '','' \<notin> set v \<and> CHR 0x0A \<notin> set v"
    and "db_faults (as_db s2) = []"
    and "store_get (tb_settings (db_tables (as_db s2))) key = store_get (tb_settings (db_tables (as_db s1))) key"
  shows "settings_list key (fst (get_settings s2)) = filter (\<lambda>v. v \<noteq> []) (map trim values)"
proof -
  note stored = set_rule_text_stores [OF assms(1)]
  have "\<forall>v\<in>set (filter (\<lambda>v. v \<noteq> []) (map trim values)).
      v \<noteq> [] \<and> trim v = v \<and> CHR '','' \<notin> set v \<and> CHR 0x0A \<notin> set v"
    using assms(2) set_trim by (auto dest: subsetD)
  then have "csv_values (join CHR '','' (filter (\<lambda>v. v \<noteq> []) (map trim values)))
      = filter (\<lambda>v. v \<noteq> []) (map trim values)" by (rule csv_join)
  then show ?thesis
    by (simp add: settings_now [OF assms(3) conjunct1 [OF stored]] assms(4) conjunct2 [OF stored])
qed

lemma one_contact:
  "\<exists>s1. set_rule_text (\<lambda>_. []) ''favorite_contacts'' ['' Mia'', []] empty_state = (Inr (), s1)
     \<and> db_faults (as_db s1) = []"
  by (simp add: set_rule_text_def rule_keys_def sbind_def app_db_def set_setting_def db_bind_def db_open_def
      db_update_def db_exec_def push_rules_def rules_update_envelope_def list_app_rules_def db_query_def
      collect_rows_def csv_setting_def get_setting_def db_return_def empty_state_def app_new_def
      send_to_phone_def)

theorem rule_text_comes_back_witness:
  "\<exists>s. settings_list ''favorite_contacts'' (fst (get_settings s)) = [''Mia'']"
proof -
  obtain s1 where run: "set_rule_text (\<lambda>_. []) ''favorite_contacts'' ['' Mia'', []] empty_state = (Inr (), s1)"
    "db_faults (as_db s1) = []" using one_contact by blast
  have "trim '' Mia'' = ''Mia''" by (simp add: trim_space visible_trim visible_def)
  moreover have "CHR '','' \<notin> set v \<and> CHR 0x0A \<notin> set v" if "v \<in> set ['' Mia'', []]" for v
    using that by auto
  note rule_text_comes_back [OF run(1) this run(2) refl]
  ultimately show ?thesis by auto
qed

end
