(* ===== verification/Relay_Cmd.thy ===== *)
theory Relay_Cmd
  imports Auth_Cmd Relay_Identity
begin

text \<open>
  desktop/src-tauri/src/commands/relay_cmd.rs: the commands for sync across networks. The relay's
  answers to a request to create or revoke a pair are functions in the environment, as are
  base64, JSON text and Noise; random bytes are arguments.
\<close>

record ('h, 't) relay_cmd_env =
  rc_json :: json_text
  rc_std :: std_base64
  rc_snow :: "('h, 't) snow"
  rc_post :: "string \<Rightarrow> string \<Rightarrow> (nat \<times> string) option"
  rc_delete :: "string \<Rightarrow> string \<Rightarrow> nat option"

record relay_status =
  rs_configured :: bool
  rs_relay_url :: string
  rs_pair_id :: "string option"
  rs_expires_at :: "int option"
  rs_phone_enrolled :: bool
  rs_auto_connect :: bool
  rs_paused :: bool

definition phone_enrolled :: "('h, 't) relay_cmd_env \<Rightarrow> relay_pair option \<Rightarrow> bool command" where
  "phone_enrolled env pair =
     (case pair of
        None \<Rightarrow> sreturn False
      | Some p \<Rightarrow> sbind (app_db (pair_secrets_of (rc_std env) (rp_pair_id p))) (\<lambda>secrets.
          sreturn (case secrets of None \<Rightarrow> False | Some s \<Rightarrow> sec_phone s \<noteq> None)))"

definition status :: "('h, 't) relay_cmd_env \<Rightarrow> relay_status command" where
  "status env =
     sbind (app_db relay_url) (\<lambda>url.
     sbind (app_db (current_pair (rc_json env))) (\<lambda>pair.
     sbind (phone_enrolled env pair) (\<lambda>enrolled.
     sbind (app_db auto_connect) (\<lambda>auto s.
       (Inr \<lparr>rs_configured = pair \<noteq> None, rs_relay_url = url, rs_pair_id = map_option rp_pair_id pair,
             rs_expires_at = map_option rp_expires_at pair, rs_phone_enrolled = enrolled,
             rs_auto_connect = auto, rs_paused = as_paused s\<rparr>, s)))))"

definition relay_set_auto_connect :: "('h, 't) relay_cmd_env \<Rightarrow> bool \<Rightarrow> relay_status command" where
  "relay_set_auto_connect env enabled =
     sbind (app_db (set_auto_connect enabled)) (\<lambda>_.
     sbind (if enabled then app_do (\<lambda>s. request_relay_rejoin (request_relay_connection s)) else sreturn ())
       (\<lambda>_. status env))"

definition relay_set_url :: "('h, 't) relay_cmd_env \<Rightarrow> string \<Rightarrow> relay_status command" where
  "relay_set_url env url =
     sbind (app_db (set_relay_url url)) (\<lambda>_.
     sbind (app_db clear_pair) (\<lambda>_. status env))"

definition relay_enable :: "('h, 't) relay_cmd_env \<Rightarrow> bytes \<Rightarrow> bytes \<Rightarrow> string \<Rightarrow> relay_status command" where
  "relay_enable env psk random id_token =
     sbind (app_db (provision (rc_json env) (rc_post env) id_token)) (\<lambda>pair.
     sbind (app_db (create_pair_secrets (rc_std env) (rp_pair_id pair) psk)) (\<lambda>_.
     sbind (app_db (desktop_identity (rc_snow env) (rc_std env) random)) (\<lambda>_. status env)))"

definition relay_disable :: "('h, 't) relay_cmd_env \<Rightarrow> string \<Rightarrow> relay_status command" where
  "relay_disable env id_token =
     sbind (app_db (current_pair (rc_json env))) (\<lambda>pair.
     sbind (case pair of
              None \<Rightarrow> sreturn ()
            | Some p \<Rightarrow>
                sbind (app_db (revoke (rc_delete env) id_token (rp_pair_id p))) (\<lambda>_.
                app_db (forget_pair (rp_pair_id p)))) (\<lambda>_.
     sbind (app_db clear_pair) (\<lambda>_. status env)))"

section \<open>What the tables hold\<close>

definition held_pair :: "json_text \<Rightarrow> db \<Rightarrow> relay_pair option" where
  "held_pair jt d =
     (case store_get (tb_settings (db_tables d)) PAIR_SETTING of
        None \<Rightarrow> None
      | Some s \<Rightarrow>
          if trim s = [] then None
          else case jt_parse jt s of
                 None \<Rightarrow> None
               | Some v \<Rightarrow> (let p = relay_pair_of_json v in if pair_is_valid p then Some p else None))"

lemma app_db_InrD: "app_db m s = (Inr x, s') \<Longrightarrow> \<exists>d. m (as_db s) = (Inr x, d) \<and> s' = s\<lparr>as_db := d\<rparr>"
  by (auto simp: app_db_def split: prod.splits)

lemma current_pair_reads:
  assumes "current_pair jt d = (Inr p, d')"
  shows "p = held_pair jt d \<and> db_tables d' = db_tables d"
proof -
  from db_bind_InrD [OF assms [unfolded current_pair_def]] obtain v d1 where
    get: "get_setting PAIR_SETTING d = (Inr v, d1)" and p: "p = (case v of None \<Rightarrow> None
      | Some s \<Rightarrow> if trim s = [] then None
          else case jt_parse jt s of None \<Rightarrow> None
             | Some x \<Rightarrow> (let p = relay_pair_of_json x in if pair_is_valid p then Some p else None))" "d' = d1"
    by (auto simp: db_return_def)
  then show ?thesis using get_setting_InrD [OF get] by (simp add: held_pair_def)
qed

lemma app_current_pair:
  "app_db (current_pair jt) s = (Inr p, s')
     \<Longrightarrow> p = held_pair jt (as_db s) \<and> db_tables (as_db s') = db_tables (as_db s)"
  by (auto dest!: app_db_InrD current_pair_reads)

lemma app_setting_read:
  "app_db relay_url s = (Inr url, s') \<Longrightarrow> db_tables (as_db s') = db_tables (as_db s)"
  "app_db auto_connect s = (Inr a, s') \<Longrightarrow> db_tables (as_db s') = db_tables (as_db s)"
  by (auto simp: relay_url_def auto_connect_def db_return_def dest!: app_db_InrD db_bind_InrD get_setting_InrD)

lemma app_secrets:
  "app_db (pair_secrets_of b i) s = (Inr x, s') \<Longrightarrow> db_tables (as_db s') = db_tables (as_db s)"
  by (auto dest!: app_db_InrD pair_secrets_read)

text \<open>What the status says is what the tables hold.\<close>

lemma status_reads:
  assumes "status env s = (Inr st, s')"
  shows "rs_configured st \<longleftrightarrow> held_pair (rc_json env) (as_db s) \<noteq> None"
    and "db_tables (as_db s') = db_tables (as_db s)"
proof -
  obtain url s1 where url: "app_db relay_url s = (Inr url, s1)"
    and r1: "sbind (app_db (current_pair (rc_json env))) (\<lambda>pair. sbind (phone_enrolled env pair) (\<lambda>enrolled.
       sbind (app_db auto_connect) (\<lambda>auto s.
       (Inr \<lparr>rs_configured = pair \<noteq> None, rs_relay_url = url, rs_pair_id = map_option rp_pair_id pair,
             rs_expires_at = map_option rp_expires_at pair, rs_phone_enrolled = enrolled,
             rs_auto_connect = auto, rs_paused = as_paused s\<rparr>, s)))) s1 = (Inr st, s')"
    using assms unfolding status_def by (rule sbind_InrE)
  obtain pair s2 where pair: "app_db (current_pair (rc_json env)) s1 = (Inr pair, s2)"
    and r2: "sbind (phone_enrolled env pair) (\<lambda>enrolled. sbind (app_db auto_connect) (\<lambda>auto s.
       (Inr \<lparr>rs_configured = pair \<noteq> None, rs_relay_url = url, rs_pair_id = map_option rp_pair_id pair,
             rs_expires_at = map_option rp_expires_at pair, rs_phone_enrolled = enrolled,
             rs_auto_connect = auto, rs_paused = as_paused s\<rparr>, s))) s2 = (Inr st, s')"
    using r1 by (rule sbind_InrE)
  obtain enrolled s3 where en: "phone_enrolled env pair s2 = (Inr enrolled, s3)"
    and r3: "sbind (app_db auto_connect) (\<lambda>auto s.
       (Inr \<lparr>rs_configured = pair \<noteq> None, rs_relay_url = url, rs_pair_id = map_option rp_pair_id pair,
             rs_expires_at = map_option rp_expires_at pair, rs_phone_enrolled = enrolled,
             rs_auto_connect = auto, rs_paused = as_paused s\<rparr>, s)) s3 = (Inr st, s')"
    using r2 by (rule sbind_InrE)
  obtain auto where au: "app_db auto_connect s3 = (Inr auto, s')" and st: "rs_configured st = (pair \<noteq> None)"
    using sbind_InrE [OF r3] by (metis (mono_tags, lifting) Pair_inject relay_status.select_convs(1) sum.inject(2))
  have t1: "db_tables (as_db s1) = db_tables (as_db s)" using url app_setting_read(1) by blast
  have t2: "pair = held_pair (rc_json env) (as_db s1)" "db_tables (as_db s2) = db_tables (as_db s1)"
    using app_current_pair [OF pair] by simp_all
  have "db_tables (as_db s3) = db_tables (as_db s2)"
    using en app_secrets by (cases pair) (auto simp: phone_enrolled_def sreturn_def elim!: sbind_InrE)
  moreover have "db_tables (as_db s') = db_tables (as_db s3)" using au app_setting_read(2) by blast
  ultimately show "db_tables (as_db s') = db_tables (as_db s)" using t1 t2 by simp
  show "rs_configured st \<longleftrightarrow> held_pair (rc_json env) (as_db s) \<noteq> None"
    using st t1 t2 by (simp add: held_pair_def)
qed

section \<open>Turning the relay off\<close>

text \<open>The relay was asked to revoke the pair, and said it did or does not know it.\<close>

definition revoked :: "('h, 't) relay_cmd_env \<Rightarrow> string \<Rightarrow> string \<Rightarrow> bool" where
  "revoked env id_token pair_id \<longleftrightarrow>
     (\<exists>url code. rc_delete env (url @ ''/v1/pairs/'' @ pair_id) (trim id_token) = Some code
        \<and> (is_success code \<or> code = 404))"

lemma same_get: "db_rel (\<lambda>t t'. t' = t) (get_setting key)"
  unfolding get_setting_def by (intro same.bind same.opened same.query)

lemma same_relay:
  "db_rel (\<lambda>t t'. t' = t) (current_pair jt)" "db_rel (\<lambda>t t'. t' = t) relay_url"
  unfolding current_pair_def relay_url_def by (intro same.bind same_get same.return)+

lemma same_revoke: "db_rel (\<lambda>t t'. t' = t) (revoke del tok i)"
  unfolding revoke_def
  by (intro same.bind same_relay) (auto split: option.split intro: same.return same.fail)

lemma app_same: "db_rel (\<lambda>t t'. t' = t) m \<Longrightarrow> app_db m s = (r, s') \<Longrightarrow> db_tables (as_db s') = db_tables (as_db s)"
  by (auto simp: app_db_def dest: db_relD split: prod.splits)

lemma revoke_InrD: "revoke (rc_delete env) tok i d = (Inr u, d') \<Longrightarrow> revoked env tok i"
  unfolding revoke_def revoked_def
  by (fastforce simp: db_fail_def dest!: db_bind_InrD split: option.splits if_splits)

lemma pair_settings_differ [simp]: "pair_setting i \<noteq> PAIR_SETTING"
  by (simp add: pair_setting_def PAIR_SETTING_def PAIR_PREFIX_def)

lemma app_set_tables:
  "app_db (set_setting key v) s = (Inr u, s') \<Longrightarrow>
     store_get (tb_settings (db_tables (as_db s'))) k
       = (if k = key then Some v else store_get (tb_settings (db_tables (as_db s))) k)"
  by (auto dest!: app_db_InrD set_setting_InrD simp: kv.get_put)

text \<open>C39: turning the relay off asks the relay first: either nothing changed here and the command
  failed, or the relay acknowledged that the pair is revoked; and when the command succeeds neither
  the pair nor its key material is held any more and the status says so.\<close>

theorem disable_revokes_first:
  assumes held: "held_pair (rc_json env) (as_db s) = Some p"
    and run: "relay_disable env id_token s = (r, s')"
  shows "(\<exists>e. r = Inl e) \<and> db_tables (as_db s') = db_tables (as_db s)
    \<or> revoked env id_token (rp_pair_id p)
      \<and> (\<forall>st. r = Inr st \<longrightarrow> \<not> rs_configured st \<and> held_pair (rc_json env) (as_db s') = None
           \<and> held_secrets (rc_std env) (rp_pair_id p) (as_db s') = None)"
proof -
  obtain r1 s1 where one: "app_db (current_pair (rc_json env)) s = (r1, s1)" by fastforce
  have t1: "db_tables (as_db s1) = db_tables (as_db s)" by (rule app_same [OF same_relay(1) one])
  show ?thesis
  proof (cases r1)
    case (Inl e)
    then show ?thesis using run one t1 by (auto simp: relay_disable_def sbind_def)
  next
    case (Inr q)
    then have q: "q = Some p" using app_current_pair one held by auto
    obtain r2 s2 where two: "app_db (revoke (rc_delete env) id_token (rp_pair_id p)) s1 = (r2, s2)" by fastforce
    have t2: "db_tables (as_db s2) = db_tables (as_db s1)" by (rule app_same [OF same_revoke two])
    show ?thesis
    proof (cases r2)
      case (Inl e)
      then show ?thesis using run one two t1 t2 \<open>r1 = Inr q\<close> q by (auto simp: relay_disable_def sbind_def)
    next
      case ok: (Inr u)
      then have rev: "revoked env id_token (rp_pair_id p)" using two by (auto dest!: app_db_InrD revoke_InrD)
      have "\<not> rs_configured st \<and> held_pair (rc_json env) (as_db s') = None
          \<and> held_secrets (rc_std env) (rp_pair_id p) (as_db s') = None" if st: "r = Inr st" for st
      proof -
        have "sbind (app_db (forget_pair (rp_pair_id p))) (\<lambda>_. sbind (app_db clear_pair) (\<lambda>_. status env)) s2
            = (Inr st, s')"
          using run one two \<open>r1 = Inr q\<close> q ok st by (simp add: relay_disable_def sbind_def)
        then obtain u3 s3 where three: "app_db (forget_pair (rp_pair_id p)) s2 = (Inr u3, s3)"
          and rest: "sbind (app_db clear_pair) (\<lambda>_. status env) s3 = (Inr st, s')" by (rule sbind_InrE)
        obtain u4 s4 where four: "app_db clear_pair s3 = (Inr u4, s4)" and five: "status env s4 = (Inr st, s')"
          using rest by (rule sbind_InrE)
        note g3 = app_set_tables [OF three [unfolded forget_pair_def]]
        note g4 = app_set_tables [OF four [unfolded clear_pair_def]]
        have "held_pair (rc_json env) (as_db s4) = None" "held_secrets (rc_std env) (rp_pair_id p) (as_db s4) = None"
          by (simp_all add: held_pair_def held_secrets_def g4 g3)
        then show ?thesis using status_reads [OF five] by (simp add: held_pair_def held_secrets_def)
      qed
      then show ?thesis using rev by blast
    qed
  qed
qed

text \<open>An instance: a pair is held and the relay answers 204.\<close>

definition sample_pair :: relay_pair where
  "sample_pair = \<lparr>rp_url = ''https://r.example'', rp_account_key = replicate 64 CHR ''a'',
     rp_pair_id = replicate 32 CHR ''b'', rp_desktop_capability = replicate 43 CHR ''C'',
     rp_phone_capability = replicate 43 CHR ''D'', rp_expires_at = 9\<rparr>"

lemma sample_pair_valid: "pair_is_valid sample_pair"
proof -
  have "list_all visible (rp_url sample_pair)" by (simp add: sample_pair_def visible_def)
  then have "\<not> has_whitespace (rp_url sample_pair)" by (rule visible_no_whitespace)
  then show ?thesis
    by (simp add: pair_is_valid_def sample_pair_def lower_hex_def capability_def is_lower_hex_def
        is_capability_char_def is_digit_def list_all_iff strip_prefix_def)
qed

definition sample_env :: "(unit, unit) relay_cmd_env" where
  "sample_env = \<lparr>rc_json = \<lparr>jt_print = (\<lambda>_. ''x''), jt_parse = (\<lambda>_. Some (relay_pair_json sample_pair))\<rparr>,
     rc_std = hex64, rc_snow = undefined, rc_post = (\<lambda>_ _. None), rc_delete = (\<lambda>_ _. Some 204)\<rparr>"

definition sample_state :: app_state where
  "sample_state = app_new \<lparr>db_tables = \<lparr>tb_notifications = [], tb_settings = [(PAIR_SETTING, ''x'')],
     tb_devices = [], tb_rules = [], tb_rule_columns = []\<rparr>, db_faults = []\<rparr> []"

lemma sample_reads: "trim ''x'' = ''x''" "relay_pair_of_json (relay_pair_json sample_pair) = sample_pair"
proof -
  show "trim ''x'' = ''x''" by (rule visible_trim) (simp add: visible_def)
  show "relay_pair_of_json (relay_pair_json sample_pair) = sample_pair"
    by (rule relay_pair_of_json_of) (simp_all add: sample_pair_def)
qed

lemma sample_held: "held_pair (rc_json sample_env) (as_db sample_state) = Some sample_pair"
  using sample_pair_valid
  by (simp add: held_pair_def sample_env_def sample_state_def app_new_def store_get_def Let_def sample_reads)

theorem disable_revokes_first_witness:
  "\<exists>r s'. relay_disable sample_env ''token'' sample_state = (r, s') \<and>
    ((\<exists>e. r = Inl e) \<and> db_tables (as_db s') = db_tables (as_db sample_state)
    \<or> revoked sample_env ''token'' (rp_pair_id sample_pair)
      \<and> (\<forall>st. r = Inr st \<longrightarrow> \<not> rs_configured st \<and> held_pair (rc_json sample_env) (as_db s') = None
           \<and> held_secrets (rc_std sample_env) (rp_pair_id sample_pair) (as_db s') = None))"
proof -
  obtain r s' where run: "relay_disable sample_env ''token'' sample_state = (r, s')" by fastforce
  show ?thesis using disable_revokes_first [OF sample_held run] run by blast
qed

end
