(* ===== verification/Pairing_Cmd.thy ===== *)
theory Pairing_Cmd
  imports Desktop_Host Relay_Cmd
begin

text \<open>
  desktop/src-tauri/src/commands/pairing_cmd.rs and diagnostics_cmd.rs: the addresses offered to a
  phone, the pairing code, and the commands on paired devices. The operating system's answers on
  its addresses, the random identifiers and the clocks are arguments.
\<close>

section \<open>Addresses\<close>

definition is_pairable_ipv4 :: "bytes \<Rightarrow> bool" where
  "is_pairable_ipv4 ip \<longleftrightarrow> \<not> (ip ! 0 = 127 \<or> (ip ! 0 = 169 \<and> ip ! 1 = 254) \<or> ip = [0, 0, 0, 0])"

definition token_char :: "char \<Rightarrow> bool" where
  "token_char c \<longleftrightarrow> is_digit c \<or> c = CHR ''.''"

definition trim_matches :: "(char \<Rightarrow> bool) \<Rightarrow> string \<Rightarrow> string" where
  "trim_matches p s = rev (dropWhile p (rev (dropWhile p s)))"

definition parse_ipv4_token :: "string \<Rightarrow> bytes option" where
  "parse_ipv4_token token =
     Option.bind (parse_ipv4 (trim_matches (\<lambda>c. \<not> token_char c) (trim token)))
       (\<lambda>ip. if is_pairable_ipv4 ip then Some ip else None)"

text \<open>What the operating system tells: the local address it routes from, and a command's text.\<close>

record net_env =
  ne_windows :: bool
  ne_route :: "bytes option"
  ne_command :: "string option"

definition route_ipv4 :: "net_env \<Rightarrow> bytes option" where
  "route_ipv4 n =
     (case ne_route n of Some ip \<Rightarrow> if is_pairable_ipv4 ip then Some ip else None | None \<Rightarrow> None)"

definition command_ipv4_candidates :: "net_env \<Rightarrow> bytes list" where
  "command_ipv4_candidates n =
     (case ne_command n of
        None \<Rightarrow> []
      | Some txt \<Rightarrow>
          if ne_windows n
          then List.map_filter parse_ipv4_token
                 (List.map_filter (\<lambda>line. case split_on CHR '':'' line of _ # v # _ \<Rightarrow> Some v | _ \<Rightarrow> None)
                   (filter (\<lambda>line. contains line ''IPv4'') (split_on CHR 0x0A txt)))
          else List.map_filter parse_ipv4_token (split_whitespace txt))"

definition lan_candidate :: "bytes \<Rightarrow> string" where
  "lan_candidate ip = ''wss://'' @ show_ipv4 ip @ '':9173''"

definition push_candidate :: "bytes \<Rightarrow> string list \<Rightarrow> string list" where
  "push_candidate ip cs = (if lan_candidate ip \<in> set cs then cs else cs @ [lan_candidate ip])"

definition local_ipv4_candidates :: "net_env \<Rightarrow> string list" where
  "local_ipv4_candidates n =
     (let first = (case route_ipv4 n of None \<Rightarrow> [] | Some ip \<Rightarrow> push_candidate ip []);
          others = sort_key (map unat) (command_ipv4_candidates n);
          cs = fold push_candidate others first
      in if cs = [] then [''wss://127.0.0.1:9173''] else cs)"

section \<open>The pairing code\<close>

record pairing_request_effects =
  pe_resume :: bool
  pe_arm_enrollment :: bool

definition pairing_request :: "bool \<Rightarrow> bool \<Rightarrow> pairing_request_effects" where
  "pairing_request for_pairing has_live_session =
     \<lparr>pe_resume = False, pe_arm_enrollment = for_pairing \<and> \<not> has_live_session\<rparr>"

record ('h, 't) code_env =
  ce_relay :: "('h, 't) relay_cmd_env"
  ce_base64 :: base64
  ce_print :: "json \<Rightarrow> string option"
  ce_draw :: "string \<Rightarrow> bytes option"
  ce_net :: net_env

definition relay_pairing_blocks ::
  "('h, 't) code_env \<Rightarrow> int \<Rightarrow> bytes \<Rightarrow> app_state \<Rightarrow> (qr_relay \<times> qr_noise) option \<times> app_state" where
  "relay_pairing_blocks env now random s =
     (let rc = ce_relay env in
      case app_db (current_pair (rc_json rc)) s of
        (Inr (Some pair), s1) \<Rightarrow>
          if rp_expires_at pair \<le> now then (None, s1)
          else (case app_db (pair_secrets_of (rc_std rc) (rp_pair_id pair)) s1 of
                  (Inr (Some secrets), s2) \<Rightarrow>
                    (case app_db (desktop_identity (rc_snow rc) (rc_std rc) random) s2 of
                       (Inr ident, s3) \<Rightarrow>
                         (Some (\<lparr>qrr_url = rp_url pair, qrr_account_key = rp_account_key pair,
                                 qrr_pair_id = rp_pair_id pair, qrr_capability = rp_phone_capability pair\<rparr>,
                                \<lparr>qrn_desktop_key = sb_encode (rc_std rc) (id_public ident),
                                 qrn_psk = sb_encode (rc_std rc) (sec_psk secrets)\<rparr>), s3)
                     | (_, s3) \<Rightarrow> (None, s3))
                | (_, s2) \<Rightarrow> (None, s2))
      | (_, s1) \<Rightarrow> (None, s1))"

text \<open>The code that is kept when it has more than thirty seconds left.\<close>

definition reusable_code :: "int \<Rightarrow> pairing_session option \<Rightarrow> pairing_session option" where
  "reusable_code now held =
     (case held of Some c \<Rightarrow> if now + 30000 < ps_expires_at c then Some c else None | None \<Rightarrow> None)"

definition fresh_code :: "string \<Rightarrow> string \<Rightarrow> string \<Rightarrow> int \<Rightarrow> pairing_session option \<Rightarrow> pairing_session" where
  "fresh_code uuid key cert now existing =
     \<lparr>ps_device_id = (case existing of Some c \<Rightarrow> ps_device_id c | None \<Rightarrow> uuid),
      ps_pairing_key = (case existing of Some c \<Rightarrow> ps_pairing_key c | None \<Rightarrow> key),
      ps_cert_fingerprint = cert,
      ps_expires_at = (case existing of Some c \<Rightarrow> ps_expires_at c | None \<Rightarrow> now + 5 * 60 * 1000)\<rparr>"

definition code_payload :: "pairing_session \<Rightarrow> string list \<Rightarrow> (qr_relay \<times> qr_noise) option \<Rightarrow> qr_payload" where
  "code_payload c candidates block =
     \<lparr>qr_v = (if block \<noteq> None then 2 else 1), qr_mode = ''local'',
      qr_endpoint = (case candidates of [] \<Rightarrow> ''wss://127.0.0.1:9173'' | e # _ \<Rightarrow> e),
      qr_endpoint_candidates = candidates, qr_relay_url = None, qr_device_pair_id = None,
      qr_device_id = ps_device_id c, qr_pairing_key = ps_pairing_key c,
      qr_cert_fingerprint = ps_cert_fingerprint c, qr_relay = map_option fst block,
      qr_noise = map_option snd block\<rparr>"

text \<open>\<open>now\<close> and \<open>now2\<close> are the two readings of the clock; \<open>key\<close> is 32 random bytes.\<close>

definition generate_pairing_qr ::
  "('h, 't) code_env \<Rightarrow> bool \<Rightarrow> int \<Rightarrow> int \<Rightarrow> string \<Rightarrow> bytes \<Rightarrow> bytes \<Rightarrow> qr_output command" where
  "generate_pairing_qr env for_pairing now now2 uuid key random s0 =
     (case current_pairing (rc_json (ce_relay env)) now s0 of (held, s1) \<Rightarrow>
      let existing = reusable_code now held;
          effects = pairing_request for_pairing (existing \<noteq> None);
          s2 = (if pe_resume effects then resume s1 else s1);
          s3 = (if pe_arm_enrollment effects then arm_enrollment s2 else s2);
          candidates = local_ipv4_candidates (ce_net env);
          code = fresh_code uuid (hex_string key) (as_cert_fingerprint s0) now existing
      in case relay_pairing_blocks env now2 random s3 of (block, s4) \<Rightarrow>
         let s5 = (if block \<noteq> None then request_relay_connection s4 else s4);
             s6 = set_pairing (rc_json (ce_relay env)) code s5
         in case make_qr (ce_base64 env) (ce_print env) (ce_draw env) (code_payload code candidates block)
                   (ps_expires_at code) of
              None \<Rightarrow> (Inl ''qr'', s6)
            | Some qr \<Rightarrow> (Inr qr, s6))"

definition consume_pairing ::
  "json_text \<Rightarrow> int \<Rightarrow> int \<Rightarrow> int \<Rightarrow> string \<Rightarrow> string \<Rightarrow> unit command" where
  "consume_pairing jt now rowid now2 device_id pairing_key s =
     (case current_pairing jt now s of
        (None, s') \<Rightarrow> (Inl ''no active pairing session'', s')
      | (Some session, s') \<Rightarrow>
          if ps_device_id session \<noteq> device_id \<or> ps_pairing_key session \<noteq> pairing_key
          then (Inl ''pairing session mismatch'', s')
          else app_db (save_pairing rowid now2 ''Android phone'' (ps_device_id session)
                 (ps_pairing_key session) [] (ps_cert_fingerprint session)) s')"

section \<open>Paired devices\<close>

definition list_paired_devices_cmd :: "paired_device_row list command" where
  "list_paired_devices_cmd = app_db list_paired_devices"

definition unpair_message :: "string \<Rightarrow> json" where
  "unpair_message reason = JObject
     [(''version'', JNumber (PosInt 1)), (''type'', JString ''UNPAIR''),
      (''payload'', JObject [(''reason'', JString reason)])]"

definition reconnect_message :: "string \<Rightarrow> int \<Rightarrow> json" where
  "reconnect_message device_id now = JObject
     [(''version'', JNumber (PosInt 1)), (''type'', JString ''DESKTOP_ACTION''),
      (''payload'', JObject [(''action'', JString ''reconnect_request''), (''deviceId'', JString device_id),
         (''requestedAt'', json_of_int now)])]"

text \<open>The window is part of the host; these two commands run on it.\<close>

definition delete_paired_device_cmd :: "json_text \<Rightarrow> string \<Rightarrow> nat host_op" where
  "delete_paired_device_cmd jt device_id =
     host_bind (query_db id list_paired_devices) (\<lambda>devices.
     host_bind
       (if \<exists>d\<in>set devices. pd_device_id d = device_id \<and> pd_is_active d \<noteq> 0
        then host_bind (act id (\<lambda>s. mark_manual_disconnect
                 (snd (send_to_phone (jt_print jt (unpair_message ''desktop_deleted_pairing'')) s))))
               (\<lambda>_. emit (UiConnection ''DISCONNECTED''))
        else host_return ()) (\<lambda>_.
     query_db id (delete_paired_device device_id)))"

definition disconnect_phone :: "json_text \<Rightarrow> unit host_op" where
  "disconnect_phone jt =
     host_bind (act id (\<lambda>s. snd (send_to_phone (jt_print jt (unpair_message ''manual_disconnect'')) s))) (\<lambda>_.
     host_bind (query_db id mark_pairings_disconnected) (\<lambda>_.
     host_bind (act id mark_manual_disconnect) (\<lambda>_.
     emit (UiConnection ''DISCONNECTED''))))"

definition request_device_reconnect :: "json_text \<Rightarrow> int \<Rightarrow> string \<Rightarrow> string command" where
  "request_device_reconnect jt now device_id s =
     (case send_to_phone (jt_print jt (reconnect_message device_id now)) s of
        (True, s1) \<Rightarrow> (Inr ''Asked your phone to reconnect.'', s1)
      | (False, s1) \<Rightarrow>
          (case app_db (current_pair jt) s1 of
             (Inl e, s2) \<Rightarrow> (Inl e, s2)
           | (Inr (Some _), s2) \<Rightarrow>
               (Inr ''Waiting for your phone to accept. It can be on any network.'',
                request_relay_rejoin (request_relay_connection (allow_known_phone (resume s2))))
           | (Inr None, s2) \<Rightarrow>
               (Inl (''Phone is offline. Open FocusBridge on Android, then scan the QR or paste ''
                     @ ''the manual payload.''), s2)))"

section \<open>Diagnostics\<close>

record diagnostics_snapshot =
  ds_connected :: bool
  ds_connected_at :: "int option"
  ds_active_transport :: string
  ds_lan_port :: nat
  ds_endpoint_candidates :: "string list"
  ds_certificate_fingerprint :: string
  ds_pairing_active :: bool
  ds_last_heartbeat_at :: "int option"
  ds_last_auth_failure :: "string option"
  ds_last_disconnect_reason :: "string option"
  ds_reconnecting_since :: "int option"

definition get_connection_diagnostics ::
  "json_text \<Rightarrow> net_env \<Rightarrow> int \<Rightarrow> int \<Rightarrow> app_state \<Rightarrow> diagnostics_snapshot \<times> app_state" where
  "get_connection_diagnostics jt net now now2 s =
     (let d = as_diagnostics s in
      case current_pairing jt now s of (held, s') \<Rightarrow>
        (\<lparr>ds_connected = cd_connected d, ds_connected_at = cd_connected_at d,
          ds_active_transport = cd_active_transport d, ds_lan_port = 9173,
          ds_endpoint_candidates = local_ipv4_candidates net,
          ds_certificate_fingerprint = as_cert_fingerprint s, ds_pairing_active = held \<noteq> None,
          ds_last_heartbeat_at = cd_last_heartbeat_at d, ds_last_auth_failure = cd_last_auth_failure d,
          ds_last_disconnect_reason = cd_last_disconnect_reason d,
          ds_reconnecting_since = reconnecting_since now2 s'\<rparr>, s'))"

end
