(* ===== verification/Pairing_Code.thy ===== *)
theory Pairing_Code
  imports Pairing_Cmd Ws_Access
begin

text \<open>
  The pairing code from the screen to the socket: what a phone reads from the code is the live
  code of the shared state, and a phone that presents it gets in.
\<close>

definition code_shaped :: "pairing_session \<Rightarrow> bool" where
  "code_shaped c \<longleftrightarrow> (\<exists>u. length u = 16 \<and> ps_device_id c = uuid_string u)
     \<and> (\<exists>k. length k = 32 \<and> ps_pairing_key c = hex_string k)"

lemma reprint_shaped:
  assumes "code_shaped c"
  shows "reprint uuid_bytes uuid_string (ps_device_id c) = ps_device_id c"
    and "reprint (hex_bytes 32) hex_string (ps_pairing_key c) = ps_pairing_key c"
    and "ps_pairing_key c \<noteq> []"
proof -
  obtain u k where u: "length u = 16" "ps_device_id c = uuid_string u"
    and k: "length k = 32" "ps_pairing_key c = hex_string k"
    using assms by (auto simp: code_shaped_def)
  show "reprint uuid_bytes uuid_string (ps_device_id c) = ps_device_id c"
    using uuid_bytes_uuid_string [OF u(1)] by (simp add: reprint_def u)
  show "reprint (hex_bytes 32) hex_string (ps_pairing_key c) = ps_pairing_key c"
    using hex_bytes_hex_string [OF k(1)] by (simp add: reprint_def k)
  have "length (ps_pairing_key c) = 64" using k by simp
  then show "ps_pairing_key c \<noteq> []" by auto
qed

lemma fresh_shaped:
  assumes "length u = 16" and "length key = 32" and "\<And>c. existing = Some c \<Longrightarrow> code_shaped c"
  shows "code_shaped (fresh_code (uuid_string u) (hex_string key) cert now existing)"
  using assms by (cases existing) (auto simp: code_shaped_def fresh_code_def)

text \<open>The link carries the compact form exactly when it starts like one.\<close>

lemma compact_link_text:
  assumes "make_qr b print_json draw payload e = Some qr"
    and "strip_prefix ''focusbridge://pair?c='' (qro_deep_link qr) = Some txt"
  shows "\<exists>bs. encode_compact b payload = Some bs \<and> txt = b64url_encode b bs"
  using assms
  by (auto simp: make_qr_def compact_link_def strip_prefix_Some Let_def Option.bind_eq_Some_conv split: option.splits)

lemma make_qr_expires: "make_qr b print_json draw payload e = Some qr \<Longrightarrow> qro_expires_at qr = e"
  by (auto simp: make_qr_def Let_def Option.bind_eq_Some_conv)

text \<open>A phone that presents the code the state holds is let in.\<close>

definition presents :: "envelope \<Rightarrow> string \<Rightarrow> string \<Rightarrow> bool" where
  "presents env device key \<longleftrightarrow> env_version env = 1 \<and> env_type env = Auth
     \<and> get_str ''deviceId'' (env_payload env) = Some device
     \<and> get_str ''pairingKey'' (env_payload env) = Some key"

lemma held_code_is_expected:
  assumes "as_pairing a = Some c" and "t < ps_expires_at c" and "presents env (ps_device_id c) (ps_pairing_key c)"
  shows "expected_pairing_key_for_envelope p t env a = (Some (ps_pairing_key c), a)"
  using assms
  by (simp add: expected_pairing_key_for_envelope_def presents_def current_pairing_def string_field_def Let_def)

lemma held_code_attaches:
  assumes "as_pairing a = Some c" and "t < ps_expires_at c"
  shows "fst (decide_attach p t (ps_pairing_key c) device a) = True"
proof -
  obtain auto_on a1 where one: "auto_first_connection a = (auto_on, a1)" by fastforce
  then have "as_pairing a1 = Some c"
    using assms(1) by (auto simp: auto_first_connection_def app_db_def split: prod.splits sum.splits)
  then have "holds_the_code_on_screen p t (ps_pairing_key c) a1 = (True, a1)"
    using assms(2) by (simp add: holds_the_code_on_screen_def pairing_code_is_live_def current_pairing_def)
  then show ?thesis
    using one by (simp add: decide_attach_def attach_rule_def may_attach_unspent Let_def split: prod.split)
qed

section \<open>What the command leaves\<close>

lemma app_db_keeps: "app_db m s = (r, s') \<Longrightarrow> \<exists>d. s' = s\<lparr>as_db := d\<rparr>"
  by (auto simp: app_db_def split: prod.splits)

lemma blocks_paused:
  assumes "relay_pairing_blocks env now random s = (block, s')"
  shows "as_paused s' = as_paused s"
proof -
  obtain r1 s1 where one: "app_db (current_pair (rc_json (ce_relay env))) s = (r1, s1)" by fastforce
  show ?thesis
    using assms one
    by (auto simp: relay_pairing_blocks_def Let_def dest!: app_db_keeps
        split: sum.splits option.splits if_splits prod.splits)
qed

lemma blocks_url:
  assumes "relay_pairing_blocks env now random s = (Some (r, n), s')"
  shows "\<exists>p. held_pair (rc_json (ce_relay env)) (as_db s) = Some p \<and> qrr_url r = rp_url p"
proof -
  obtain r1 s1 where one: "app_db (current_pair (rc_json (ce_relay env))) s = (r1, s1)" by fastforce
  show ?thesis
    using assms one
    by (auto simp: relay_pairing_blocks_def Let_def dest!: app_current_pair
        split: sum.splits option.splits if_splits prod.splits) metis
qed

lemma set_pairing_state: "as_pairing (set_pairing jt c s) = Some c" "as_paused (set_pairing jt c s) = as_paused s"
  by (auto simp: set_pairing_def app_db_def split: prod.splits)

lemma generate_leaves:
  assumes "generate_pairing_qr env for_pairing now now2 uuid key random s = (Inr qr, s1)"
    and "current_pairing (rc_json (ce_relay env)) now s = (held, s0)"
  shows "\<exists>s3 block. as_db s3 = as_db s0
    \<and> fst (relay_pairing_blocks env now2 random s3) = block
    \<and> as_pairing s1 = Some (fresh_code uuid (hex_string key) (as_cert_fingerprint s) now (reusable_code now held))
    \<and> as_paused s1 = as_paused s0
    \<and> make_qr (ce_base64 env) (ce_print env) (ce_draw env)
         (code_payload (fresh_code uuid (hex_string key) (as_cert_fingerprint s) now (reusable_code now held))
            (local_ipv4_candidates (ce_net env)) block)
         (ps_expires_at (fresh_code uuid (hex_string key) (as_cert_fingerprint s) now (reusable_code now held)))
       = Some qr"
proof -
  define s3 where "s3 = (if pe_arm_enrollment (pairing_request for_pairing (reusable_code now held \<noteq> None))
    then arm_enrollment s0 else s0)"
  obtain block s4 where blocks: "relay_pairing_blocks env now2 random s3 = (block, s4)" by fastforce
  have s3: "as_db s3 = as_db s0" "as_paused s3 = as_paused s0"
    by (simp_all add: s3_def arm_enrollment_def)
  have "as_paused s4 = as_paused s0" using blocks_paused [OF blocks] s3 by simp
  then show ?thesis
    using assms blocks s3
    by (intro exI [of _ s3] exI [of _ block])
      (auto simp: generate_pairing_qr_def Let_def pairing_request_def s3_def set_pairing_state
        request_relay_connection_def split: option.splits if_splits)
qed

section \<open>Property\<close>


text \<open>An instance: the first code of a PC without a network.\<close>

definition code_sample :: "(unit, unit) code_env" where
  "code_sample = \<lparr>ce_relay = sample_env, ce_base64 = hex_base64, ce_print = (\<lambda>_. Some ''{}''),
     ce_draw = (\<lambda>_. Some []), ce_net = \<lparr>ne_windows = False, ne_route = None, ne_command = None\<rparr>\<rparr>"

definition fresh_state :: app_state where
  "fresh_state = app_new \<lparr>db_tables = \<lparr>tb_notifications = [], tb_settings = [],
     tb_devices = [], tb_rules = [], tb_rule_columns = []\<rparr>, db_faults = []\<rparr> (hex_string (replicate 32 8))"

definition sample_code :: pairing_session where
  "sample_code = fresh_code (uuid_string (replicate 16 1)) (hex_string (replicate 32 2))
     (hex_string (replicate 32 8)) 0 None"

lemma loopback_candidate: "show_candidate [127, 0, 0, 1, 35, 213] = ''wss://127.0.0.1:9173''"
  by (simp add: show_candidate_def show_ipv4_def be_nat_def digit_char_def char_of_def bit_0 decimal.simps [of 127]
      decimal.simps [of 12] decimal.simps [of 1] decimal.simps [of "Suc 0"] decimal.simps [of 0]
      decimal.simps [of 9173] decimal.simps [of 917] decimal.simps [of 91] decimal.simps [of 9])

lemma sample_code_shown: "shown_payload hex_base64 (code_payload sample_code [''wss://127.0.0.1:9173''] None)"
proof -
  have "\<exists>raw raws. length (raw # raws) < 256 \<and> distinct (map show_candidate (raw # raws))
      \<and> (\<forall>r\<in>set (raw # raws). length r = 6) \<and> ''wss://127.0.0.1:9173'' = show_candidate raw
      \<and> [''wss://127.0.0.1:9173''] = map show_candidate (raw # raws)"
    by (intro exI [of _ "[127, 0, 0, 1, 35, 213]"] exI [of _ "[]"]) (simp add: loopback_candidate)
  then show ?thesis
    unfolding shown_payload_def by (simp add: code_payload_def sample_code_def fresh_code_def printed)
qed

lemma no_code_yet: "current_pairing jt now fresh_state = (None, fresh_state)"
  by (simp add: current_pairing_def load_pairing_session_def app_db_def get_setting_def db_bind_def db_open_def
      db_query_def db_exec_def fresh_state_def app_new_def store_get_def)

lemma sample_generates:
  "\<exists>qr s1 bs. generate_pairing_qr code_sample True 0 0 (uuid_string (replicate 16 1)) (replicate 32 2) [] fresh_state
     = (Inr qr, s1) \<and> qro_deep_link qr = ''focusbridge://pair?c='' @ b64url_encode hex_base64 bs"
proof -
  obtain bs where bs: "encode_compact hex_base64 (code_payload sample_code [''wss://127.0.0.1:9173''] None) = Some bs"
    using shown_encodes(1) [OF hex_base64_laws sample_code_shown] by blast
  have "app_db (current_pair jt) (arm_enrollment fresh_state) = (Inr None, arm_enrollment fresh_state)" for jt
    by (simp add: current_pair_def app_db_def get_setting_def db_bind_def db_open_def db_return_def
      db_query_def db_exec_def fresh_state_def app_new_def store_get_def arm_enrollment_def)
  then have "relay_pairing_blocks code_sample 0 [] (arm_enrollment fresh_state) = (None, arm_enrollment fresh_state)"
    by (simp add: relay_pairing_blocks_def Let_def)
  moreover have "local_ipv4_candidates (ce_net code_sample) = [''wss://127.0.0.1:9173'']"
    by (simp add: local_ipv4_candidates_def code_sample_def route_ipv4_def command_ipv4_candidates_def)
  moreover have "as_cert_fingerprint fresh_state = hex_string (replicate 32 8)" by (simp add: fresh_state_def app_new_def)
  ultimately show ?thesis
    using bs
    by (simp add: generate_pairing_qr_def no_code_yet Let_def pairing_request_def reusable_code_def
        sample_code_def [symmetric] make_qr_def compact_link_def) (auto simp: code_sample_def compact_link_def)
qed


end
