(* ===== verification/Relay_Presence.thy ===== *)
theory Relay_Presence
  imports Relay_Supervisor Pairing_Code
begin

text \<open>
  When this PC goes to the relay: the supervisor against the commands of the user. A phone that was
  turned away parks the PC until the user asks for something; asking for a saved phone makes it
  dial, rejoin, and let that phone in.
\<close>

section \<open>Looking\<close>

lemma auto_connect_state:
  assumes "app_db auto_connect s = (r, s')"
  shows "\<exists>d. s' = s\<lparr>as_db := d\<rparr>"
  using assms by (auto simp: app_db_def split: prod.splits)

lemma current_pairing_state:
  assumes "current_pairing jt now s = (held, s')"
  shows "\<exists>d c. s' = s\<lparr>as_db := d, as_pairing := c\<rparr>"
proof (cases "as_pairing s")
  case (Some x)
  then show ?thesis using assms
    by (intro exI [of _ "as_db s"] exI [of _ "as_pairing s"]) (simp add: current_pairing_def)
next
  case None
  obtain r s1 where one: "app_db (get_setting PAIRING_SESSION_SETTING) s = (r, s1)" by fastforce
  then have "snd (load_pairing_session jt now s) = s1"
    by (auto simp: load_pairing_session_def split: sum.splits option.splits)
  moreover obtain d where "s1 = s\<lparr>as_db := d\<rparr>" using one by (auto simp: app_db_def split: prod.splits)
  ultimately show ?thesis using assms None
    by (auto simp: current_pairing_def split: prod.splits)
qed

lemma live_state:
  assumes "pairing_code_is_live jt now s = (b, s')"
  shows "\<exists>d c. s' = s\<lparr>as_db := d, as_pairing := c\<rparr>"
proof -
  obtain held s1 where one: "current_pairing jt now s = (held, s1)" by fastforce
  have "s' = s1" using assms one by (auto simp: pairing_code_is_live_def split: option.splits)
  then show ?thesis using current_pairing_state [OF one] by simp
qed

lemma wants_state:
  assumes "wants_to_dial jt now s = (b, s')"
  shows "\<exists>d c. s' = s\<lparr>as_db := d, as_pairing := c\<rparr>"
proof -
  obtain r s1 where one: "app_db auto_connect s = (r, s1)" by fastforce
  obtain d where d: "s1 = s\<lparr>as_db := d\<rparr>" using auto_connect_state [OF one] by blast
  have same: "\<exists>d c. s1 = s\<lparr>as_db := d, as_pairing := c\<rparr>"
    unfolding d by (intro exI [of _ d] exI [of _ "as_pairing s"]) simp
  show ?thesis
  proof (cases "r = Inr False")
    case True
    then have "pairing_code_is_live jt now s1 = (b, s')" using assms one by (simp add: wants_to_dial_def)
    from live_state [OF this] show ?thesis unfolding d by auto
  next
    case False
    then have "s' = s1"
      using assms one by (auto simp: wants_to_dial_def split: sum.splits bool.splits)
    then show ?thesis using same by simp
  qed
qed

lemma dials_flags:
  assumes "dials jt now s = (b, s')"
  shows "as_relay_requested s \<Longrightarrow> b"
    and "as_awaiting_request_after_refusal s \<Longrightarrow> \<not> as_relay_requested s \<Longrightarrow> \<not> b"
    and "\<exists>d c. s' = s\<lparr>as_db := d, as_pairing := c\<rparr>"
proof -
  obtain w s1 where one: "wants_to_dial jt now s = (w, s1)" by fastforce
  note st = wants_state [OF one]
  then have flags: "as_relay_requested s1 = as_relay_requested s"
    "as_awaiting_request_after_refusal s1 = as_awaiting_request_after_refusal s" by auto
  have b: "b = (w \<and> \<not> as_awaiting_request_after_refusal s1 \<or> as_relay_requested s1)" and s': "s' = s1"
    using assms one by (auto simp: dials_def)
  show "as_relay_requested s \<Longrightarrow> b" using b flags by simp
  show "as_awaiting_request_after_refusal s \<Longrightarrow> \<not> as_relay_requested s \<Longrightarrow> \<not> b" using b flags by simp
  show "\<exists>d c. s' = s\<lparr>as_db := d, as_pairing := c\<rparr>" using st s' by simp
qed

section \<open>A phone that was turned away\<close>

text \<open>The other tasks ask for nothing: the flags the user's requests set stay as they are.\<close>

definition nobody_asks :: "('h, 't) relay_env \<Rightarrow> bool" where
  "nobody_asks env \<longleftrightarrow> (\<forall>k a. as_relay_requested (re_others env k a) = as_relay_requested a
     \<and> (as_awaiting_request_after_refusal a \<longrightarrow> as_awaiting_request_after_refusal (re_others env k a)))"

definition turned_away :: "app_state \<Rightarrow> bool" where
  "turned_away s \<longleftrightarrow> as_awaiting_request_after_refusal s \<and> \<not> as_relay_requested s"

lemma on_state_run:
  "on_state env k f c = (case f (re_others env k (cl_app c)) of (x, a) \<Rightarrow> (Inr x, c\<lparr>cl_app := a\<rparr>))"
  by (simp add: on_state_def)

lemma parked_away: "turned_away s \<Longrightarrow> turned_away (parked s)"
  by (auto simp: turned_away_def parked_def await_relay_request_def note_relay_idle_def)

lemma supervise_parks:
  assumes "nobody_asks env" and "turned_away (cl_app c)"
  shows "\<exists>c'. supervise env now random dial turns elapsed backoff c = (None, c') \<and> turned_away (cl_app c')
    \<and> cl_in c' = cl_in c \<and> cl_out c' = cl_out c \<and> cl_sends c' = cl_sends c"
proof -
  let ?a = "re_others env 17 (cl_app c)"
  have a: "turned_away ?a" using assms by (simp add: nobody_asks_def turned_away_def)
  obtain b s1 where d: "dials (re_json env) now ?a = (b, s1)" by fastforce
  have "\<not> b" using dials_flags(2) [OF d] a by (simp add: turned_away_def)
  then have b: "b = False" by simp
  have s1: "turned_away s1" using dials_flags(3) [OF d] a by (auto simp: turned_away_def)
  then have "turned_away (re_others env 18 s1)" using assms(1) by (simp add: nobody_asks_def turned_away_def)
  then have "turned_away (parked (re_others env 18 s1))" by (rule parked_away)
  then show ?thesis by (simp add: supervise_def on_state_run d b)
qed

text \<open>Rounds of the supervisor: each with its inputs, the backoff carried over.\<close>

fun supervise_rounds ::
  "('h, 't) relay_env \<Rightarrow> (int \<times> bytes \<times> (string + instant) \<times> (int \<times> attempt_branch) list \<times> nat) list
    \<Rightarrow> nat \<Rightarrow> client \<Rightarrow> client" where
  "supervise_rounds env [] backoff c = c"
| "supervise_rounds env ((now, random, dial, turns, elapsed) # rounds) backoff c =
     (case supervise env now random dial turns elapsed backoff c of
        (None, c') \<Rightarrow> supervise_rounds env rounds backoff c'
      | (Some (_, later), c') \<Rightarrow> supervise_rounds env rounds later c')"

section \<open>Properties\<close>

text \<open>C37: once a phone was turned away, this PC stays where it is: however many rounds the supervisor
  makes, code on screen or not, nothing is dialed and nothing is sent until the user asks.\<close>

theorem turned_away_stays_put:
  assumes "nobody_asks env" and "turned_away (cl_app c)"
  shows "cl_out (supervise_rounds env rounds backoff c) = cl_out c
    \<and> cl_in (supervise_rounds env rounds backoff c) = cl_in c
    \<and> turned_away (cl_app (supervise_rounds env rounds backoff c))"
  using assms(2)
proof (induction rounds arbitrary: backoff c)
  case (Cons round rounds)
  obtain now random dial turns elapsed where round: "round = (now, random, dial, turns, elapsed)"
    by (rule prod_cases5)
  obtain c' where one: "supervise env now random dial turns elapsed backoff c = (None, c')"
    "turned_away (cl_app c')" "cl_in c' = cl_in c" "cl_out c' = cl_out c"
    using supervise_parks [OF assms(1) Cons.prems, of now random dial turns elapsed backoff] by blast
  show ?case using Cons.IH [OF one(2), of backoff] one by (simp add: round)
qed simp

text \<open>C36: when the user picks a saved phone that has no live socket and a relay pair is held, the PC is
  no longer paused, the supervisor dials in its next round whatever turned it away before, a PC that
  is already at the relay leaves it to join again, and the next phone that authenticates is let in.\<close>

theorem picked_phone_gets_in:
  assumes "\<not> fst (send_to_phone (jt_print jt (reconnect_message device_id now)) s)"
    and "held_pair jt (as_db s) = Some pair"
    and "request_device_reconnect jt now device_id s = (Inr reply, s1)"
  shows "\<not> as_paused s1 \<and> fst (dials jt later s1) \<and> fst (relay_rejoin_requested s1)
    \<and> fst (decide_attach p at key phone s1)"
proof -
  have send: "send_to_phone (jt_print jt (reconnect_message device_id now)) s = (False, s)"
    using assms(1) by (auto simp: send_to_phone_def channel_send_def split: option.splits)
  obtain s2 where pair: "app_db (current_pair jt) s = (Inr (Some pair), s2)"
    and s1: "s1 = request_relay_rejoin (request_relay_connection (allow_known_phone (resume s2)))"
    using assms(2,3) send
    by (auto simp: request_device_reconnect_def dest: app_current_pair split: prod.splits sum.splits option.splits)
  have open_door: "\<not> as_paused s1" "as_known_phone_allowed s1" "as_relay_requested s1" "as_relay_rejoin s1"
    by (simp_all add: s1 request_relay_rejoin_def request_relay_connection_def allow_known_phone_def resume_def)
  have dial: "fst (dials jt later s1)"
    using dials_flags(1) [OF surjective_pairing [of "dials jt later s1"]] open_door(3) by blast
  obtain auto_on a1 where one: "auto_first_connection s1 = (auto_on, a1)" by fastforce
  then obtain d where a1: "a1 = s1\<lparr>as_db := d\<rparr>"
    by (auto simp: auto_first_connection_def app_db_def split: prod.splits sum.splits)
  obtain holds a2 where two: "holds_the_code_on_screen p at key a1 = (holds, a2)" by fastforce
  obtain held a3 where three: "current_pairing (dk_json p) at a1 = (held, a3)" by fastforce
  have "\<exists>d c. a2 = s1\<lparr>as_db := d, as_pairing := c\<rparr>"
  proof -
    obtain d3 c3 where a3: "a3 = a1\<lparr>as_db := d3, as_pairing := c3\<rparr>" using current_pairing_state [OF three] by blast
    have "a2 = a3 \<or> (\<exists>b. pairing_code_is_live (dk_json p) at a3 = (b, a2))"
      using two three by (auto simp: holds_the_code_on_screen_def split: option.splits if_splits)
    then show ?thesis using live_state a3 a1 by fastforce
  qed
  then have "\<not> as_paused a2" "as_known_phone_allowed a2" using open_door by auto
  then have "fst (attach_rule auto_on holds phone a2)"
    by (auto simp: attach_rule_def may_attach_def take_known_phone_allowance_def Let_def split: if_splits)
  then have "fst (decide_attach p at key phone s1)" using one two by (simp add: decide_attach_def)
  then show ?thesis using open_door dial by (simp add: relay_rejoin_requested_def)
qed

section \<open>Witnesses\<close>

theorem turned_away_stays_put_witness:
  "cl_out (supervise_rounds toy_relay [(0, [], Inl [], [], 0), (7, [], Inl [], [], 0)] MIN_BACKOFF
     (toy_client\<lparr>cl_app := note_known_phone_refused (cl_app toy_client)\<rparr>)) = []"
proof -
  have "nobody_asks toy_relay" by (simp add: nobody_asks_def toy_relay_def)
  moreover have "turned_away (cl_app (toy_client\<lparr>cl_app := note_known_phone_refused (cl_app toy_client)\<rparr>))"
    by (simp add: turned_away_def note_known_phone_refused_def toy_client_def app_new_def)
  ultimately have "cl_out (supervise_rounds toy_relay [(0, [], Inl [], [], 0), (7, [], Inl [], [], 0)] MIN_BACKOFF
      (toy_client\<lparr>cl_app := note_known_phone_refused (cl_app toy_client)\<rparr>))
    = cl_out (toy_client\<lparr>cl_app := note_known_phone_refused (cl_app toy_client)\<rparr>)"
    using turned_away_stays_put by blast
  then show ?thesis by (simp only:) (simp add: toy_client_def)
qed

lemma sample_reply:
  "\<exists>reply s1. request_device_reconnect (rc_json sample_env) 0 ''phone'' sample_state = (Inr reply, s1)"
proof -
  have "app_db (current_pair (rc_json sample_env)) sample_state = (Inr (Some sample_pair), sample_state)"
    using sample_pair_valid
    by (simp add: current_pair_def app_db_def get_setting_def db_bind_def db_open_def db_query_def db_exec_def
        db_return_def sample_env_def sample_state_def app_new_def store_get_def Let_def sample_reads)
  then show ?thesis
    by (simp add: request_device_reconnect_def send_to_phone_def sample_state_def app_new_def)
qed

theorem picked_phone_gets_in_witness:
  "\<exists>s1. fst (dials (rc_json sample_env) 5 s1) \<and> fst (decide_attach auth_desk 5 ''key'' ''phone'' s1)"
proof -
  obtain reply s1 where run: "request_device_reconnect (rc_json sample_env) 0 ''phone'' sample_state = (Inr reply, s1)"
    using sample_reply by blast
  have offline: "\<not> fst (send_to_phone (jt_print (rc_json sample_env) (reconnect_message ''phone'' 0)) sample_state)"
    by (simp add: send_to_phone_def sample_state_def app_new_def)
  show ?thesis using picked_phone_gets_in [OF offline sample_held run] by blast
qed

end
