(* ===== verification/Certificates.thy ===== *)
theory Certificates
  imports Qr Database_Key
begin

text \<open>
  The certificate the desktop serves the phone with: core/src/cert.rs, pairing/cert_manager.rs
  and server/tls.rs of the desktop, and relay/src/tls.rs. The libraries (rcgen, the PEM reader,
  rustls and SHA-256) are parameters. A certificate is signed anew whenever it is serialised, so
  the random bytes of each serialisation are arguments. A file is a text; a write may stop before
  it, or after it emptied the file and wrote some of the text.
\<close>

section \<open>Generating\<close>

record generated_cert =
  gc_cert_pem :: string
  gc_key_pem :: string
  gc_fingerprint :: string

record cert_params =
  cp_names :: "string list"
  cp_common_names :: "string list"
  cp_dns_names :: "string list"

record ('k, 'c) cert_library =
  cl_generate :: "bytes \<Rightarrow> string + 'k"
  cl_from_params :: "cert_params \<Rightarrow> 'k \<Rightarrow> string + 'c"
  cl_pem :: "'c \<Rightarrow> bytes \<Rightarrow> string + string"
  cl_key_pem :: "'c \<Rightarrow> string"
  cl_der :: "'c \<Rightarrow> bytes \<Rightarrow> string + bytes"
  cl_sha256 :: "bytes \<Rightarrow> bytes"

record cert_randomness =
  cr_key :: bytes
  cr_pem :: bytes
  cr_der :: bytes

definition self_signed_params :: "string \<Rightarrow> cert_params" where
  "self_signed_params cn =
     \<lparr>cp_names = [cn], cp_common_names = [cn], cp_dns_names = [''localhost'']\<rparr>"

definition generate_self_signed ::
  "('k, 'c) cert_library \<Rightarrow> cert_randomness \<Rightarrow> string \<Rightarrow> string + generated_cert" where
  "generate_self_signed cl r cn =
     result_bind (cl_generate cl (cr_key r)) (\<lambda>key.
     result_bind (cl_from_params cl (self_signed_params cn) key) (\<lambda>cert.
     result_bind (cl_pem cl cert (cr_pem r)) (\<lambda>cert_pem.
     result_bind (cl_der cl cert (cr_der r)) (\<lambda>der.
     Inr \<lparr>gc_cert_pem = cert_pem, gc_key_pem = cl_key_pem cl cert,
          gc_fingerprint = hex_string (cl_sha256 cl der)\<rparr>))))"

section \<open>Loading\<close>

text \<open>The certificates of a text in order: each one read, or an error where it is malformed.\<close>

type_synonym pem_certs = "string \<Rightarrow> (string + bytes) list"
type_synonym pem_key = "string \<Rightarrow> string + bytes option"

definition pem_to_der :: "pem_certs \<Rightarrow> string \<Rightarrow> string + bytes" where
  "pem_to_der certs pem =
     (case certs pem of [] \<Rightarrow> Inl ''missing persisted certificate'' | c # _ \<Rightarrow> c)"

record cert_files =
  ce_cert :: "string option"
  ce_key :: "string option"
  ce_fates :: "fate list"

definition cert_step :: "string \<Rightarrow> (cert_files \<Rightarrow> cert_files) \<Rightarrow> (nat \<Rightarrow> cert_files \<Rightarrow> cert_files)
    \<Rightarrow> (cert_files, unit) fallible" where
  "cert_step ctx whole part s =
     (case ce_fates s of
        Stop # fs \<Rightarrow> (Inl ctx, s\<lparr>ce_fates := fs\<rparr>)
      | Torn n # fs \<Rightarrow> (Inl ctx, part n (s\<lparr>ce_fates := fs\<rparr>))
      | fs \<Rightarrow> (Inr (), whole (s\<lparr>ce_fates := tl fs\<rparr>)))"

definition write_cert :: "string \<Rightarrow> (cert_files, unit) fallible" where
  "write_cert pem =
     cert_step ''write certificate''
       (\<lambda>s. s\<lparr>ce_cert := Some pem\<rparr>) (\<lambda>n s. s\<lparr>ce_cert := Some (take n pem)\<rparr>)"

definition write_key :: "string \<Rightarrow> (cert_files, unit) fallible" where
  "write_key pem =
     cert_step ''write key''
       (\<lambda>s. s\<lparr>ce_key := Some pem\<rparr>) (\<lambda>n s. s\<lparr>ce_key := Some (take n pem)\<rparr>)"

definition read_pem :: "string \<Rightarrow> string \<Rightarrow> (cert_files, string) fallible" where
  "read_pem ctx stored =
     sbind (cert_step ctx id (\<lambda>_. id)) (\<lambda>_.
     sbind (sensure (utf8_valid stored) ctx) (\<lambda>_. sreturn stored))"

definition lift_result :: "string + 'a \<Rightarrow> ('s, 'a) fallible" where
  "lift_result r s = (r, s)"

definition load_or_generate ::
  "('k, 'c) cert_library \<Rightarrow> pem_certs \<Rightarrow> cert_randomness \<Rightarrow> (cert_files, generated_cert) fallible" where
  "load_or_generate cl certs r =
     sbind (cert_step ''create directory'' id (\<lambda>_. id)) (\<lambda>_.
     (\<lambda>s. case (ce_cert s, ce_key s) of
            (Some cert, Some key) \<Rightarrow>
              sbind (read_pem ''read certificate'' cert) (\<lambda>cert_pem.
              sbind (read_pem ''read key'' key) (\<lambda>key_pem.
              sbind (lift_result (pem_to_der certs cert_pem)) (\<lambda>der.
              sreturn \<lparr>gc_cert_pem = cert_pem, gc_key_pem = key_pem,
                gc_fingerprint = hex_string (cl_sha256 cl der)\<rparr>))) s
          | _ \<Rightarrow>
              sbind (lift_result (generate_self_signed cl r ''focusbridge-desktop'')) (\<lambda>generated.
              sbind (write_cert (gc_cert_pem generated)) (\<lambda>_.
              sbind (write_key (gc_key_pem generated)) (\<lambda>_.
              sreturn generated))) s))"

section \<open>Serving\<close>

fun all_read :: "(string + 'a) list \<Rightarrow> string + 'a list" where
  "all_read [] = Inr []"
| "all_read (r # rs) = result_bind r (\<lambda>x. result_bind (all_read rs) (\<lambda>xs. Inr (x # xs)))"

definition with_context :: "string \<Rightarrow> string + 'a \<Rightarrow> string + 'a" where
  "with_context ctx r = (case r of Inl _ \<Rightarrow> Inl ctx | Inr x \<Rightarrow> Inr x)"

type_synonym 'cfg tls_builder = "bytes list \<Rightarrow> bytes \<Rightarrow> string + 'cfg"

text \<open>The desktop's TLS configuration, from the two texts.\<close>

definition rustls_config_from_pem ::
  "pem_certs \<Rightarrow> pem_key \<Rightarrow> 'cfg tls_builder \<Rightarrow> string \<Rightarrow> string \<Rightarrow> string + 'cfg" where
  "rustls_config_from_pem certs private_key build cert_pem key_pem =
     result_bind (with_context ''parse cert pem'' (all_read (certs cert_pem))) (\<lambda>chain.
     result_bind (with_context ''parse key pem'' (private_key key_pem)) (\<lambda>key.
     result_bind (ok_or key ''no private key'') (\<lambda>key.
     with_context ''build tls config'' (build chain key))))"

text \<open>The relay's, from two files; \<open>None\<close> is a file that cannot be opened.\<close>

definition load_tls_certs :: "pem_certs \<Rightarrow> string option \<Rightarrow> string + bytes list" where
  "load_tls_certs certs file =
     result_bind (ok_or file ''open cert'') (\<lambda>pem.
     result_bind (with_context ''read pem certs'' (all_read (certs pem))) (\<lambda>chain.
     if chain = [] then Inl ''no certs found'' else Inr chain))"

definition load_tls_key :: "pem_key \<Rightarrow> string option \<Rightarrow> string + bytes" where
  "load_tls_key private_key file =
     result_bind (ok_or file ''open key'') (\<lambda>pem.
     result_bind (with_context ''parse private key'' (private_key pem)) (\<lambda>key.
     ok_or key ''no private key in file''))"

definition load_tls_config ::
  "pem_certs \<Rightarrow> pem_key \<Rightarrow> 'cfg tls_builder \<Rightarrow> string option \<Rightarrow> string option \<Rightarrow> string + 'cfg" where
  "load_tls_config certs private_key build cert_file key_file =
     result_bind (load_tls_certs certs cert_file) (\<lambda>chain.
     result_bind (load_tls_key private_key key_file) (\<lambda>key.
     with_context ''build rustls server config'' (build chain key)))"

section \<open>What is served and what is pinned\<close>

lemma with_context_Inr [simp]: "with_context ctx r = Inr x \<longleftrightarrow> r = Inr x"
  by (auto simp: with_context_def split: sum.splits)

lemma lift_result_Inr [simp]: "lift_result r s = (Inr x, s') \<longleftrightarrow> r = Inr x \<and> s' = s"
  by (auto simp: lift_result_def)

lemma cert_step_faultless [simp]:
  "ce_fates s = [] \<Longrightarrow> cert_step ctx whole part s = (Inr (), whole s)"
  by (cases s) (simp add: cert_step_def)

lemma cert_stepD:
  "cert_step ctx whole part s = (Inr u, s') \<Longrightarrow> s' = whole (s\<lparr>ce_fates := tl (ce_fates s)\<rparr>)"
  by (auto simp: cert_step_def split: list.splits fate.splits)

lemma read_pemD:
  "read_pem ctx stored s = (Inr pem, s') \<Longrightarrow>
     pem = stored \<and> utf8_valid stored \<and> ce_cert s' = ce_cert s \<and> ce_key s' = ce_key s"
  by (auto simp: read_pem_def sensure_def sreturn_def sfail_def elim!: sbind_InrE dest!: cert_stepD
      split: if_splits)

text \<open>Whatever \<open>load_or_generate\<close> returns is what the two files hold.\<close>

lemma returned_is_stored:
  assumes "load_or_generate cl certs r s = (Inr g, s')"
  shows "ce_cert s' = Some (gc_cert_pem g) \<and> ce_key s' = Some (gc_key_pem g)"
  using assms
  by (auto simp: load_or_generate_def write_cert_def write_key_def sreturn_def
      elim!: sbind_InrE dest!: cert_stepD read_pemD split: option.splits)

text \<open>
  A certificate that could be returned is returned by every later start, which changes nothing,
  as long as its text can be read: the phone that pinned it is served by it after any restart.
\<close>

lemma certificate_is_kept:
  assumes "load_or_generate cl certs r s = (Inr g, s')" and "ce_fates s' = []"
    and "utf8_valid (gc_cert_pem g)" "utf8_valid (gc_key_pem g)"
    and "pem_to_der certs (gc_cert_pem g) = Inr der"
  shows "load_or_generate cl certs r' s'
    = (Inr (g\<lparr>gc_fingerprint := hex_string (cl_sha256 cl der)\<rparr>), s')"
  using returned_is_stored [OF assms(1)] assms(2-)
  by (cases g)
    (simp add: load_or_generate_def read_pem_def sbind_def sensure_def sreturn_def lift_result_def)

text \<open>What a TLS configuration serves first is the certificate the fingerprint is taken of.\<close>

lemma all_read_hd: "all_read rs = Inr xs \<Longrightarrow> rs \<noteq> [] \<Longrightarrow> hd rs = Inr (hd xs) \<and> xs \<noteq> []"
  by (cases rs) (auto simp: result_bind_Inr_iff)

lemma loaded_fingerprint_is_served:
  assumes "ce_cert s \<noteq> None" "ce_key s \<noteq> None"
    and "load_or_generate cl certs r s = (Inr g, s')"
    and "rustls_config_from_pem certs private_key build (gc_cert_pem g) (gc_key_pem g) = Inr cfg"
  shows "\<exists>chain key. build chain key = Inr cfg \<and> chain \<noteq> []
    \<and> gc_fingerprint g = hex_string (cl_sha256 cl (hd chain))"
proof -
  have g: "\<exists>der. pem_to_der certs (gc_cert_pem g) = Inr der
      \<and> gc_fingerprint g = hex_string (cl_sha256 cl der)"
    using assms(1-3)
    by (auto simp: load_or_generate_def sreturn_def elim!: sbind_InrE dest!: cert_stepD read_pemD
        split: option.splits)
  then obtain der where der: "certs (gc_cert_pem g) \<noteq> []" "hd (certs (gc_cert_pem g)) = Inr der"
      "gc_fingerprint g = hex_string (cl_sha256 cl der)"
    by (auto simp: pem_to_der_def split: list.splits)
  obtain chain key where "all_read (certs (gc_cert_pem g)) = Inr chain" "build chain key = Inr cfg"
    using assms(4) by (auto simp: rustls_config_from_pem_def result_bind_Inr_iff ok_or_Inr_iff)
  then show ?thesis using der all_read_hd [of "certs (gc_cert_pem g)" chain] by auto
qed

text \<open>
  On the first start the fingerprint is taken of a second serialisation. It is that of the
  certificate served only if the two signatures give the same certificate.
\<close>

lemma first_fingerprint_is_of_another_signature:
  assumes "ce_cert s = None \<or> ce_key s = None"
    and "load_or_generate cl certs r s = (Inr g, s')"
  shows "\<exists>cert der. cl_pem cl cert (cr_pem r) = Inr (gc_cert_pem g)
    \<and> cl_der cl cert (cr_der r) = Inr der \<and> gc_fingerprint g = hex_string (cl_sha256 cl der)"
  using assms
  by (auto simp: load_or_generate_def generate_self_signed_def sreturn_def result_bind_Inr_iff
      elim!: sbind_InrE dest!: cert_stepD split: option.splits) blast+

text \<open>
  A start that stops while the key is written leaves both files: every later start loads the
  torn key, and none of them can serve with it.
\<close>

lemma torn_key_is_kept:
  assumes "generate_self_signed cl r ''focusbridge-desktop'' = Inr g"
    and "ce_cert s = None" "ce_key s = None" "ce_fates s = [Go, Go, Torn n]"
    and "utf8_valid (gc_cert_pem g)" "utf8_valid (take n (gc_key_pem g))"
    and "pem_to_der certs (gc_cert_pem g) = Inr der"
    and "private_key (take n (gc_key_pem g)) = Inr None"
  obtains s' where "load_or_generate cl certs r s = (Inl ''write key'', s')"
    and "\<And>r'. \<exists>g'. load_or_generate cl certs r' s' = (Inr g', s')
      \<and> (\<forall>cfg. rustls_config_from_pem certs private_key build (gc_cert_pem g') (gc_key_pem g') \<noteq> Inr cfg)"
proof
  let ?s = "s\<lparr>ce_cert := Some (gc_cert_pem g), ce_key := Some (take n (gc_key_pem g)), ce_fates := []\<rparr>"
  show "load_or_generate cl certs r s = (Inl ''write key'', ?s)"
    using assms(1-4)
    by (simp add: load_or_generate_def write_cert_def write_key_def cert_step_def sbind_def lift_result_def)
  fix r'
  let ?g = "\<lparr>gc_cert_pem = gc_cert_pem g, gc_key_pem = take n (gc_key_pem g),
    gc_fingerprint = hex_string (cl_sha256 cl der)\<rparr>"
  have "load_or_generate cl certs r' ?s = (Inr ?g, ?s)"
    using assms(5-7)
    by (simp add: load_or_generate_def read_pem_def sbind_def sensure_def sreturn_def lift_result_def)
  moreover have "rustls_config_from_pem certs private_key build (gc_cert_pem ?g) (gc_key_pem ?g) \<noteq> Inr cfg"
    for cfg using assms(8) by (simp add: rustls_config_from_pem_def result_bind_Inr_iff)
  ultimately show "\<exists>g'. load_or_generate cl certs r' ?s = (Inr g', ?s)
      \<and> (\<forall>cfg. rustls_config_from_pem certs private_key build (gc_cert_pem g') (gc_key_pem g') \<noteq> Inr cfg)"
    by blast
qed

text \<open>The relay never serves without a certificate and a key.\<close>

lemma relay_tls_has_certificate:
  "load_tls_config certs private_key build cert_file key_file = Inr cfg \<Longrightarrow>
     \<exists>chain key. chain \<noteq> [] \<and> build chain key = Inr cfg"
  by (auto simp: load_tls_config_def load_tls_certs_def result_bind_Inr_iff split: if_splits)

end
