(* ===== verification/Desktop_Shell.thy ===== *)
theory Desktop_Shell
  imports Settings_Cmd Certificates
begin

text \<open>
  The shell around the desktop's tasks: lib.rs (start-up, the log file, the close button),
  desktop_notifications.rs, window.rs, tray/menu.rs and commands/windows_setup_cmd.rs of
  src-tauri. What the window, the tray and the operating system are asked is a list of calls;
  their answers are arguments.
\<close>

section \<open>Popups\<close>

definition phone_notification_title :: "notification_row \<Rightarrow> string" where
  "phone_notification_title row =
     (if trim (nr_sender row) = [] then nr_app_name row
      else nr_app_name row @ '' - '' @ nr_sender row)"

definition phone_notification_body :: "notification_row \<Rightarrow> string" where
  "phone_notification_body row =
     (if nr_content_hidden row \<noteq> 0 then ''Masked message - open FocusBridge to peek''
      else if trim (nr_message row) = [] then ''New notification''
      else nr_message row)"

definition show_phone_notification :: "notification_row \<Rightarrow> string \<times> string" where
  "show_phone_notification row = (phone_notification_title row, phone_notification_body row)"

definition show_connection_notification :: "bool \<Rightarrow> string \<times> string" where
  "show_connection_notification connected =
     (if connected then (''FocusBridge connected'', ''Your phone is now syncing notifications.'')
      else (''FocusBridge disconnected'',
            ''Phone sync stopped. Reopen FocusBridge on Android or check Wi-Fi.''))"

text \<open>What a popup of a masked notification shows does not depend on its message.\<close>

lemma masked_message_stays_out:
  "nr_content_hidden row \<noteq> 0 \<Longrightarrow>
     show_phone_notification (row\<lparr>nr_message := m\<rparr>) = show_phone_notification row"
  by (simp add: show_phone_notification_def phone_notification_title_def phone_notification_body_def)

lemma popup_has_text:
  "phone_notification_body row \<noteq> []"
  "nr_app_name row \<noteq> [] \<Longrightarrow> phone_notification_title row \<noteq> []"
  by (auto simp: phone_notification_body_def phone_notification_title_def)

section \<open>The log file\<close>

datatype platform = Windows | Macos | Other_Unix

text \<open>A path is the list of its parts.\<close>

type_synonym path = "string list"

definition log_directory :: "platform \<Rightarrow> (string \<Rightarrow> path option) \<Rightarrow> path option" where
  "log_directory os env =
     map_option (\<lambda>base. base @ [''com.focusbridge.desktop'', ''logs''])
       (case os of
          Windows \<Rightarrow> env ''APPDATA''
        | Macos \<Rightarrow> map_option (\<lambda>home. home @ [''Library'', ''Application Support'']) (env ''HOME'')
        | Other_Unix \<Rightarrow>
            (case env ''XDG_DATA_HOME'' of
               Some d \<Rightarrow> Some d
             | None \<Rightarrow> map_option (\<lambda>home. home @ [''.local'', ''share'']) (env ''HOME'')))"

text \<open>The log as it is written: its text, and that of the previous one.\<close>

record log_files =
  lf_log :: "string option"
  lf_previous :: "string option"

definition LOG_LIMIT :: nat where [limits]: "LOG_LIMIT = 8 * 1024 * 1024"

definition open_log :: "bool \<Rightarrow> bool \<Rightarrow> bool \<Rightarrow> bool \<Rightarrow> log_files \<Rightarrow> bool \<times> log_files" where
  "open_log has_directory created rename_ok open_ok s =
     (if \<not> (has_directory \<and> created) then (False, s)
      else let s1 = (case lf_log s of
                       Some l \<Rightarrow> if LOG_LIMIT < length l \<and> rename_ok
                                 then \<lparr>lf_log = None, lf_previous = Some l\<rparr> else s
                     | None \<Rightarrow> s)
           in if open_ok
              then (True, s1\<lparr>lf_log := Some (case lf_log s1 of None \<Rightarrow> [] | Some l \<Rightarrow> l)\<rparr>)
              else (False, s1))"

definition append_log :: "string \<Rightarrow> log_files \<Rightarrow> log_files" where
  "append_log line s = s\<lparr>lf_log := map_option (\<lambda>l. l @ line) (lf_log s)\<rparr>"

text \<open>What was logged and is still there: the previous log, then the current one.\<close>

definition log_text :: "log_files \<Rightarrow> string" where
  "log_text s =
     (case lf_previous s of None \<Rightarrow> [] | Some p \<Rightarrow> p) @ (case lf_log s of None \<Rightarrow> [] | Some l \<Rightarrow> l)"

lemma opened_log_is_small:
  assumes "open_log d c True ok s = (True, s')"
  obtains l where "lf_log s' = Some l" "length l \<le> LOG_LIMIT"
  using assms by (fastforce simp: open_log_def Let_def split: if_splits option.splits)

lemma opening_keeps_current_log:
  assumes "open_log d c r ok s = (b, s')"
  shows "\<exists>older. log_text s = older @ log_text s'"
proof (cases "lf_log s")
  case None
  then show ?thesis
    using assms by (auto simp: open_log_def log_text_def Let_def split: if_splits)
next
  case (Some l)
  then show ?thesis
    using assms
    by (cases "lf_previous s") (auto simp: open_log_def log_text_def Let_def split: if_splits)
qed

text \<open>A run that logs grows the file past any limit: the size is only looked at on start-up.\<close>

lemma log_grows_in_a_run:
  assumes "lf_log s = Some l"
  shows "lf_log (fold append_log lines s) = Some (l @ concat lines)"
  using assms by (induction lines arbitrary: s l) (simp_all add: append_log_def)

section \<open>Start-up\<close>

datatype startup_event =
  Database_Opened | Database_Ready | Certificate_Loaded | Preference_Read
| Window_Locked_Down | Tray_Installed | Listener_Spawned | Relay_Client_Spawned

record startup =
  su_trace :: "startup_event list"
  su_app :: "app_state option"

definition startup_call :: "startup_event \<Rightarrow> string + 'a \<Rightarrow> (startup, 'a) fallible" where
  "startup_call e answer s =
     (case answer of Inl err \<Rightarrow> (Inl err, s) | Inr x \<Rightarrow> (Inr x, s\<lparr>su_trace := su_trace s @ [e]\<rparr>))"

definition read_preference :: "app_state \<Rightarrow> (startup, unit) fallible" where
  "read_preference app s =
     (case desktop_notifications_enabled app of
        (on, app') \<Rightarrow> (Inr (), s\<lparr>su_app := Some (set_desktop_notifications_enabled on app'),
                             su_trace := su_trace s @ [Preference_Read]\<rparr>))"

definition setup_app ::
  "string + unit \<Rightarrow> string + unit \<Rightarrow> (string + db) \<Rightarrow> (string + generated_cert) \<Rightarrow> string + unit
     \<Rightarrow> (startup, unit) fallible" where
  "setup_app data_dir opened ready cert tray =
     sbind (lift_result data_dir) (\<lambda>_.
     sbind (startup_call Database_Opened opened) (\<lambda>_.
     sbind (startup_call Database_Ready ready) (\<lambda>d.
     sbind (startup_call Certificate_Loaded cert) (\<lambda>c.
     sbind (read_preference (app_new d (gc_fingerprint c))) (\<lambda>_.
     sbind (startup_call Window_Locked_Down (Inr ())) (\<lambda>_.
     sbind (startup_call Tray_Installed tray) (\<lambda>_.
     sbind (startup_call Listener_Spawned (Inr ())) (\<lambda>_.
     startup_call Relay_Client_Spawned (Inr ())))))))))"

text \<open>
  No task that talks to a phone is started unless the database, the certificate and the tray are
  there and the window is locked down; once all are, both tasks are started, on a vault that is
  locked.
\<close>

lemma unlocked_only_by_password:
  "desktop_notifications_enabled app = (on, app') \<Longrightarrow> as_vault_unlocked app' = as_vault_unlocked app"
  by (auto simp: desktop_notifications_enabled_def shown_setting_def app_db_def split: prod.splits sum.splits)

lemma setup_starts_all_or_nothing:
  assumes "setup_app data_dir opened ready cert tray \<lparr>su_trace = [], su_app = None\<rparr> = (r, s')"
  shows "(case r of
            Inl e \<Rightarrow> Listener_Spawned \<notin> set (su_trace s') \<and> Relay_Client_Spawned \<notin> set (su_trace s')
          | Inr _ \<Rightarrow> su_trace s' = [Database_Opened, Database_Ready, Certificate_Loaded, Preference_Read,
                Window_Locked_Down, Tray_Installed, Listener_Spawned, Relay_Client_Spawned]
              \<and> (\<exists>app. su_app s' = Some app \<and> \<not> as_vault_unlocked app))"
  using assms
  by (cases data_dir; cases opened; cases ready; cases cert; cases tray)
    (auto simp: setup_app_def sbind_def lift_result_def startup_call_def read_preference_def
      app_new_def set_desktop_notifications_enabled_def dest!: unlocked_only_by_password
      split: prod.splits)

section \<open>The window and the tray\<close>

datatype window_call =
  Unminimize | Show_Window | Hide_Window | Always_On_Top bool | Focus_Window
| Prevent_Close | Emit_Close_Requested | Exit_App nat

text \<open>The answers of these calls are ignored, so the calls are all that matters.\<close>

definition reveal_main_window :: "bool \<Rightarrow> window_call list" where
  "reveal_main_window has_window =
     (if has_window then [Unminimize, Show_Window, Always_On_Top True, Always_On_Top False, Focus_Window]
      else [])"

definition close_requested :: "window_call list" where
  "close_requested = [Prevent_Close, Emit_Close_Requested, Unminimize, Show_Window, Focus_Window]"

definition minimize_to_tray :: "bool \<Rightarrow> string + unit \<Rightarrow> (string + unit) \<times> window_call list" where
  "minimize_to_tray has_window hidden = (if has_window then (hidden, [Hide_Window]) else (Inr (), []))"

definition quit_app :: "window_call list" where
  "quit_app = [Exit_App 0]"

definition menu_event :: "bool \<Rightarrow> string \<Rightarrow> window_call list" where
  "menu_event has_window item =
     (if item = ''quit'' then [Exit_App 0]
      else if item = ''show'' then reveal_main_window has_window else [])"

datatype mouse_button = Left_Button | Right_Button | Middle_Button

definition tray_click :: "bool \<Rightarrow> mouse_button \<Rightarrow> bool \<Rightarrow> window_call list" where
  "tray_click has_window button released =
     (if button = Left_Button \<and> released then reveal_main_window has_window else [])"

text \<open>Only the two entries that say so end the program; closing the window never does.\<close>

lemma only_quit_exits:
  "Exit_App n \<notin> set close_requested"
  "Exit_App n \<notin> set (tray_click w button released)"
  "Exit_App n \<in> set (menu_event w item) \<Longrightarrow> item = ''quit''"
  by (auto simp: close_requested_def tray_click_def menu_event_def reveal_main_window_def split: if_splits)

lemma revealing_lowers_again:
  assumes "reveal_main_window w = calls @ [Always_On_Top True] @ later"
  shows "Always_On_Top False \<in> set later"
  using assms by (auto simp: reveal_main_window_def Cons_eq_append_conv split: if_splits)

text \<open>
  The lockdown of the webview: the settings asked for, in order. \<open>core\<close>, \<open>settings\<close> and
  \<open>settings3\<close> tell whether each interface was reached; a setting that is refused is only logged.
\<close>

datatype webview_setting = Context_Menus | Status_Bar | Dev_Tools | Browser_Accelerators

definition lock_down_webview ::
  "platform \<Rightarrow> bool \<Rightarrow> bool \<Rightarrow> bool \<Rightarrow> bool \<Rightarrow> bool \<Rightarrow> bool \<Rightarrow> (webview_setting \<times> bool) list" where
  "lock_down_webview os debug has_window webview core settings settings3 =
     (if os = Windows \<and> has_window \<and> webview \<and> core \<and> settings
      then [(Context_Menus, False), (Status_Bar, False)]
        @ (if debug then [] else [(Dev_Tools, False)])
        @ (if settings3 then [(Browser_Accelerators, False)] else [])
      else [])"

lemma lockdown_switches_all_off:
  "lock_down_webview Windows False True True True True True =
     map (\<lambda>x. (x, False)) [Context_Menus, Status_Bar, Dev_Tools, Browser_Accelerators]"
  "(x, on) \<in> set (lock_down_webview os debug w v c t t3) \<Longrightarrow> \<not> on"
  by (auto simp: lock_down_webview_def split: if_splits)

section \<open>The firewall rule\<close>

fun replace_quotes :: "string \<Rightarrow> string" where
  "replace_quotes [] = []"
| "replace_quotes (c # s) = (if c = CHR 0x27 then [CHR 0x27, CHR 0x27] else [c]) @ replace_quotes s"

text \<open>The items of \<open>$args\<close> as the script spells them, each between single quotes.\<close>

definition firewall_items :: "string \<Rightarrow> string list" where
  "firewall_items exe =
     [''advfirewall'', ''firewall'', ''add'', ''rule'', ''name=FocusBridge Local Sync'', ''dir=in'',
      ''action=allow'', ''protocol=TCP'', ''localport=9173'', ''profile=private,domain'',
      ''program='' @ replace_quotes exe, ''enable=yes'']"

definition run_platform_setup :: "platform \<Rightarrow> string + path \<Rightarrow> (string list \<Rightarrow> string + int) \<Rightarrow> string + string" where
  "run_platform_setup os exe powershell =
     (if os \<noteq> Windows then Inr ''No Windows firewall setup is needed on this platform.''
      else result_bind exe (\<lambda>parts.
           result_bind (powershell (firewall_items (join (CHR 0x5C) parts))) (\<lambda>code.
           if code = 0 then Inr ''Windows firewall now allows FocusBridge local sync on TCP 9173. For correct toast identity, use the packaged FocusBridge installer/build rather than launching from PowerShell.''
           else Inl ''Windows setup exited with status'')))"

text \<open>
  A single-quoted text of the script ends at a quote that is not doubled. What is read of an
  item is what was put in, and its closing quote is where the code put it.
\<close>

fun read_single_quoted :: "string \<Rightarrow> (string \<times> string) option" where
  "read_single_quoted [] = None"
| "read_single_quoted (c # s) =
     (if c \<noteq> CHR 0x27 then map_option (\<lambda>(v, rest). (c # v, rest)) (read_single_quoted s)
      else case s of
             d # s' \<Rightarrow> if d = CHR 0x27 then map_option (\<lambda>(v, rest). (CHR 0x27 # v, rest)) (read_single_quoted s')
                       else Some ([], s)
           | [] \<Rightarrow> Some ([], []))"

lemma quoted_text_comes_back:
  assumes "rest = [] \<or> hd rest \<noteq> CHR 0x27"
  shows "read_single_quoted (replace_quotes s @ CHR 0x27 # rest) = Some (s, rest)"
  using assms by (induction s) (auto split: list.splits)

text \<open>
  \<open>Start-Process\<close> hands the items on joined by blanks. The name of the rule falls apart: the
  words that arrive are not the items that were listed.
\<close>

lemma rule_name_falls_apart:
  assumes "map replace_quotes items = firewall_items exe"
  shows "split_on CHR '' '' (join CHR '' '' items) \<noteq> items"
proof
  assume whole: "split_on CHR '' '' (join CHR '' '' items) = items"
  have "map replace_quotes items ! 4 = ''name=FocusBridge Local Sync''"
    by (simp add: assms firewall_items_def)
  moreover have "length items = 12"
    using arg_cong [OF assms, of length] by (simp add: firewall_items_def)
  ultimately have "CHR '' '' \<in> set (replace_quotes (items ! 4))" "items ! 4 \<in> set items" by auto
  moreover have "set (replace_quotes v) \<subseteq> set v" for v by (induction v) auto
  moreover have "CHR '' '' \<notin> set v" if "v \<in> set items" for v
    using split_on_parts [of v "CHR '' ''" "join CHR '' '' items"] that whole by simp
  ultimately show False by blast
qed

end
