(* ===== verification/Spec2Isabelle.thy ===== *)
theory Spec2Isabelle
  imports Session_Pairing Bridge Relay_Server Priority Ws_Access Recovery Fingerprint Relay_Supervisor
    Vault Rule_Text Relay_Presence Desktop_Shell
begin

text \<open>
  FocusBridge: a phone's notifications shown on a desktop. The phone and the desktop share a
  secure channel (shared/secure-channel, used by the phone through shared/secure-channel-jni);
  they meet on the local network or at a relay (relay/), which only forwards what it cannot
  read; the desktop (desktop/core and desktop/src-tauri) pairs with the phone, authenticates it,
  keeps the connection alive and stores what it sends. This development models the Rust code.

  THE SECURE CHANNEL. \<open>Records\<close> is src/records.rs and the framing half of \<open>seal_record\<close>;
  \<open>Secure_Session\<close> is src/lib.rs: the IK and XX handshakes, approval, enrolment, export and
  restore. The Noise library (snow) is a record of functions, with what the code relies on as
  named hypotheses where a property needs them. \<open>Session_Safety\<close> shows what no peer can bring
  about: no plaintext without approval, no other peer than the pinned one. \<open>Session_Pairing\<close>
  shows that two ends that follow the protocol meet and then deliver every message. \<open>Registry\<close>
  and \<open>Bridge\<close> are registry.rs and bridge.rs: the handle table and every exported function,
  with poisoning, wiping and single use.

  THE RELAY. \<open>Relay_Session\<close> and \<open>Relay\<close> are session.rs and relay.rs: pairs of slots with a
  bounded channel each; attaching, detaching, routing and the reader and writer of a socket,
  over explicit sequences of events. \<open>Relay_Auth\<close> is auth.rs, \<open>Account_Store\<close> is
  account_store.rs with the file and its temporary twin, \<open>Relay_Server\<close> is main.rs, config.rs
  and metrics.rs: every HTTP handler and the rate limiters.

  THE DESKTOP'S CORE. \<open>Json\<close> holds JSON values and their accessors; turning text into values is
  a parameter. \<open>Protocol\<close> is protocol.rs, handler.rs and attach.rs; \<open>Priority\<close> is priority.rs
  and study_mode.rs; \<open>Qr\<close> is qr.rs, the compact pairing code; \<open>Relay_Pair\<close> is relay.rs and
  secure_envelope.rs of the core crate.

  THE DESKTOP, ON THE LOCAL NETWORK. \<open>App_State\<close> is state.rs, the state all tasks and commands
  share; \<open>Desktop_Host\<close> adds what the user is shown and lets the other tasks act before every
  access. \<open>Heartbeat\<close> and \<open>Socket_Io\<close> are server/heartbeat.rs and server/socket_io.rs: the probes,
  the queue and the loop that serves a socket while work runs. \<open>Ws_Work\<close> and \<open>Ws_Server\<close> are
  server/ws_server.rs: the work a message asks for, authentication, attaching, the loop of a
  socket and its end. \<open>Ws_Inbox\<close> shows that what is acknowledged is stored, \<open>Ws_Access\<close> that
  nothing happens before authentication and that a manual disconnect holds.

  THE DESKTOP'S DATA. \<open>Local_Db\<close> is db/store.rs and models.rs: tables as lists of rows, every
  statement able to fail; \<open>Local_Db_Facts\<close> states what an operation keeps as a locale of relations
  on tables, interpreted for consistency and for the user's choices. \<open>Fallible\<close> holds operations
  that stop with an error, with triples. \<open>Database_Key\<close> is security/database_key.rs;
  \<open>Encrypted_Db\<close> is db/encrypted.rs, the opening and the one-time encryption of the database over
  files that a crash leaves as they are. \<open>Encrypted_Facts\<close> and \<open>Migration\<close> show that no
  interruption loses the data, \<open>Recovery\<close> that the next start completes, \<open>Fingerprint\<close> that the
  digest by which a copy is accepted decides whether it is one.

  THE DESKTOP, AT THE RELAY. \<open>Relay_Api\<close>, \<open>Relay_Identity\<close> and \<open>Relay_Client\<close> are the files of
  those names under sync/: provisioning, key material, one attempt at a secure session.
  \<open>Relay_Pinning\<close> shows whom a session can be with; \<open>Relay_Supervisor\<close> is the bridge to the local
  server and the supervisor with its backoff, and shows that a silent phone ends a bridge.

  THE COMMANDS. \<open>Auth_Cmd\<close> is auth_cmd.rs and notification_cmd.rs, with \<open>Vault\<close> on runs of
  commands: no inbox without the password. \<open>Settings_Cmd\<close> is settings_cmd.rs and app_rules_cmd.rs,
  with \<open>Rule_Text\<close> on what comes back; \<open>Relay_Cmd\<close> is relay_cmd.rs; \<open>Pairing_Cmd\<close> is
  pairing_cmd.rs and diagnostics_cmd.rs. \<open>Pairing_Code\<close> follows a code from the screen to the
  socket, \<open>Relay_Presence\<close> the user's commands through the supervisor. \<open>Certificates\<close> is the
  desktop's certificate and both TLS loaders, \<open>Desktop_Shell\<close> is lib.rs, window.rs, tray/menu.rs,
  desktop_notifications.rs and windows_setup_cmd.rs.

  CONVENTIONS. Strings and bytes are lists of 8-bit words or of characters (\<open>Prelude\<close>,
  \<open>Rust_Strings\<close>); an error is the left of a sum, with the code's own text or a short name of it;
  a map is an association list with one entry per key (\<open>Stores\<close>). The clock, randomness and the
  outcome of every write are arguments. Integers are words where the code can wrap and unbounded
  where a bound is proved. Loops over the network run over a list of the events that happen, so a
  statement over all lists speaks of every schedule; no fuel is used. Cryptography, JSON and
  base64 text, SQLite, TLS and the operating system are parameters; where a property relies on
  their documented behaviour, it is a named hypothesis.

  NOT MODELLED. The SQL by which encrypted.rs copies and checks row identities (the engine is a
  parameter that says whether it succeeded); the filter and formatting of the log; the plugins and
  the command list handed to Tauri, the tray icon, the Windows application id; drawing the QR
  image; actix, tokio and rustls themselves. The tests, and the parts in other languages: the
  Android application, the interface in TypeScript, and the relay that runs as a Worker.
\<close>

end
